theory Spec2Isabelle
  imports Main "HOL-Library.Word" "HOL-Library.Signed_Division"
begin

unbundle bit_operations_syntax

section \<open>phc2sys: machine integers, constants and data\<close>

text \<open>
  The embedding follows \<^verbatim>\<open>phc2sys.c\<close> on an LP64 Linux target: \<^verbatim>\<open>int\<close> and
  \<^verbatim>\<open>unsigned int\<close> are 32-bit words, \<^verbatim>\<open>int64_t\<close>, \<^verbatim>\<open>uint64_t\<close>, \<^verbatim>\<open>long\<close>,
  \<^verbatim>\<open>long long\<close> and \<^verbatim>\<open>time_t\<close> are 64-bit words. Addition, subtraction and
  multiplication wrap (two's complement); a signed comparison is \<open><s\<close>, an unsigned one
  \<open><\<close>; \<open>div\<close> and \<open>mod\<close> on words are the unsigned C operators, and \<open>sdiv64\<close> is
  the signed C division, which truncates towards zero.
\<close>

type_synonym int64_t = "64 word"
type_synonym uint64_t = "64 word"
type_synonym cint = "32 word"

definition sdiv64 :: "int64_t \<Rightarrow> int64_t \<Rightarrow> int64_t" where
  "sdiv64 a b = word_of_int (sint a sdiv sint b)"

definition NS_PER_SEC :: "64 word" where
  "NS_PER_SEC = 1000000000"

definition PHC_PPS_OFFSET_LIMIT :: "64 word" where
  "PHC_PPS_OFFSET_LIMIT = 10000000"

definition PMC_UPDATE_INTERVAL :: "64 word" where
  "PMC_UPDATE_INTERVAL = 60 * NS_PER_SEC"

definition INT64_MAX :: int64_t where
  "INT64_MAX = 9223372036854775807"

definition max_ppb :: cint where
  "max_ppb = 512000"

text \<open>
  A clock id is compared with \<^verbatim>\<open>CLOCK_REALTIME\<close> and \<^verbatim>\<open>CLOCK_INVALID\<close> only, or is
  the dynamic id of an open device (\<^verbatim>\<open>FD_TO_CLOCKID(fd)\<close>), which equals neither.
\<close>

datatype clockid_t = CLOCK_REALTIME | CLOCK_INVALID | FD_TO_CLOCKID cint

fun CLOCKID_TO_FD :: "clockid_t \<Rightarrow> cint" where
  "CLOCKID_TO_FD (FD_TO_CLOCKID fd) = fd"
| "CLOCKID_TO_FD CLOCK_REALTIME = - 1"
| "CLOCKID_TO_FD CLOCK_INVALID = 0"

record timespec =
  tv_sec :: "64 word"
  tv_nsec :: "64 word"

datatype servo_state = SERVO_UNLOCKED | SERVO_JUMP | SERVO_LOCKED

text \<open>
  The enumerations of the management protocol (\<^verbatim>\<open>msg.h\<close>, \<^verbatim>\<open>tlv.h\<close>, \<^verbatim>\<open>fsm.h\<close>,
  \<^verbatim>\<open>ds.h\<close>) are used by \<^verbatim>\<open>phc2sys.c\<close> through equality with named constants only; each
  is a datatype with the constants the code names and one constructor for every other value.
  A received message is given by the fields the code reads from it.
\<close>

datatype msg_kind = MANAGEMENT | OTHER_MESSAGE
datatype mgt_action = RESPONSE | OTHER_ACTION
datatype tlv_kind = TLV_MANAGEMENT | OTHER_TLV
datatype ds_id = PORT_DATA_SET | TIME_PROPERTIES_DATA_SET | OTHER_ID
datatype port_state = PS_MASTER | PS_SLAVE | PS_OTHER

record ptp_message =
  msg_type :: msg_kind
  management_action :: mgt_action
  tlv_count :: cint
  tlv_type :: tlv_kind
  mgt_id :: ds_id
  portState :: port_state
  currentUtcOffset :: "16 word"
  flags_LEAP_61 :: bool
  flags_LEAP_59 :: bool

subsection \<open>Effects, faults and inputs\<close>

text \<open>
  Every call that leaves \<^verbatim>\<open>phc2sys.c\<close> and acts on the world is recorded, in order, in a
  trace of actions: log lines (by their format string), the servo, the clock adjustments,
  requests to the management client. \<open>Call_run_pmc\<close> marks the call of \<open>run_pmc\<close> made by
  \<open>update_sync_offset\<close>. The type \<open>'d\<close> stands for C's \<^verbatim>\<open>double\<close>; the code only negates
  such values and hands them on.
\<close>

datatype 'd action =
    Pr_err string
  | Pr_warning string
  | Pr_notice string
  | Pr_info string
  | Fprintf_stderr string
  | Usage
  | Version_show
  | Usleep cint
  | Poll bool cint
  | Pmc_send_get_action ds_id
  | Msg_put
  | Call_run_pmc
  | Pmc_destroy
  | Servo_sample int64_t uint64_t
  | Clockadj_step clockid_t int64_t
  | Clockadj_set_freq clockid_t 'd
  | Clockadj_set_leap clockid_t cint

text \<open>
  A fault ends the run: the inputs given to the model are used up while a loop is still
  waiting (\<open>Script_exhausted\<close>), or the C program dereferences a null pointer, indexes
  \<^verbatim>\<open>ds_ids\<close> out of range or divides by zero.
\<close>

datatype fault = Script_exhausted | Null_deref | Out_of_bounds | Div_by_zero

definition emit :: "'d action list \<Rightarrow> fault + ('a \<times> 'd action list) \<Rightarrow> fault + ('a \<times> 'd action list)" where
  "emit tr r = (case r of Inl e \<Rightarrow> Inl e | Inr (x, t) \<Rightarrow> Inr (x, tr @ t))"

text \<open>One iteration of \<open>run_pmc\<close>'s loop reads: what \<^verbatim>\<open>poll\<close> returns and reports in
  \<^verbatim>\<open>revents\<close>, and what \<^verbatim>\<open>pmc_recv\<close> returns if it is called.\<close>

record pmc_step =
  poll_cnt :: cint
  revents_POLLIN :: bool
  revents_POLLPRI :: bool
  revents_POLLOUT :: bool
  recv_msg :: "ptp_message option"

text \<open>One trial of \<open>read_phc\<close>: the results of its three \<^verbatim>\<open>clock_gettime\<close> calls
  (\<open>None\<close>: the call fails).\<close>

type_synonym trial = "timespec option \<times> timespec option \<times> timespec option"

text \<open>What one iteration of a sampling loop reads from the world.\<close>

record inputs =
  pps_fetch :: "(64 word \<times> 32 word) option"
  phc_reads :: "nat \<Rightarrow> trial"
  sysoff_measure :: "(int64_t \<times> uint64_t \<times> int64_t) option"
  pmc_script :: "pmc_step list"
  realtime :: "timespec option"

text \<open>
  Functions of the repository that are not in \<^verbatim>\<open>phc2sys.c\<close> and that the code calls for
  a result are parameters of the model: the servo (\<^verbatim>\<open>servo.c\<close>), the leap second helpers
  (\<^verbatim>\<open>util.c\<close>), and the conversion of an \<^verbatim>\<open>int64_t\<close> to a \<^verbatim>\<open>double\<close>.
\<close>

record ('s, 'd) extern =
  servo_sample :: "'s \<Rightarrow> int64_t \<Rightarrow> uint64_t \<Rightarrow> 'd \<times> servo_state \<times> 's"
  is_utc_ambiguous :: "uint64_t \<Rightarrow> cint"
  leap_second_status :: "uint64_t \<Rightarrow> cint \<Rightarrow> cint \<Rightarrow> cint \<Rightarrow> cint \<times> cint \<times> cint"
  double_of_int64 :: "int64_t \<Rightarrow> 'd"

text \<open>\<^verbatim>\<open>struct clock\<close>. A pointer that may be null is an option; \<open>pmc\<close> says whether
  the management client exists.\<close>

record ('s, 'd) clock =
  clkid :: clockid_t
  servo :: "'s option"
  servo_state :: servo_state
  source_label :: string
  offset_stats :: "'d list option"
  freq_stats :: "'d list option"
  delay_stats :: "'d list option"
  stats_max_count :: "32 word"
  sync_offset :: cint
  sync_offset_direction :: cint
  leap :: cint
  leap_set :: cint
  kernel_leap :: cint
  pmc :: bool
  pmc_ds_idx :: cint
  pmc_ds_requested :: cint
  pmc_last_update :: uint64_t

section \<open>The samplers\<close>

subsection \<open>\<open>read_phc\<close>\<close>

fun clock_gettime3 :: "trial \<Rightarrow> (timespec \<times> timespec \<times> timespec) option" where
  "clock_gettime3 (Some tdst1, Some tsrc, Some tdst2) = Some (tdst1, tsrc, tdst2)"
| "clock_gettime3 _ = None"

text \<open>
  The \<^verbatim>\<open>for\<close> loop of \<open>read_phc\<close>, from index \<open>i\<close>, on the state
  \<open>(best_interval, *offset, *ts)\<close>. The result says whether every read succeeded.
\<close>

function read_phc_loop ::
  "(nat \<Rightarrow> trial) \<Rightarrow> int \<Rightarrow> int \<Rightarrow> int64_t \<times> int64_t \<times> uint64_t \<Rightarrow>
   bool \<times> int64_t \<times> int64_t \<times> uint64_t" where
  "read_phc_loop reads readings i (best_interval, offset, ts) =
     (if i < readings then
        (case clock_gettime3 (reads (nat i)) of
           None \<Rightarrow> (False, best_interval, offset, ts)
         | Some (tdst1, tsrc, tdst2) \<Rightarrow>
             (let interval = (tv_sec tdst2 - tv_sec tdst1) * NS_PER_SEC +
                             tv_nsec tdst2 - tv_nsec tdst1
              in if interval <s best_interval then
                   read_phc_loop reads readings (i + 1)
                     (interval,
                      (tv_sec tdst1 - tv_sec tsrc) * NS_PER_SEC +
                        tv_nsec tdst1 - tv_nsec tsrc + sdiv64 interval 2,
                      tv_sec tdst2 * NS_PER_SEC + tv_nsec tdst2)
                 else read_phc_loop reads readings (i + 1) (best_interval, offset, ts)))
      else (True, best_interval, offset, ts))"
  by pat_completeness auto
termination
  by (relation "measure (\<lambda>(reads, readings, i, st). nat (readings - i))") auto

declare read_phc_loop.simps [simp del]

text \<open>
  \<open>read_phc\<close> writes through \<^verbatim>\<open>offset\<close>, \<^verbatim>\<open>ts\<close> and \<^verbatim>\<open>delay\<close>: the model takes what
  these hold before the call and returns what they hold after it, with the return value.
\<close>

definition read_phc ::
  "clockid_t \<Rightarrow> clockid_t \<Rightarrow> int \<Rightarrow> (nat \<Rightarrow> trial) \<Rightarrow> int64_t \<times> uint64_t \<times> int64_t \<Rightarrow>
   (cint \<times> int64_t \<times> uint64_t \<times> int64_t) \<times> 'd action list" where
  "read_phc clkid' sysclk readings reads outs =
     (case outs of (offset0, ts0, delay0) \<Rightarrow>
        (case read_phc_loop reads readings 0 (INT64_MAX, offset0, ts0) of
           (False, best_interval, offset, ts) \<Rightarrow>
             ((0, offset, ts, delay0), [Pr_err ''failed to read clock: %m''])
         | (True, best_interval, offset, ts) \<Rightarrow>
             ((1, offset, ts, best_interval), [])))"

text \<open>
  For stating what \<open>read_phc\<close> returns: the interval, the offset and the time stamp that
  the loop body computes from the three readings of one trial; \<open>reads_ok reads xs\<close> says
  that trial \<open>j\<close> reads the three time stamps \<open>xs ! j\<close> without a failure; \<open>keep_best\<close>
  is the update of \<open>(best_interval, *offset, *ts)\<close> by one trial.
\<close>

definition trial_interval :: "timespec \<times> timespec \<times> timespec \<Rightarrow> int64_t" where
  "trial_interval x = (case x of (tdst1, tsrc, tdst2) \<Rightarrow>
     (tv_sec tdst2 - tv_sec tdst1) * NS_PER_SEC + tv_nsec tdst2 - tv_nsec tdst1)"

definition trial_offset :: "timespec \<times> timespec \<times> timespec \<Rightarrow> int64_t" where
  "trial_offset x = (case x of (tdst1, tsrc, tdst2) \<Rightarrow>
     (tv_sec tdst1 - tv_sec tsrc) * NS_PER_SEC + tv_nsec tdst1 - tv_nsec tsrc +
     sdiv64 (trial_interval x) 2)"

definition trial_ts :: "timespec \<times> timespec \<times> timespec \<Rightarrow> uint64_t" where
  "trial_ts x = (case x of (tdst1, tsrc, tdst2) \<Rightarrow> tv_sec tdst2 * NS_PER_SEC + tv_nsec tdst2)"

definition reads_ok :: "(nat \<Rightarrow> trial) \<Rightarrow> (timespec \<times> timespec \<times> timespec) list \<Rightarrow> bool" where
  "reads_ok reads xs =
     (\<forall>j < length xs. reads j = (case xs ! j of (a, b, c) \<Rightarrow> (Some a, Some b, Some c)))"

definition keep_best ::
  "int64_t \<times> int64_t \<times> uint64_t \<Rightarrow> timespec \<times> timespec \<times> timespec \<Rightarrow> int64_t \<times> int64_t \<times> uint64_t" where
  "keep_best st x = (case st of (best_interval, offset, ts) \<Rightarrow>
     if trial_interval x <s best_interval then (trial_interval x, trial_offset x, trial_ts x)
     else (best_interval, offset, ts))"

subsection \<open>\<open>read_pps\<close>\<close>

text \<open>The argument is the result of the \<^verbatim>\<open>PPS_FETCH\<close> ioctl: \<open>None\<close> when it fails,
  else \<^verbatim>\<open>assert_tu.sec\<close> (64 bits, signed) and \<^verbatim>\<open>assert_tu.nsec\<close> (32 bits, signed).\<close>

definition read_pps ::
  "(64 word \<times> 32 word) option \<Rightarrow> int64_t \<times> uint64_t \<Rightarrow> (cint \<times> int64_t \<times> uint64_t) \<times> 'd action list" where
  "read_pps fetch outs =
     (case fetch of
        None \<Rightarrow> ((0, outs), [Pr_err ''failed to fetch PPS: %m''])
      | Some (sec, nsec) \<Rightarrow>
          (let ts = sec * NS_PER_SEC + scast nsec;
               offset = ts mod NS_PER_SEC;
               offset = (if sdiv64 NS_PER_SEC 2 <s offset then offset - NS_PER_SEC else offset)
           in ((1, offset, ts), [])))"

section \<open>The control loop\<close>

definition bind_f :: "fault + 'a \<Rightarrow> ('a \<Rightarrow> fault + 'b) \<Rightarrow> fault + 'b" where
  "bind_f m f = (case m of Inl e \<Rightarrow> Inl e | Inr x \<Rightarrow> f x)"

subsection \<open>Statistics\<close>

text \<open>
  Modelled from the spec: \<^verbatim>\<open>stats.c\<close> (\<^verbatim>\<open>stats_add_value\<close>, \<^verbatim>\<open>stats_get_num_values\<close>,
  \<^verbatim>\<open>stats_get_result\<close>, \<^verbatim>\<open>stats_reset\<close>) is not among the sources. An accumulator is the
  list of the values added since the last reset (the spec's count, sum, sum of squares,
  minimum and maximum are functions of it); a result exists when a value was added.
\<close>

definition stats_add_value :: "'d list option \<Rightarrow> 'd \<Rightarrow> fault + 'd list option" where
  "stats_add_value st v = (case st of None \<Rightarrow> Inl Null_deref | Some xs \<Rightarrow> Inr (Some (xs @ [v])))"

definition stats_get_num_values :: "'d list option \<Rightarrow> fault + 32 word" where
  "stats_get_num_values st = (case st of None \<Rightarrow> Inl Null_deref | Some xs \<Rightarrow> Inr (of_nat (length xs)))"

definition stats_get_result :: "'d list option \<Rightarrow> fault + cint" where
  "stats_get_result st =
     (case st of None \<Rightarrow> Inl Null_deref | Some xs \<Rightarrow> Inr (if xs = [] then - 1 else 0))"

definition stats_reset :: "'d list option \<Rightarrow> fault + 'd list option" where
  "stats_reset st = (case st of None \<Rightarrow> Inl Null_deref | Some xs \<Rightarrow> Inr (Some []))"

definition update_clock_stats ::
  "('s, 'd) extern \<Rightarrow> ('s, 'd) clock \<Rightarrow> int64_t \<Rightarrow> 'd \<Rightarrow> int64_t \<Rightarrow>
   fault + (('s, 'd) clock \<times> 'd action list)" where
  "update_clock_stats X c offset freq delay =
     bind_f (stats_add_value (offset_stats c) (double_of_int64 X offset)) (\<lambda>os.
     bind_f (stats_add_value (freq_stats c) freq) (\<lambda>fs.
     bind_f (if 0 \<le>s delay then stats_add_value (delay_stats c) (double_of_int64 X delay)
             else Inr (delay_stats c)) (\<lambda>ds.
     bind_f (stats_get_num_values os) (\<lambda>n.
       if n < stats_max_count c
       then Inr (c\<lparr>offset_stats := os, freq_stats := fs, delay_stats := ds\<rparr>, [])
       else
         bind_f (stats_get_result os) (\<lambda>r1.
         bind_f (stats_get_result fs) (\<lambda>r2.
         bind_f (stats_get_result ds) (\<lambda>r3.
         bind_f (stats_reset os) (\<lambda>os'.
         bind_f (stats_reset fs) (\<lambda>fs'.
         bind_f (stats_reset ds) (\<lambda>ds'.
           Inr (c\<lparr>offset_stats := os', freq_stats := fs', delay_stats := ds'\<rparr>,
                [Pr_info (if r3 = 0
                   then ''rms %4.0f max %4.0f freq %+6.0f +/- %3.0f delay %5.0f +/- %3.0f''
                   else ''rms %4.0f max %4.0f freq %+6.0f +/- %3.0f'')])))))))))))"

subsection \<open>The management client: \<open>run_pmc\<close>\<close>

definition is_msg_mgt :: "ptp_message \<Rightarrow> cint" where
  "is_msg_mgt msg =
     (if msg_type msg \<noteq> MANAGEMENT then 0
      else if management_action msg \<noteq> RESPONSE then 0
      else if tlv_count msg \<noteq> 1 then 0
      else if tlv_type msg \<noteq> TLV_MANAGEMENT then 0
      else 1)"

definition get_mgt_id :: "ptp_message \<Rightarrow> ds_id" where
  "get_mgt_id msg = mgt_id msg"

definition N_ID :: cint where
  "N_ID = 2"

definition ds_ids :: "ds_id list" where
  "ds_ids = [PORT_DATA_SET, TIME_PROPERTIES_DATA_SET]"

datatype loop_ctl = Continue | Return cint

text \<open>
  The body of \<open>run_pmc\<close>'s loop from the call of \<^verbatim>\<open>poll\<close> on, for a data set that is
  needed: \<open>Return r\<close> is \<^verbatim>\<open>return r\<close>, \<open>Continue\<close> is the next iteration (by
  \<^verbatim>\<open>continue\<close> or by reaching the end of the body). \<open>Poll b t\<close> records the call of
  \<^verbatim>\<open>poll\<close> with timeout \<open>t\<close>, where \<open>b\<close> says that \<^verbatim>\<open>POLLOUT\<close> was asked for.
\<close>

definition run_pmc_body ::
  "('s, 'd) clock \<Rightarrow> cint \<Rightarrow> pmc_step \<Rightarrow> (loop_ctl \<times> ('s, 'd) clock) \<times> 'd action list" where
  "run_pmc_body c timeout s =
     (let id = ds_ids ! unat (pmc_ds_idx c);
          tr0 = [Poll (pmc_ds_requested c = 0) timeout]
      in if poll_cnt s <s 0 then ((Return (- 1), c), tr0 @ [Pr_err ''poll failed''])
         else if poll_cnt s = 0 then ((Return 0, c\<lparr>pmc_ds_requested := 0\<rparr>), tr0)
         else
           (let pollin = (revents_POLLIN s \<or> revents_POLLPRI s);
                (c1, tr1) = (if revents_POLLOUT s \<and> \<not> pollin
                             then (c\<lparr>pmc_ds_requested := 1\<rparr>, tr0 @ [Pmc_send_get_action id])
                             else (c, tr0))
            in if \<not> pollin then ((Continue, c1), tr1)
               else
                 (case recv_msg s of
                    None \<Rightarrow> ((Continue, c1), tr1)
                  | Some msg \<Rightarrow>
                      if is_msg_mgt msg = 0 \<or> get_mgt_id msg \<noteq> id
                      then ((Continue, c1), tr1 @ [Msg_put])
                      else
                        (let (c2, ds_done) =
                               (case get_mgt_id msg of
                                  PORT_DATA_SET \<Rightarrow>
                                    (c1, case portState msg of
                                           PS_MASTER \<Rightarrow> 1 | PS_SLAVE \<Rightarrow> 1 | PS_OTHER \<Rightarrow> 0)
                                | TIME_PROPERTIES_DATA_SET \<Rightarrow>
                                    (c1\<lparr>sync_offset := scast (currentUtcOffset msg),
                                        leap := (if flags_LEAP_61 msg then 1
                                                 else if flags_LEAP_59 msg then - 1 else 0)\<rparr>,
                                     1)
                                | OTHER_ID \<Rightarrow> (c1, 0));
                             c3 = (if ds_done \<noteq> (0 :: cint)
                                   then c2\<lparr>pmc_ds_idx := pmc_ds_idx c2 + 1, pmc_ds_requested := 0\<rparr>
                                   else c2)
                         in ((Continue, c3), tr1 @ [Msg_put])))))"

text \<open>The number of data sets from the cursor to \<open>N_ID\<close>, for the termination of \<open>run_pmc\<close>.\<close>

definition ds_left :: "('s, 'd) clock \<Rightarrow> nat" where
  "ds_left c = (if \<not> pmc_ds_idx c <s 0 \<and> pmc_ds_idx c <s N_ID then 2 - unat (pmc_ds_idx c) else 0)"

lemma cint_0_or_1: "\<not> (i :: cint) <s 0 \<Longrightarrow> i <s 2 \<Longrightarrow> i = 0 \<or> i = 1"
proof -
  assume a: "\<not> i <s 0" and b: "i <s 2"
  have "sint i = 0 \<or> sint i = 1"
    using a b by (auto simp: word_sless_alt)
  then show ?thesis
  proof
    assume "sint i = 0"
    then have "word_of_int (sint i) = (word_of_int 0 :: cint)" by (simp only:)
    then show ?thesis by simp
  next
    assume "sint i = 1"
    then have "word_of_int (sint i) = (word_of_int 1 :: cint)" by (simp only:)
    then show ?thesis by simp
  qed
qed

lemma ds_left_le: "ds_left c \<le> 2"
  by (simp add: ds_left_def)

lemma ds_left_skip:
  "\<not> pmc_ds_idx c <s 0 \<Longrightarrow> pmc_ds_idx c <s N_ID \<Longrightarrow>
   ds_left (c\<lparr>pmc_ds_idx := pmc_ds_idx c + 1\<rparr>) < ds_left c"
  using cint_0_or_1 [of "pmc_ds_idx c"] by (auto simp: ds_left_def N_ID_def)

text \<open>
  \<open>run_pmc\<close>: the \<^verbatim>\<open>while\<close> loop on the cursor \<open>pmc_ds_idx\<close>. Each iteration that polls
  takes the next step of the script.
\<close>

function run_pmc ::
  "('s, 'd) clock \<Rightarrow> cint \<Rightarrow> cint \<Rightarrow> cint \<Rightarrow> pmc_step list \<Rightarrow>
   fault + ((cint \<times> ('s, 'd) clock) \<times> 'd action list)" where
  "run_pmc c timeout wait_sync get_utc_offset script =
     (if pmc_ds_idx c <s N_ID then
        (if pmc_ds_idx c <s 0 then Inl Out_of_bounds
         else if (ds_ids ! unat (pmc_ds_idx c) = PORT_DATA_SET \<and> wait_sync = 0) \<or>
                 (ds_ids ! unat (pmc_ds_idx c) = TIME_PROPERTIES_DATA_SET \<and> get_utc_offset = 0)
         then run_pmc (c\<lparr>pmc_ds_idx := pmc_ds_idx c + 1\<rparr>) timeout wait_sync get_utc_offset script
         else
           (case script of
              [] \<Rightarrow> Inl Script_exhausted
            | s # rest \<Rightarrow>
                (case run_pmc_body c timeout s of
                   ((Continue, c1), tr) \<Rightarrow>
                     emit tr (run_pmc c1 timeout wait_sync get_utc_offset rest)
                 | ((Return r, c1), tr) \<Rightarrow> Inr ((r, c1), tr))))
      else Inr ((1, c\<lparr>pmc_ds_idx := 0\<rparr>), []))"
  by pat_completeness auto
termination
proof (relation "measure (\<lambda>(c, timeout, wait_sync, get_utc_offset, script).
                   3 * length script + ds_left c)")
  show "wf (measure (\<lambda>(c :: ('s, 'd) clock, timeout :: cint, wait_sync :: cint,
                       get_utc_offset :: cint, script :: pmc_step list).
                   3 * length script + ds_left c))"
    by simp
next
  fix c :: "('s, 'd) clock" and timeout wait_sync get_utc_offset :: cint
    and script :: "pmc_step list"
  assume "pmc_ds_idx c <s N_ID" "\<not> pmc_ds_idx c <s 0"
  then show "((c\<lparr>pmc_ds_idx := pmc_ds_idx c + 1\<rparr>, timeout, wait_sync, get_utc_offset, script),
              (c, timeout, wait_sync, get_utc_offset, script))
             \<in> measure (\<lambda>(c, timeout, wait_sync, get_utc_offset, script).
                   3 * length script + ds_left c)"
    by (simp add: ds_left_skip)
next
  fix c c1 :: "('s, 'd) clock" and timeout wait_sync get_utc_offset :: cint
    and script rest :: "pmc_step list" and s :: pmc_step
  assume "script = s # rest"
  then show "((c1, timeout, wait_sync, get_utc_offset, rest),
              (c, timeout, wait_sync, get_utc_offset, script))
             \<in> measure (\<lambda>(c, timeout, wait_sync, get_utc_offset, script).
                   3 * length script + ds_left c)"
    using ds_left_le [of c1] by simp
qed

declare run_pmc.simps [simp del]

text \<open>
  For stating what a round has seen: \<open>port_ds_response s\<close> is the message of step \<open>s\<close>
  when it is a management response to \<^verbatim>\<open>PORT_DATA_SET\<close> that the loop body reads;
  \<open>port_ds_satisfied s\<close> says that its port state is \<^verbatim>\<open>MASTER\<close> or \<^verbatim>\<open>SLAVE\<close>;
  \<open>time_properties_satisfied s\<close> that step \<open>s\<close> reads a response to
  \<^verbatim>\<open>TIME_PROPERTIES_DATA_SET\<close>. \<open>pmc_action\<close> holds of the actions \<open>run_pmc\<close> takes, and
  \<open>pmc_frame c c'\<close> says that \<open>c'\<close> differs from \<open>c\<close> at most in the cursor, the
  request flag, \<^verbatim>\<open>sync_offset\<close> and \<^verbatim>\<open>leap\<close>.
\<close>

definition port_ds_response :: "pmc_step \<Rightarrow> ptp_message option" where
  "port_ds_response s =
     (if \<not> poll_cnt s <s 0 \<and> poll_cnt s \<noteq> 0 \<and> (revents_POLLIN s \<or> revents_POLLPRI s)
      then (case recv_msg s of
              None \<Rightarrow> None
            | Some msg \<Rightarrow>
                if is_msg_mgt msg \<noteq> 0 \<and> get_mgt_id msg = PORT_DATA_SET then Some msg else None)
      else None)"

definition port_ds_satisfied :: "pmc_step \<Rightarrow> bool" where
  "port_ds_satisfied s =
     (case port_ds_response s of
        None \<Rightarrow> False
      | Some msg \<Rightarrow> portState msg = PS_MASTER \<or> portState msg = PS_SLAVE)"

definition time_properties_satisfied :: "pmc_step \<Rightarrow> bool" where
  "time_properties_satisfied s =
     (\<not> poll_cnt s <s 0 \<and> poll_cnt s \<noteq> 0 \<and> (revents_POLLIN s \<or> revents_POLLPRI s) \<and>
      (case recv_msg s of
         None \<Rightarrow> False
       | Some msg \<Rightarrow> is_msg_mgt msg \<noteq> 0 \<and> get_mgt_id msg = TIME_PROPERTIES_DATA_SET))"

definition pmc_action :: "'d action \<Rightarrow> bool" where
  "pmc_action a =
     (case a of Poll b t \<Rightarrow> True | Pr_err m \<Rightarrow> True | Pmc_send_get_action i \<Rightarrow> True
      | Msg_put \<Rightarrow> True | _ \<Rightarrow> False)"

definition pmc_frame :: "('s, 'd) clock \<Rightarrow> ('s, 'd) clock \<Rightarrow> bool" where
  "pmc_frame c c' =
     (clkid c' = clkid c \<and> servo c' = servo c \<and> servo_state c' = servo_state c \<and>
      source_label c' = source_label c \<and> offset_stats c' = offset_stats c \<and>
      freq_stats c' = freq_stats c \<and> delay_stats c' = delay_stats c \<and>
      stats_max_count c' = stats_max_count c \<and>
      sync_offset_direction c' = sync_offset_direction c \<and> leap_set c' = leap_set c \<and>
      kernel_leap c' = kernel_leap c \<and> pmc c' = pmc c \<and>
      pmc_last_update c' = pmc_last_update c)"

subsection \<open>The leap coordinator: \<open>update_sync_offset\<close>\<close>

text \<open>
  The result is the return value and the clock, with the trace. \<open>realtime inp\<close> is what
  \<^verbatim>\<open>clock_gettime(CLOCK_REALTIME, &tp)\<close> gives if it is called, \<open>pmc_script inp\<close> what the
  management round reads. The function is the sequence of its two parts: the refresh of
  the management data (lines 462 to 467) and the handling of leap seconds (lines 469 to
  509).
\<close>

definition update_sync_offset_refresh ::
  "inputs \<Rightarrow> ('s, 'd) clock \<Rightarrow> uint64_t \<Rightarrow> fault + (('s, 'd) clock \<times> 'd action list)" where
  "update_sync_offset_refresh inp c ts =
     (if pmc c \<and>
         \<not> (pmc_last_update c < ts \<and> ts - pmc_last_update c < PMC_UPDATE_INTERVAL)
      then bind_f (run_pmc c 0 0 1 (pmc_script inp)) (\<lambda>((r, c1), tr).
             Inr (if 0 <s r then c1\<lparr>pmc_last_update := ts\<rparr> else c1, Call_run_pmc # tr))
      else Inr (c, []))"

definition update_sync_offset_leap ::
  "('s, 'd) extern \<Rightarrow> inputs \<Rightarrow> ('s, 'd) clock \<Rightarrow> int64_t \<Rightarrow> uint64_t \<Rightarrow>
   (cint \<times> ('s, 'd) clock) \<times> 'd action list" where
  "update_sync_offset_leap X inp c1 offset ts =
     (if leap c1 = 0 \<and> leap_set c1 = 0 then ((0, c1), [])
      else
        (case (if clkid c1 \<noteq> CLOCK_REALTIME
               then (case realtime inp of
                       None \<Rightarrow> None
                     | Some tp \<Rightarrow> Some (tv_sec tp * NS_PER_SEC + tv_nsec tp))
               else Some ts) of
           None \<Rightarrow> ((- 1, c1), [Pr_err ''failed to read clock: %m''])
         | Some ts1 \<Rightarrow>
             (let ts2 = (if clkid c1 = CLOCK_REALTIME \<and> servo_state c1 = SERVO_UNLOCKED
                         then ts1 - (offset + scast (sync_offset c1) * NS_PER_SEC *
                                              scast (sync_offset_direction c1))
                         else ts1)
              in if is_utc_ambiguous X ts2 \<noteq> 0
                 then ((- 1, c1), [Pr_info ''clock update suspended due to leap second''])
                 else
                   (case leap_second_status X ts2 (leap_set c1) (leap c1) (sync_offset c1) of
                      (clock_leap, leap', utc_offset') \<Rightarrow>
                        (let c2 = c1\<lparr>leap := leap', sync_offset := utc_offset'\<rparr>
                         in if leap_set c2 \<noteq> clock_leap
                            then ((0, c2\<lparr>leap_set := clock_leap\<rparr>),
                                  (if clkid c2 = CLOCK_REALTIME \<and> kernel_leap c2 \<noteq> 0
                                   then [Clockadj_set_leap (clkid c2) clock_leap]
                                   else []))
                            else ((0, c2), []))))))"

definition update_sync_offset ::
  "('s, 'd) extern \<Rightarrow> inputs \<Rightarrow> ('s, 'd) clock \<Rightarrow> int64_t \<Rightarrow> uint64_t \<Rightarrow>
   fault + ((cint \<times> ('s, 'd) clock) \<times> 'd action list)" where
  "update_sync_offset X inp c offset ts =
     bind_f (update_sync_offset_refresh inp c ts) (\<lambda>(c1, tr1).
       emit tr1 (Inr (update_sync_offset_leap X inp c1 offset ts)))"

text \<open>
  The time stamp at which the leap second is looked up (lines 476 to 490): the realtime
  clock read when the slave is another clock, \<open>None\<close> when that read fails, and the
  target time when the realtime clock is the slave and will be stepped.
\<close>

definition leap_time ::
  "inputs \<Rightarrow> ('s, 'd) clock \<Rightarrow> int64_t \<Rightarrow> uint64_t \<Rightarrow> uint64_t option" where
  "leap_time inp c1 offset ts =
     (case (if clkid c1 \<noteq> CLOCK_REALTIME
            then (case realtime inp of
                    None \<Rightarrow> None
                  | Some tp \<Rightarrow> Some (tv_sec tp * NS_PER_SEC + tv_nsec tp))
            else Some ts) of
        None \<Rightarrow> None
      | Some ts1 \<Rightarrow>
          Some (if clkid c1 = CLOCK_REALTIME \<and> servo_state c1 = SERVO_UNLOCKED
                then ts1 - (offset + scast (sync_offset c1) * NS_PER_SEC *
                                     scast (sync_offset_direction c1))
                else ts1))"

text \<open>
  For stating what \<open>update_sync_offset\<close> leaves alone and when it runs a round:
  \<open>leap_frame c c'\<close> says that \<open>c'\<close> differs from \<open>c\<close> at most in the fields of the
  management client and of the leap second; \<open>round_due c ts\<close> is the negation of the
  test of line 463 on unsigned words; \<open>round_complete inp c\<close> says that the round run on
  \<open>c\<close> returns a positive value.
\<close>

definition leap_frame :: "('s, 'd) clock \<Rightarrow> ('s, 'd) clock \<Rightarrow> bool" where
  "leap_frame c c' =
     (clkid c' = clkid c \<and> servo c' = servo c \<and> servo_state c' = servo_state c \<and>
      source_label c' = source_label c \<and> offset_stats c' = offset_stats c \<and>
      freq_stats c' = freq_stats c \<and> delay_stats c' = delay_stats c \<and>
      stats_max_count c' = stats_max_count c \<and>
      sync_offset_direction c' = sync_offset_direction c \<and>
      kernel_leap c' = kernel_leap c \<and> pmc c' = pmc c)"

definition round_due :: "('s, 'd) clock \<Rightarrow> uint64_t \<Rightarrow> bool" where
  "round_due c ts = (ts \<le> pmc_last_update c \<or> PMC_UPDATE_INTERVAL \<le> ts - pmc_last_update c)"

definition round_complete :: "inputs \<Rightarrow> ('s, 'd) clock \<Rightarrow> bool" where
  "round_complete inp c =
     (case run_pmc c 0 0 1 (pmc_script inp) of
        Inl e \<Rightarrow> False
      | Inr ((r, c'), tr) \<Rightarrow> 0 <s r)"

subsection \<open>\<open>update_clock\<close>\<close>

text \<open>The \<^verbatim>\<open>switch\<close> on the servo state, with the fall through from \<^verbatim>\<open>SERVO_JUMP\<close>.\<close>

definition clock_dispatch ::
  "clockid_t \<Rightarrow> servo_state \<Rightarrow> int64_t \<Rightarrow> 'd::uminus \<Rightarrow> 'd action list" where
  "clock_dispatch cid state offset ppb =
     (case state of
        SERVO_UNLOCKED \<Rightarrow> []
      | SERVO_JUMP \<Rightarrow> [Clockadj_step cid (- offset), Clockadj_set_freq cid (- ppb)]
      | SERVO_LOCKED \<Rightarrow> [Clockadj_set_freq cid (- ppb)])"

definition update_clock ::
  "('s, 'd::uminus) extern \<Rightarrow> inputs \<Rightarrow> ('s, 'd) clock \<Rightarrow> int64_t \<Rightarrow> uint64_t \<Rightarrow> int64_t \<Rightarrow>
   fault + (('s, 'd) clock \<times> 'd action list)" where
  "update_clock X inp c offset ts delay =
     bind_f (update_sync_offset X inp c offset ts) (\<lambda>((r, c1), tr1).
       if r \<noteq> 0 then Inr (c1, tr1)
       else
         (let offset1 = (if sync_offset_direction c1 \<noteq> 0
                         then offset + scast (sync_offset c1) * NS_PER_SEC *
                                       scast (sync_offset_direction c1)
                         else offset)
          in case servo c1 of
               None \<Rightarrow> Inl Null_deref
             | Some sv \<Rightarrow>
                 (case servo_sample X sv offset1 ts of
                    (ppb, state, sv') \<Rightarrow>
                      (let c2 = c1\<lparr>servo := Some sv', servo_state := state\<rparr>;
                           tr2 = tr1 @ [Servo_sample offset1 ts] @
                                 clock_dispatch (clkid c2) state offset1 ppb
                       in if offset_stats c2 \<noteq> None
                          then emit tr2 (update_clock_stats X c2 offset1 ppb delay)
                          else Inr (c2, tr2 @
                                 [Pr_info (if 0 \<le>s delay
                                    then ''%s offset %9lld s%d freq %+7.0f delay %6lld''
                                    else ''%s offset %9lld s%d freq %+7.0f'')])))))"

text \<open>
  For stating what \<open>update_clock\<close> does: \<open>servo_or_adjust\<close> holds of the calls of the
  servo and of \<^verbatim>\<open>clockadj\<close>; \<open>corrected_offset c offset\<close> is the offset after lines 178
  to 180.
\<close>

definition servo_or_adjust :: "'d action \<Rightarrow> bool" where
  "servo_or_adjust a =
     (case a of Servo_sample offset ts \<Rightarrow> True | Clockadj_step cid offset \<Rightarrow> True
      | Clockadj_set_freq cid ppb \<Rightarrow> True | Clockadj_set_leap cid v \<Rightarrow> True | _ \<Rightarrow> False)"

definition corrected_offset :: "('s, 'd) clock \<Rightarrow> int64_t \<Rightarrow> int64_t" where
  "corrected_offset c offset =
     (if sync_offset_direction c \<noteq> 0
      then offset + scast (sync_offset c) * NS_PER_SEC * scast (sync_offset_direction c)
      else offset)"

subsection \<open>The sampling loops\<close>

text \<open>
  Each \<^verbatim>\<open>while (1)\<close> loop runs on a list of inputs, one per iteration. When the list is used
  up the loop has not returned: the result is \<open>Running\<close>, with the clock as it stands.
  \<open>Returned r\<close> is \<^verbatim>\<open>return r\<close>. The body of each loop is a function of its own, on the
  clock and on the local variables that outlive an iteration.
\<close>

datatype loop_end = Running | Returned cint

definition do_pps_body ::
  "('s, 'd::uminus) extern \<Rightarrow> ('s, 'd) clock \<Rightarrow> clockid_t \<Rightarrow> int \<Rightarrow>
   int64_t \<times> uint64_t \<times> int64_t \<Rightarrow> inputs \<Rightarrow>
   fault + ((loop_ctl \<times> ('s, 'd) clock \<times> int64_t \<times> uint64_t \<times> int64_t) \<times> 'd action list)" where
  "do_pps_body X c src n_readings phc inp =
     (case read_pps (pps_fetch inp) (0, 0) of
        ((r, pps_offset, pps_ts), tr) \<Rightarrow>
          if r = 0 then Inr ((Continue, c, phc), tr)
          else if src \<noteq> CLOCK_INVALID then
            (case read_phc src (clkid c) n_readings (phc_reads inp) phc of
               ((r', phc_offset, phc_ts, phc_delay), tr') \<Rightarrow>
                 if r' = 0 then Inr ((Return (- 1), c, phc_offset, phc_ts, phc_delay), tr @ tr')
                 else
                   (let phc_ts1 = phc_ts - phc_offset
                    in if PHC_PPS_OFFSET_LIMIT < phc_ts1 mod NS_PER_SEC
                       then Inr ((Continue, c, phc_offset, phc_ts1, phc_delay),
                                 tr @ tr' @ [Pr_warning ''PPS is not in sync with PHC (0.%09lld)''])
                       else
                         (let phc_ts2 = phc_ts1 div NS_PER_SEC * NS_PER_SEC
                          in bind_f (update_clock X inp c (pps_ts - phc_ts2) pps_ts (- 1))
                               (\<lambda>(c1, tr1). Inr ((Continue, c1, phc_offset, phc_ts2, phc_delay),
                                                  tr @ tr' @ tr1)))))
          else bind_f (update_clock X inp c pps_offset pps_ts (- 1))
                 (\<lambda>(c1, tr1). Inr ((Continue, c1, phc), tr @ tr1)))"

fun do_pps_while ::
  "('s, 'd::uminus) extern \<Rightarrow> ('s, 'd) clock \<Rightarrow> clockid_t \<Rightarrow> int \<Rightarrow>
   int64_t \<times> uint64_t \<times> int64_t \<Rightarrow> inputs list \<Rightarrow>
   fault + ((loop_end \<times> ('s, 'd) clock) \<times> 'd action list)" where
  "do_pps_while X c src n_readings phc [] = Inr ((Running, c), [])"
| "do_pps_while X c src n_readings phc (inp # rest) =
     (case do_pps_body X c src n_readings phc inp of
        Inl e \<Rightarrow> Inl e
      | Inr ((Continue, c1, phc1), tr) \<Rightarrow> emit tr (do_pps_while X c1 src n_readings phc1 rest)
      | Inr ((Return r, c1, phc1), tr) \<Rightarrow> Inr ((Returned r, c1), tr))"

text \<open>\<open>phc\<close> is what the locals \<^verbatim>\<open>phc_offset\<close>, \<^verbatim>\<open>phc_ts\<close> and \<^verbatim>\<open>phc_delay\<close> hold
  when the loop starts (they are not initialised).\<close>

definition do_pps_loop ::
  "('s, 'd::uminus) extern \<Rightarrow> ('s, 'd) clock \<Rightarrow> cint \<Rightarrow> clockid_t \<Rightarrow> int \<Rightarrow>
   int64_t \<times> uint64_t \<times> int64_t \<Rightarrow> inputs list \<Rightarrow>
   fault + ((loop_end \<times> ('s, 'd) clock) \<times> 'd action list)" where
  "do_pps_loop X c fd src n_readings phc ins =
     (let c1 = c\<lparr>source_label := ''pps''\<rparr>;
          c2 = (if src = CLOCK_INVALID then c1\<lparr>sync_offset_direction := 0\<rparr> else c1)
      in do_pps_while X c2 src n_readings phc ins)"

text \<open>\<^verbatim>\<open>usleep(1000000 / rate)\<close>: the division traps when \<open>rate\<close> is 0.\<close>

definition usleep_rate :: "cint \<Rightarrow> fault + (unit \<times> 'd action list)" where
  "usleep_rate rate =
     (if rate = 0 then Inl Div_by_zero
      else Inr ((), [Usleep (word_of_int (1000000 sdiv sint rate))]))"

definition do_sysoff_body ::
  "('s, 'd::uminus) extern \<Rightarrow> ('s, 'd) clock \<Rightarrow> cint \<Rightarrow> inputs \<Rightarrow>
   fault + ((loop_ctl \<times> ('s, 'd) clock) \<times> 'd action list)" where
  "do_sysoff_body X c rate inp =
     bind_f (usleep_rate rate) (\<lambda>(u, tr).
       case sysoff_measure inp of
         None \<Rightarrow> Inr ((Return (- 1), c), tr)
       | Some (offset, ts, delay) \<Rightarrow>
           bind_f (update_clock X inp c offset ts delay)
             (\<lambda>(c1, tr1). Inr ((Continue, c1), tr @ tr1)))"

fun do_sysoff_while ::
  "('s, 'd::uminus) extern \<Rightarrow> ('s, 'd) clock \<Rightarrow> cint \<Rightarrow> inputs list \<Rightarrow>
   fault + ((loop_end \<times> ('s, 'd) clock) \<times> 'd action list)" where
  "do_sysoff_while X c rate [] = Inr ((Running, c), [])"
| "do_sysoff_while X c rate (inp # rest) =
     (case do_sysoff_body X c rate inp of
        Inl e \<Rightarrow> Inl e
      | Inr ((Continue, c1), tr) \<Rightarrow> emit tr (do_sysoff_while X c1 rate rest)
      | Inr ((Return r, c1), tr) \<Rightarrow> Inr ((Returned r, c1), tr))"

definition do_sysoff_loop ::
  "('s, 'd::uminus) extern \<Rightarrow> ('s, 'd) clock \<Rightarrow> clockid_t \<Rightarrow> cint \<Rightarrow> int \<Rightarrow> inputs list \<Rightarrow>
   fault + ((loop_end \<times> ('s, 'd) clock) \<times> 'd action list)" where
  "do_sysoff_loop X c src rate n_readings ins =
     do_sysoff_while X (c\<lparr>source_label := ''sys''\<rparr>) rate ins"

definition do_phc_body ::
  "('s, 'd::uminus) extern \<Rightarrow> ('s, 'd) clock \<Rightarrow> clockid_t \<Rightarrow> cint \<Rightarrow> int \<Rightarrow>
   int64_t \<times> uint64_t \<times> int64_t \<Rightarrow> inputs \<Rightarrow>
   fault + ((loop_ctl \<times> ('s, 'd) clock \<times> int64_t \<times> uint64_t \<times> int64_t) \<times> 'd action list)" where
  "do_phc_body X c src rate n_readings outs inp =
     bind_f (usleep_rate rate) (\<lambda>(u, tr).
       case read_phc src (clkid c) n_readings (phc_reads inp) outs of
         ((r, offset, ts, delay), tr') \<Rightarrow>
           if r = 0 then Inr ((Continue, c, offset, ts, delay), tr @ tr')
           else bind_f (update_clock X inp c offset ts delay)
                  (\<lambda>(c1, tr1). Inr ((Continue, c1, offset, ts, delay), tr @ tr' @ tr1)))"

fun do_phc_while ::
  "('s, 'd::uminus) extern \<Rightarrow> ('s, 'd) clock \<Rightarrow> clockid_t \<Rightarrow> cint \<Rightarrow> int \<Rightarrow>
   int64_t \<times> uint64_t \<times> int64_t \<Rightarrow> inputs list \<Rightarrow>
   fault + ((loop_end \<times> ('s, 'd) clock) \<times> 'd action list)" where
  "do_phc_while X c src rate n_readings outs [] = Inr ((Running, c), [])"
| "do_phc_while X c src rate n_readings outs (inp # rest) =
     (case do_phc_body X c src rate n_readings outs inp of
        Inl e \<Rightarrow> Inl e
      | Inr ((Continue, c1, outs1), tr) \<Rightarrow>
          emit tr (do_phc_while X c1 src rate n_readings outs1 rest)
      | Inr ((Return r, c1, outs1), tr) \<Rightarrow> Inr ((Returned r, c1), tr))"

text \<open>\<open>outs\<close> is what the locals \<^verbatim>\<open>offset\<close>, \<^verbatim>\<open>ts\<close> and \<^verbatim>\<open>delay\<close> hold when the loop
  starts (they are not initialised).\<close>

definition do_phc_loop ::
  "('s, 'd::uminus) extern \<Rightarrow> ('s, 'd) clock \<Rightarrow> clockid_t \<Rightarrow> cint \<Rightarrow> int \<Rightarrow>
   int64_t \<times> uint64_t \<times> int64_t \<Rightarrow> inputs list \<Rightarrow>
   fault + ((loop_end \<times> ('s, 'd) clock) \<times> 'd action list)" where
  "do_phc_loop X c src rate n_readings outs ins =
     do_phc_while X (c\<lparr>source_label := ''phc''\<rparr>) src rate n_readings outs ins"

section \<open>\<open>main\<close>\<close>

text \<open>
  What \<open>main\<close> calls for a result outside \<^verbatim>\<open>phc2sys.c\<close>: the C library (\<^verbatim>\<open>atoi\<close>,
  \<^verbatim>\<open>atof\<close>, \<^verbatim>\<open>open\<close> by its flags), \<^verbatim>\<open>sk_get_ts_info\<close> (return value, \<^verbatim>\<open>valid\<close>,
  \<^verbatim>\<open>phc_index\<close>), the three calls of \<^verbatim>\<open>stats_create\<close> and the call of \<^verbatim>\<open>pmc_create\<close>
  (whether each gives a non-null pointer), \<^verbatim>\<open>clockadj_get_freq\<close>, \<^verbatim>\<open>servo_create\<close> (with the
  globals \<^verbatim>\<open>configured_pi_kp\<close>, \<^verbatim>\<open>configured_pi_ki\<close>, \<^verbatim>\<open>configured_pi_offset\<close> it reads, then
  \<^verbatim>\<open>fadj\<close> and \<^verbatim>\<open>max_ppb\<close>), and whether \<^verbatim>\<open>sysoff_probe\<close> returns \<^verbatim>\<open>SYSOFF_SUPPORTED\<close>.
  \<open>KP\<close>, \<open>KI\<close> and \<open>pi_offset_init\<close> are the doubles 0.7, 0.3 and the initial value of
  \<^verbatim>\<open>configured_pi_offset\<close>.
\<close>

record ('s, 'd) main_extern =
  atoi :: "string \<Rightarrow> cint"
  atof :: "string \<Rightarrow> 'd"
  open_RDWR :: "string \<Rightarrow> cint"
  open_RDONLY :: "string \<Rightarrow> cint"
  sk_get_ts_info :: "string \<Rightarrow> cint \<times> cint \<times> cint"
  stats_create :: "bool \<times> bool \<times> bool"
  pmc_create :: bool
  clockadj_get_freq :: "clockid_t \<Rightarrow> 'd"
  servo_create :: "'d \<Rightarrow> 'd \<Rightarrow> 'd \<Rightarrow> 'd \<Rightarrow> cint \<Rightarrow> 's option"
  sysoff_probe_supported :: "cint \<Rightarrow> cint \<Rightarrow> bool"
  KP :: 'd
  KI :: 'd
  pi_offset_init :: 'd

text \<open>The local variables of \<open>main\<close> (prefixed \<open>m_\<close>) and the three globals of the servo.\<close>

record ('s, 'd) main_state =
  m_dst_clock :: "('s, 'd) clock"
  m_src :: clockid_t
  m_ethdev :: "string option"
  m_phc_readings :: cint
  m_phc_rate :: cint
  m_pps_fd :: cint
  m_wait_sync :: cint
  m_forced_sync_offset :: cint
  m_print_level :: cint
  m_use_syslog :: cint
  m_verbose :: cint
  configured_pi_kp :: 'd
  configured_pi_ki :: 'd
  configured_pi_offset :: 'd

definition tolower :: "char \<Rightarrow> char" where
  "tolower ch =
     (if 65 \<le> (of_char ch :: nat) \<and> (of_char ch :: nat) \<le> 90
      then char_of ((of_char ch :: nat) + 32) else ch)"

definition strcasecmp_eq :: "string \<Rightarrow> string \<Rightarrow> bool" where
  "strcasecmp_eq a b = (map tolower a = map tolower b)"

definition clock_open :: "('s, 'd) main_extern \<Rightarrow> string \<Rightarrow> clockid_t \<times> 'd action list" where
  "clock_open E device =
     (if (case device of [] \<Rightarrow> True | ch # rest \<Rightarrow> ch \<noteq> CHR ''/'') then
        (if strcasecmp_eq device ''CLOCK_REALTIME'' then (CLOCK_REALTIME, [])
         else (CLOCK_INVALID, [Fprintf_stderr ''unknown clock %s'']))
      else
        (let fd = open_RDWR E device
         in if fd <s 0 then (CLOCK_INVALID, [Fprintf_stderr ''cannot open %s: %m''])
            else (FD_TO_CLOCKID fd, [])))"

text \<open>One pass of the \<^verbatim>\<open>getopt\<close> loop: the \<^verbatim>\<open>switch\<close> on the option character \<open>c\<close> with
  its argument. \<open>Inl r\<close> is \<^verbatim>\<open>return r\<close>.\<close>

definition main_option ::
  "('s, 'd) main_extern \<Rightarrow> ('s, 'd) main_state \<Rightarrow> char \<Rightarrow> string \<Rightarrow>
   (cint + ('s, 'd) main_state) \<times> 'd action list" where
  "main_option E st c optarg =
     (if c = CHR ''c'' then
        (case clock_open E optarg of
           (cid, tr) \<Rightarrow> (Inr (st\<lparr>m_dst_clock := (m_dst_clock st)\<lparr>clkid := cid\<rparr>\<rparr>), tr))
      else if c = CHR ''d'' then
        (let fd = open_RDONLY E optarg
         in if fd <s 0 then (Inl (- 1), [Fprintf_stderr ''cannot open '%s': %m''])
            else (Inr (st\<lparr>m_pps_fd := fd\<rparr>), []))
      else if c = CHR ''s'' then
        (case clock_open E optarg of (cid, tr) \<Rightarrow> (Inr (st\<lparr>m_src := cid\<rparr>), tr))
      else if c = CHR ''P'' then (Inr (st\<lparr>configured_pi_kp := atof E optarg\<rparr>), [])
      else if c = CHR ''I'' then (Inr (st\<lparr>configured_pi_ki := atof E optarg\<rparr>), [])
      else if c = CHR ''S'' then (Inr (st\<lparr>configured_pi_offset := atof E optarg\<rparr>), [])
      else if c = CHR ''R'' then (Inr (st\<lparr>m_phc_rate := atoi E optarg\<rparr>), [])
      else if c = CHR ''N'' then (Inr (st\<lparr>m_phc_readings := atoi E optarg\<rparr>), [])
      else if c = CHR ''O'' then
        (Inr (st\<lparr>m_dst_clock := (m_dst_clock st)\<lparr>sync_offset := atoi E optarg,
                                                  sync_offset_direction := - 1\<rparr>,
                 m_forced_sync_offset := 1\<rparr>), [])
      else if c = CHR ''i'' then (Inr (st\<lparr>m_ethdev := Some optarg\<rparr>), [])
      else if c = CHR ''u'' then
        (Inr (st\<lparr>m_dst_clock := (m_dst_clock st)\<lparr>stats_max_count := atoi E optarg\<rparr>\<rparr>), [])
      else if c = CHR ''w'' then (Inr (st\<lparr>m_wait_sync := 1\<rparr>), [])
      else if c = CHR ''x'' then
        (Inr (st\<lparr>m_dst_clock := (m_dst_clock st)\<lparr>kernel_leap := 0\<rparr>\<rparr>), [])
      else if c = CHR ''l'' then (Inr (st\<lparr>m_print_level := atoi E optarg\<rparr>), [])
      else if c = CHR ''m'' then (Inr (st\<lparr>m_verbose := 1\<rparr>), [])
      else if c = CHR ''q'' then (Inr (st\<lparr>m_use_syslog := 0\<rparr>), [])
      else if c = CHR ''v'' then (Inl 0, [Version_show])
      else if c = CHR ''h'' then (Inl 0, [Usage])
      else (Inl (- 1), [Usage]))"

text \<open>The \<^verbatim>\<open>getopt\<close> loop, on the options as \<^verbatim>\<open>getopt\<close> returns them one by one.\<close>

fun main_getopt ::
  "('s, 'd) main_extern \<Rightarrow> ('s, 'd) main_state \<Rightarrow> (char \<times> string) list \<Rightarrow>
   (cint + ('s, 'd) main_state) \<times> 'd action list" where
  "main_getopt E st [] = (Inr st, [])"
| "main_getopt E st ((c, optarg) # rest) =
     (case main_option E st c optarg of
        (Inl r, tr) \<Rightarrow> (Inl r, tr)
      | (Inr st1, tr) \<Rightarrow> (case main_getopt E st1 rest of (x, tr') \<Rightarrow> (x, tr @ tr')))"

text \<open>Decimal digits of a number, for \<^verbatim>\<open>sprintf(phc_device, "/dev/ptp%d", ...)\<close>.\<close>

fun decimal :: "nat \<Rightarrow> string" where
  "decimal n =
     (if n < 10 then [char_of (48 + n)] else decimal (n div 10) @ [char_of (48 + n mod 10)])"

declare decimal.simps [simp del]

text \<open>
  The wait for \<^verbatim>\<open>ptp4l\<close>: the \<^verbatim>\<open>while (1)\<close> around \<open>run_pmc\<close>, on one script per call.
  \<open>Inl\<close> of the result is the value \<open>main\<close> returns from inside the loop, or \<open>Running\<close>
  when the scripts are used up; \<open>Inr\<close> is the clock at \<^verbatim>\<open>break\<close>.
\<close>

fun main_wait ::
  "('s, 'd) clock \<Rightarrow> cint \<Rightarrow> cint \<Rightarrow> pmc_step list list \<Rightarrow>
   fault + ((loop_end + unit) \<times> ('s, 'd) clock) \<times> 'd action list" where
  "main_wait c wait_sync forced [] = Inr ((Inl Running, c), [])"
| "main_wait c wait_sync forced (script # rest) =
     (case run_pmc c 1000 wait_sync (if forced = 0 then 1 else 0) script of
        Inl e \<Rightarrow> Inl e
      | Inr ((r, c1), tr) \<Rightarrow>
          if r <s 0 then Inr ((Inl (Returned (- 1)), c1), tr)
          else if 0 <s r then Inr ((Inr (), c1), tr)
          else emit (tr @ [Pr_notice ''Waiting for ptp4l...''])
                 (main_wait c1 wait_sync forced rest))"

text \<open>
  \<open>main\<close> after the options, in the order of the source: the discovery of the PHC
  device of an interface (lines 626 to 639), the check of the configuration (lines 640 to
  645), the creation of the statistics (lines 647 to 657), the wait for \<^verbatim>\<open>ptp4l\<close> with the
  choice of the direction (lines 664 to 692), and the first reading of the frequency with
  the creation of the servo (lines 694 to 700). The calls of \<^verbatim>\<open>print_set_progname\<close>,
  \<^verbatim>\<open>print_set_verbose\<close>, \<^verbatim>\<open>print_set_syslog\<close> and \<^verbatim>\<open>print_set_level\<close> configure the
  log only and are left out. In each result \<open>Inl r\<close> is a return of \<open>main\<close> before the
  loop (\<open>Running\<close>: still waiting for \<^verbatim>\<open>ptp4l\<close>).
\<close>

definition main_discover ::
  "('s, 'd) main_extern \<Rightarrow> ('s, 'd) main_state \<Rightarrow>
   fault + ((loop_end + ('s, 'd) main_state) \<times> 'd action list)" where
  "main_discover E st =
     (case (if m_src st = CLOCK_INVALID then m_ethdev st else None) of
        None \<Rightarrow> Inr (Inr st, [])
      | Some ethdev \<Rightarrow>
          (case sk_get_ts_info E ethdev of
             (r, valid, phc_index) \<Rightarrow>
               if r \<noteq> 0 \<or> valid = 0
               then Inr (Inl (Returned (- 1)), [Fprintf_stderr ''can't autodiscover PHC device''])
               else if phc_index <s 0
               then Inr (Inl (Returned (- 1)), [Fprintf_stderr ''interface %s doesn't have a PHC''])
               else if 7 < length (decimal (unat phc_index)) then Inl Out_of_bounds
               else (case clock_open E (''/dev/ptp'' @ decimal (unat phc_index)) of
                       (cid, tr) \<Rightarrow> Inr (Inr (st\<lparr>m_src := cid\<rparr>), tr))))"

definition main_invalid :: "('s, 'd) main_state \<Rightarrow> bool" where
  "main_invalid st =
     (\<not> (0 \<le>s m_pps_fd st \<or> m_src st \<noteq> CLOCK_INVALID) \<or>
      clkid (m_dst_clock st) = CLOCK_INVALID \<or>
      (0 \<le>s m_pps_fd st \<and> clkid (m_dst_clock st) \<noteq> CLOCK_REALTIME))"

definition main_stats :: "('s, 'd) main_extern \<Rightarrow> ('s, 'd) clock \<Rightarrow> ('s, 'd) clock option" where
  "main_stats E c =
     (if 0 < stats_max_count c
      then (case stats_create E of
              (True, True, True) \<Rightarrow>
                Some (c\<lparr>offset_stats := Some [], freq_stats := Some [], delay_stats := Some []\<rparr>)
            | _ \<Rightarrow> None)
      else Some c)"

definition main_sync ::
  "('s, 'd) main_extern \<Rightarrow> ('s, 'd) main_state \<Rightarrow> ('s, 'd) clock \<Rightarrow> pmc_step list list \<Rightarrow>
   fault + ((loop_end + unit) \<times> ('s, 'd) clock) \<times> 'd action list" where
  "main_sync E st c scripts =
     (if m_wait_sync st \<noteq> 0 then
        (if \<not> pmc_create E
         then Inr ((Inl (Returned (- 1)), c), [Pr_err ''failed to create pmc''])
         else
           bind_f (main_wait (c\<lparr>pmc := True\<rparr>) (m_wait_sync st) (m_forced_sync_offset st) scripts)
             (\<lambda>((w, c3), tr1). case w of
                Inl r \<Rightarrow> Inr ((Inl r, c3), tr1)
              | Inr u \<Rightarrow>
                  (let c4 =
                         (if m_forced_sync_offset st = 0 then
                            (if m_src st \<noteq> CLOCK_REALTIME \<and> clkid c3 = CLOCK_REALTIME
                             then c3\<lparr>sync_offset_direction := 1\<rparr>
                             else if m_src st = CLOCK_REALTIME \<and> clkid c3 \<noteq> CLOCK_REALTIME
                             then c3\<lparr>sync_offset_direction := - 1\<rparr>
                             else c3\<lparr>sync_offset_direction := 0\<rparr>)
                          else c3)
                   in if m_forced_sync_offset st \<noteq> 0 \<or> sync_offset_direction c4 = 0
                      then Inr ((Inr (), c4\<lparr>pmc := False\<rparr>), tr1 @ [Pmc_destroy])
                      else Inr ((Inr (), c4), tr1))))
      else Inr ((Inr (), c), []))"

definition main_servo ::
  "('s, 'd::uminus) main_extern \<Rightarrow> ('s, 'd) main_state \<Rightarrow> ('s, 'd) clock \<Rightarrow>
   ('s, 'd) clock \<times> 'd action list" where
  "main_servo E st c =
     (let ppb = clockadj_get_freq E (clkid c)
      in (c\<lparr>servo := servo_create E (configured_pi_kp st) (configured_pi_ki st)
                         (configured_pi_offset st) (- ppb) max_ppb\<rparr>,
          [Clockadj_set_freq (clkid c) ppb, Clockadj_set_leap (clkid c) 0]))"

definition main_startup ::
  "('s, 'd::uminus) main_extern \<Rightarrow> ('s, 'd) main_state \<Rightarrow> pmc_step list list \<Rightarrow>
   fault + ((loop_end + ('s, 'd) main_state) \<times> 'd action list)" where
  "main_startup E st scripts =
     bind_f (main_discover E st) (\<lambda>(x, tr0). case x of
        Inl r \<Rightarrow> Inr (Inl r, tr0)
      | Inr st1 \<Rightarrow>
          if main_invalid st1 then Inr (Inl (Returned (- 1)), tr0 @ [Usage])
          else
            (case main_stats E (m_dst_clock st1) of
               None \<Rightarrow> Inr (Inl (Returned (- 1)), tr0 @ [Fprintf_stderr ''failed to create stats''])
             | Some c2 \<Rightarrow>
                 bind_f (main_sync E st1 c2 scripts) (\<lambda>((w, c5), tr2). case w of
                    Inl r \<Rightarrow> Inr (Inl r, tr0 @ tr2)
                  | Inr u \<Rightarrow>
                      (case main_servo E st1 c5 of
                         (c6, tr3) \<Rightarrow> Inr (Inr (st1\<lparr>m_dst_clock := c6\<rparr>), tr0 @ tr2 @ tr3)))))"

text \<open>The choice of the sampling loop at the end of \<open>main\<close>.\<close>

definition main_loop ::
  "('s, 'd::uminus) main_extern \<Rightarrow> ('s, 'd) extern \<Rightarrow> ('s, 'd) main_state \<Rightarrow>
   int64_t \<times> uint64_t \<times> int64_t \<Rightarrow> inputs list \<Rightarrow>
   fault + ((loop_end \<times> ('s, 'd) clock) \<times> 'd action list)" where
  "main_loop E X st outs ins =
     (if 0 \<le>s m_pps_fd st
      then do_pps_loop X (m_dst_clock st) (m_pps_fd st) (m_src st) (sint (m_phc_readings st)) outs ins
      else if clkid (m_dst_clock st) = CLOCK_REALTIME \<and>
              sysoff_probe_supported E (CLOCKID_TO_FD (m_src st)) (m_phc_readings st)
      then do_sysoff_loop X (m_dst_clock st) (m_src st) (m_phc_rate st)
             (sint (m_phc_readings st)) ins
      else do_phc_loop X (m_dst_clock st) (m_src st) (m_phc_rate st)
             (sint (m_phc_readings st)) outs ins)"

definition main_init :: "('s, 'd) main_extern \<Rightarrow> ('s, 'd) main_state" where
  "main_init E =
     \<lparr>m_dst_clock =
        \<lparr>clkid = CLOCK_REALTIME, servo = None, servo_state = SERVO_UNLOCKED,
         source_label = [], offset_stats = None, freq_stats = None, delay_stats = None,
         stats_max_count = 0, sync_offset = 0, sync_offset_direction = 0, leap = 0,
         leap_set = 0, kernel_leap = 1, pmc = False, pmc_ds_idx = 0, pmc_ds_requested = 0,
         pmc_last_update = 0\<rparr>,
      m_src = CLOCK_INVALID, m_ethdev = None, m_phc_readings = 5, m_phc_rate = 1,
      m_pps_fd = - 1, m_wait_sync = 0, m_forced_sync_offset = 0, m_print_level = 6,
      m_use_syslog = 1, m_verbose = 0, configured_pi_kp = KP E, configured_pi_ki = KI E,
      configured_pi_offset = pi_offset_init E\<rparr>"

text \<open>
  \<open>main\<close>: \<open>opts\<close> are the options as \<^verbatim>\<open>getopt\<close> returns them, \<open>scripts\<close> what the
  management rounds of the wait read, \<open>outs\<close> what the uninitialised locals of the loop
  hold, \<open>ins\<close> the inputs of the loop's iterations. The result is the return value, or
  \<open>Running\<close>, with the slave clock structure and the trace.
\<close>

definition main ::
  "('s, 'd::uminus) main_extern \<Rightarrow> ('s, 'd) extern \<Rightarrow> (char \<times> string) list \<Rightarrow>
   pmc_step list list \<Rightarrow> int64_t \<times> uint64_t \<times> int64_t \<Rightarrow> inputs list \<Rightarrow>
   fault + ((loop_end \<times> ('s, 'd) clock) \<times> 'd action list)" where
  "main E X opts scripts outs ins =
     (case main_getopt E (main_init E) opts of
        (Inl r, tr) \<Rightarrow> Inr ((Returned r, m_dst_clock (main_init E)), tr)
      | (Inr st, tr) \<Rightarrow>
          (case main_startup E st scripts of
             Inl e \<Rightarrow> Inl e
           | Inr (Inl r, tr1) \<Rightarrow> Inr ((r, m_dst_clock st), tr @ tr1)
           | Inr (Inr st1, tr1) \<Rightarrow> emit (tr @ tr1) (main_loop E X st1 outs ins)))"

text \<open>
  For stating what the option \<^verbatim>\<open>-O\<close> does: \<open>forced_offset_arg opts\<close> is the argument of
  the last \<^verbatim>\<open>-O\<close> among the options; \<open>unsynchronised c\<close> says that the clock has no
  management client and no leap second pending or applied; \<open>settled c d v\<close> says that
  moreover its \<open>sync_offset_direction\<close> is \<open>d\<close> and its \<open>sync_offset\<close> is \<open>v\<close>.
\<close>

fun forced_offset_arg :: "(char \<times> string) list \<Rightarrow> string option" where
  "forced_offset_arg [] = None"
| "forced_offset_arg ((c, optarg) # rest) =
     (case forced_offset_arg rest of
        Some a \<Rightarrow> Some a
      | None \<Rightarrow> if c = CHR ''O'' then Some optarg else None)"

definition unsynchronised :: "('s, 'd) clock \<Rightarrow> bool" where
  "unsynchronised c = (\<not> pmc c \<and> leap c = 0 \<and> leap_set c = 0)"

definition settled :: "('s, 'd) clock \<Rightarrow> cint \<Rightarrow> cint \<Rightarrow> bool" where
  "settled c d v =
     (sync_offset_direction c = d \<and> sync_offset c = v \<and> \<not> pmc c \<and> leap c = 0 \<and> leap_set c = 0)"

section \<open>Example inputs\<close>

text \<open>
  Concrete inputs at which the theorems below are applied: the servo, the leap second
  helpers, the clock structure, the steps of a management round, and the externals of
  \<open>main\<close>. The example servo counts its samples: it is unlocked at the first, jumps at
  the second and is locked from the third on, and always asks for 100 ppb. The example
  \<open>leap_second_status\<close> reports the pending leap as the status to apply and leaves
  the leap and the UTC offset as they are (the helper's answer on the day of a leap,
  before midnight); the example \<open>is_utc_ambiguous\<close> holds in the second before 1970-01-02.
\<close>

definition example_extern :: "(nat, int) extern" where
  "example_extern =
     \<lparr>servo_sample = (\<lambda>n offset ts.
        (100, if n = 0 then SERVO_UNLOCKED else if n = 1 then SERVO_JUMP else SERVO_LOCKED, n + 1)),
      is_utc_ambiguous = (\<lambda>ts. if 86399000000000 \<le> ts \<and> ts < 86400000000000 then 1 else 0),
      leap_second_status = (\<lambda>ts leap_set' leap' utc_offset. (leap', leap', utc_offset)),
      double_of_int64 = sint\<rparr>"

definition example_clock :: "(nat, int) clock" where
  "example_clock =
     \<lparr>clkid = CLOCK_REALTIME, servo = Some 0, servo_state = SERVO_UNLOCKED,
      source_label = ''phc'', offset_stats = None, freq_stats = None, delay_stats = None,
      stats_max_count = 0, sync_offset = 0, sync_offset_direction = 0, leap = 0,
      leap_set = 0, kernel_leap = 1, pmc = False, pmc_ds_idx = 0, pmc_ds_requested = 0,
      pmc_last_update = 0\<rparr>"

definition example_message :: "ds_id \<Rightarrow> port_state \<Rightarrow> ptp_message" where
  "example_message i ps =
     \<lparr>msg_type = MANAGEMENT, management_action = RESPONSE, tlv_count = 1,
      tlv_type = TLV_MANAGEMENT, mgt_id = i, portState = ps,
      currentUtcOffset = 37, flags_LEAP_61 = False, flags_LEAP_59 = False\<rparr>"

definition example_response :: "ds_id \<Rightarrow> port_state \<Rightarrow> pmc_step" where
  "example_response i ps =
     \<lparr>poll_cnt = 1, revents_POLLIN = True, revents_POLLPRI = False, revents_POLLOUT = False,
      recv_msg = Some (example_message i ps)\<rparr>"

definition example_timeout :: pmc_step where
  "example_timeout =
     \<lparr>poll_cnt = 0, revents_POLLIN = False, revents_POLLPRI = False, revents_POLLOUT = False,
      recv_msg = None\<rparr>"

definition example_reads :: "64 word \<Rightarrow> nat \<Rightarrow> trial" where
  "example_reads nsec i =
     (Some \<lparr>tv_sec = 100, tv_nsec = 0\<rparr>, Some \<lparr>tv_sec = 137, tv_nsec = nsec\<rparr>,
      Some \<lparr>tv_sec = 100, tv_nsec = 10\<rparr>)"

definition failing_reads :: "nat \<Rightarrow> trial" where
  "failing_reads i = (Some \<lparr>tv_sec = 100, tv_nsec = 0\<rparr>, None, None)"



definition example_inputs :: inputs where
  "example_inputs =
     \<lparr>pps_fetch = Some (100, 3),
      phc_reads = example_reads 5,
      sysoff_measure = Some (- 37000000000, 100000000010, 10),
      pmc_script = [example_timeout],
      realtime = Some \<lparr>tv_sec = 43200, tv_nsec = 0\<rparr>\<rparr>"

text \<open>
  For \<open>main\<close>: an \<^verbatim>\<open>atoi\<close> on decimal digits, an environment where every device opens
  (the PHC as descriptor 3, the PPS device as descriptor 4) and the servo is created, and
  the slave clock structure after the option \<^verbatim>\<open>-O 37\<close>.
\<close>

definition example_atoi :: "string \<Rightarrow> cint" where
  "example_atoi str = foldl (\<lambda>n ch. 10 * n + of_nat (of_char ch - 48)) 0 str"

definition example_main_extern :: "(nat, int) main_extern" where
  "example_main_extern =
     \<lparr>atoi = example_atoi, atof = (\<lambda>str. 0), open_RDWR = (\<lambda>path. 3),
      open_RDONLY = (\<lambda>path. 4), sk_get_ts_info = (\<lambda>ifname. (0, 1, 0)),
      stats_create = (True, True, True), pmc_create = True,
      clockadj_get_freq = (\<lambda>cid. 0),
      servo_create = (\<lambda>kp ki offset fadj max_adj. Some 0),
      sysoff_probe_supported = (\<lambda>fd n. False), KP = 0, KI = 0, pi_offset_init = 0\<rparr>"

definition example_forced_clock :: "(nat, int) clock" where
  "example_forced_clock =
     (m_dst_clock (main_init example_main_extern))\<lparr>sync_offset := 37, sync_offset_direction := - 1\<rparr>"

section \<open>Properties of the samplers\<close>

subsection \<open>Signed readings of small words\<close>

lemma sdiv64_NS_2: "sdiv64 1000000000 2 = 500000000"
  by (simp add: sdiv64_def signed_divide_int_def)

lemma sint_small: "uint (w :: 64 word) < 2 ^ 63 \<Longrightarrow> sint w = uint w"
proof -
  assume a: "uint w < 2 ^ 63"
  have "signed_take_bit 63 (uint w) = uint w"
    using a uint_ge_0 [of w] by (intro signed_take_bit_int_eq_self) linarith+
  then show ?thesis by (simp add: sint_uint)
qed

lemma sint_mod_NS: "sint ((t :: 64 word) mod 1000000000) = uint t mod 1000000000"
proof -
  have "uint (t mod 1000000000) = uint t mod 1000000000"
    by (simp add: uint_mod)
  moreover have "uint t mod 1000000000 < 2 ^ 63"
    by (rule less_trans [of _ 1000000000]) simp_all
  ultimately show ?thesis by (simp add: sint_small)
qed

lemma sint_mod_NS_minus:
  "sint ((t :: 64 word) mod 1000000000 - 1000000000) = uint t mod 1000000000 - 1000000000"
proof -
  have a: "0 \<le> uint t mod 1000000000" "uint t mod 1000000000 < 1000000000"
    by simp_all
  have "sint (t mod 1000000000 - 1000000000) =
        signed_take_bit 63 (sint (t mod 1000000000) - sint (1000000000 :: 64 word))"
    by (simp add: sint_word_diff)
  also have "\<dots> = signed_take_bit 63 (uint t mod 1000000000 - 1000000000)"
    by (simp add: sint_mod_NS)
  also have "\<dots> = uint t mod 1000000000 - 1000000000"
    using a by (intro signed_take_bit_int_eq_self) simp_all
  finally show ?thesis .
qed

lemma minus_mod_self: "(a - a mod m) mod m = (0 :: int)"
  by (simp add: minus_mod_eq_mult_div)

lemma minus_mod_self_plus: "(a - (a mod m - m)) mod m = (0 :: int)"
proof -
  have "a - (a mod m - m) = (a - a mod m) + m" by simp
  then show ?thesis by (simp only: mod_add_self2 minus_mod_self)
qed

subsection \<open>The PPS offset\<close>

text \<open>
  Claim C3. For every successful PPS fetch, with the raw assertion time stamp \<open>ts\<close> read as
  a non-negative count of nanoseconds (\<open>uint ts\<close>) and the returned offset read as a signed
  number (\<open>sint offset\<close>): \<open>read_pps\<close> returns 1, the offset lies in the half-open interval
  from \<open>-5\<cdot>10\<^sup>8\<close> (excluded) to \<open>5\<cdot>10\<^sup>8\<close> (included), and \<open>ts - offset\<close> is a multiple
  of \<open>10\<^sup>9\<close>. This holds for every value of the seconds and nanoseconds the kernel reports.
\<close>

theorem read_pps_offset_range:
  assumes "read_pps (Some (sec, nsec)) outs = ((r, offset, ts), tr)"
  shows "r = 1 \<and> ts = sec * NS_PER_SEC + scast nsec \<and>
         - 500000000 < sint offset \<and> sint offset \<le> 500000000 \<and>
         (uint ts - sint offset) mod 1000000000 = 0"
proof -
  define t where "t = sec * 1000000000 + scast nsec"
  have r: "r = 1" and ts: "ts = t"
    and off: "offset = (if 500000000 <s t mod 1000000000 then t mod 1000000000 - 1000000000
                        else t mod 1000000000)"
    using assms
    by (auto simp add: read_pps_def Let_def NS_PER_SEC_def sdiv64_NS_2 t_def)
  have a: "0 \<le> uint t mod 1000000000" "uint t mod 1000000000 < 1000000000"
    by simp_all
  show ?thesis
  proof (cases "(500000000 :: 64 word) <s t mod 1000000000")
    case True
    then have "500000000 < uint t mod 1000000000"
      by (simp add: word_sless_alt sint_mod_NS)
    moreover have "sint offset = uint t mod 1000000000 - 1000000000"
      using True off by (simp add: sint_mod_NS_minus)
    moreover have "(uint t - (uint t mod 1000000000 - 1000000000)) mod 1000000000 = 0"
      by (rule minus_mod_self_plus)
    ultimately show ?thesis using r ts a by (simp add: t_def NS_PER_SEC_def)
  next
    case False
    then have "uint t mod 1000000000 \<le> 500000000"
      by (simp add: word_sless_alt sint_mod_NS)
    moreover have "sint offset = uint t mod 1000000000"
      using False off by (simp add: sint_mod_NS)
    moreover have "(uint t - uint t mod 1000000000) mod 1000000000 = 0"
      by (rule minus_mod_self)
    ultimately show ?thesis using r ts a by (simp add: t_def NS_PER_SEC_def)
  qed
qed

text \<open>A fetch at 12.7 s: the offset is \<open>-3\<cdot>10\<^sup>8\<close> ns.\<close>

theorem read_pps_offset_range_witness:
  "read_pps (Some (12, 700000000)) (0, 0) =
     ((1, - 300000000, 12700000000), ([] :: int action list)) \<and>
   - 500000000 < sint (- 300000000 :: 64 word) \<and>
   sint (- 300000000 :: 64 word) \<le> 500000000 \<and>
   (uint (12700000000 :: 64 word) - sint (- 300000000 :: 64 word)) mod 1000000000 = 0"
proof -
  have e: "read_pps (Some (12, 700000000)) (0, 0) =
           ((1, - 300000000, 12700000000), ([] :: int action list))"
    by (simp add: read_pps_def Let_def NS_PER_SEC_def sdiv64_NS_2)
  show ?thesis using e read_pps_offset_range [OF e] by simp
qed

subsection \<open>The quickest trial of \<open>read_phc\<close>\<close>

text \<open>
  When every read succeeds, the loop of \<open>read_phc\<close> is a fold of \<open>keep_best\<close> over the
  trials. If some trial has an interval below \<^verbatim>\<open>INT64_MAX\<close>, the result is the offset,
  time stamp and interval of the first trial among those with the smallest interval
  (see below). If no trial has, nothing is written through
  \<^verbatim>\<open>offset\<close> and \<^verbatim>\<open>ts\<close>, and \<open>read_phc\<close> still returns 1
  (\<open>read_phc_outputs_unwritten\<close>).
\<close>

lemma read_phc_loop_foldl:
  assumes "reads_ok reads xs" "i \<le> length xs"
  shows "read_phc_loop reads (int (length xs)) (int i) st = (True, foldl keep_best st (drop i xs))"
  using assms
proof (induction "length xs - i" arbitrary: i st)
  case 0
  then show ?case
    by (cases st) (simp add: read_phc_loop.simps)
next
  case (Suc k)
  then have i: "i < length xs" by simp
  obtain b off t where st: "st = (b, off, t)" by (cases st)
  obtain t1 tm t2 where x: "xs ! i = (t1, tm, t2)" by (cases "xs ! i")
  have r: "reads i = (Some t1, Some tm, Some t2)"
    using Suc.prems(1) i x by (simp add: reads_ok_def)
  have d: "drop i xs = (t1, tm, t2) # drop (Suc i) xs"
    using i x by (simp add: Cons_nth_drop_Suc [symmetric])
  have "\<And>st'. read_phc_loop reads (int (length xs)) (int (Suc i)) st' =
                 (True, foldl keep_best st' (drop (Suc i) xs))"
    using Suc.hyps(1) [of "Suc i"] Suc.hyps(2) Suc.prems(1) i by simp
  then have ih: "\<And>st'. read_phc_loop reads (int (length xs)) (int i + 1) st' =
                 (True, foldl keep_best st' (drop (Suc i) xs))"
    by (simp add: add.commute)
  show ?case
    unfolding st d
    by (subst read_phc_loop.simps)
       (simp add: i r ih Let_def keep_best_def trial_interval_def trial_offset_def trial_ts_def)
qed

lemma foldl_keep_best:
  "foldl keep_best (b, off, t) xs = (b', off', t') \<Longrightarrow>
   (b' = b \<and> off' = off \<and> t' = t \<and> (\<forall>x \<in> set xs. \<not> trial_interval x <s b)) \<or>
   (\<exists>k < length xs. b' = trial_interval (xs ! k) \<and> off' = trial_offset (xs ! k) \<and>
        t' = trial_ts (xs ! k) \<and> b' <s b \<and>
        (\<forall>j < length xs. b' \<le>s trial_interval (xs ! j)) \<and>
        (\<forall>j < k. b' <s trial_interval (xs ! j)))"
proof (induction xs arbitrary: b off t)
  case Nil
  then show ?case by simp
next
  case (Cons x xs)
  show ?case
  proof (cases "trial_interval x <s b")
    case True
    then have "keep_best (b, off, t) x = (trial_interval x, trial_offset x, trial_ts x)"
      by (simp add: keep_best_def)
    then have f: "foldl keep_best (trial_interval x, trial_offset x, trial_ts x) xs = (b', off', t')"
      using Cons.prems by simp
    from Cons.IH [OF f] show ?thesis
    proof
      assume u: "b' = trial_interval x \<and> off' = trial_offset x \<and> t' = trial_ts x \<and>
                 (\<forall>y \<in> set xs. \<not> trial_interval y <s trial_interval x)"
      have "\<forall>j < length (x # xs). b' \<le>s trial_interval ((x # xs) ! j)"
      proof (intro allI impI)
        fix j assume "j < length (x # xs)"
        then show "b' \<le>s trial_interval ((x # xs) ! j)"
          using u by (cases j) (auto simp: word_sle_eq word_sless_alt not_less)
      qed
      then have "0 < length (x # xs) \<and> b' = trial_interval ((x # xs) ! 0) \<and>
            off' = trial_offset ((x # xs) ! 0) \<and> t' = trial_ts ((x # xs) ! 0) \<and> b' <s b \<and>
            (\<forall>j < length (x # xs). b' \<le>s trial_interval ((x # xs) ! j)) \<and>
            (\<forall>j < 0. b' <s trial_interval ((x # xs) ! j))"
        using u True by simp
      then show ?thesis by blast
    next
      assume "\<exists>k < length xs. b' = trial_interval (xs ! k) \<and> off' = trial_offset (xs ! k) \<and>
        t' = trial_ts (xs ! k) \<and> b' <s trial_interval x \<and>
        (\<forall>j < length xs. b' \<le>s trial_interval (xs ! j)) \<and>
        (\<forall>j < k. b' <s trial_interval (xs ! j))"
      then obtain k where k: "k < length xs" "b' = trial_interval (xs ! k)"
        "off' = trial_offset (xs ! k)" "t' = trial_ts (xs ! k)" "b' <s trial_interval x"
        "\<forall>j < length xs. b' \<le>s trial_interval (xs ! j)" "\<forall>j < k. b' <s trial_interval (xs ! j)"
        by blast
      have a: "\<forall>j < length (x # xs). b' \<le>s trial_interval ((x # xs) ! j)"
      proof (intro allI impI)
        fix j assume "j < length (x # xs)"
        then show "b' \<le>s trial_interval ((x # xs) ! j)"
          using k(5,6) by (cases j) (auto simp: word_sle_eq word_sless_alt)
      qed
      have c: "\<forall>j < Suc k. b' <s trial_interval ((x # xs) ! j)"
      proof (intro allI impI)
        fix j assume "j < Suc k"
        then show "b' <s trial_interval ((x # xs) ! j)"
          using k(5,7) by (cases j) auto
      qed
      have "b' <s b" using k(5) True by (simp add: word_sless_alt)
      then have "Suc k < length (x # xs) \<and> b' = trial_interval ((x # xs) ! Suc k) \<and>
            off' = trial_offset ((x # xs) ! Suc k) \<and> t' = trial_ts ((x # xs) ! Suc k) \<and> b' <s b \<and>
            (\<forall>j < length (x # xs). b' \<le>s trial_interval ((x # xs) ! j)) \<and>
            (\<forall>j < Suc k. b' <s trial_interval ((x # xs) ! j))"
        using k(1-4) a c by simp
      then show ?thesis by blast
    qed
  next
    case False
    then have "keep_best (b, off, t) x = (b, off, t)"
      by (simp add: keep_best_def)
    then have f: "foldl keep_best (b, off, t) xs = (b', off', t')"
      using Cons.prems by simp
    from Cons.IH [OF f] show ?thesis
    proof
      assume "b' = b \<and> off' = off \<and> t' = t \<and> (\<forall>y \<in> set xs. \<not> trial_interval y <s b)"
      then show ?thesis using False by simp
    next
      assume "\<exists>k < length xs. b' = trial_interval (xs ! k) \<and> off' = trial_offset (xs ! k) \<and>
        t' = trial_ts (xs ! k) \<and> b' <s b \<and>
        (\<forall>j < length xs. b' \<le>s trial_interval (xs ! j)) \<and>
        (\<forall>j < k. b' <s trial_interval (xs ! j))"
      then obtain k where k: "k < length xs" "b' = trial_interval (xs ! k)"
        "off' = trial_offset (xs ! k)" "t' = trial_ts (xs ! k)" "b' <s b"
        "\<forall>j < length xs. b' \<le>s trial_interval (xs ! j)" "\<forall>j < k. b' <s trial_interval (xs ! j)"
        by blast
      have bx: "b' <s trial_interval x"
        using k(5) False by (simp add: word_sless_alt)
      have a: "\<forall>j < length (x # xs). b' \<le>s trial_interval ((x # xs) ! j)"
      proof (intro allI impI)
        fix j assume "j < length (x # xs)"
        then show "b' \<le>s trial_interval ((x # xs) ! j)"
          using bx k(6) by (cases j) (auto simp: word_sle_eq word_sless_alt)
      qed
      have c: "\<forall>j < Suc k. b' <s trial_interval ((x # xs) ! j)"
      proof (intro allI impI)
        fix j assume "j < Suc k"
        then show "b' <s trial_interval ((x # xs) ! j)"
          using bx k(7) by (cases j) auto
      qed
      have "Suc k < length (x # xs) \<and> b' = trial_interval ((x # xs) ! Suc k) \<and>
            off' = trial_offset ((x # xs) ! Suc k) \<and> t' = trial_ts ((x # xs) ! Suc k) \<and> b' <s b \<and>
            (\<forall>j < length (x # xs). b' \<le>s trial_interval ((x # xs) ! j)) \<and>
            (\<forall>j < Suc k. b' <s trial_interval ((x # xs) ! j))"
        using k(1-5) a c by simp
      then show ?thesis by blast
    qed
  qed
qed

lemma read_phc_outputs_unwritten:
  assumes "reads_ok reads xs" and "\<forall>x \<in> set xs. \<not> trial_interval x <s INT64_MAX"
  shows "read_phc master sysclk (int (length xs)) reads (offset0, ts0, delay0) =
           ((1, offset0, ts0, INT64_MAX), [])"
proof -
  obtain b' off' t' where f: "foldl keep_best (INT64_MAX, offset0, ts0) xs = (b', off', t')"
    by (cases "foldl keep_best (INT64_MAX, offset0, ts0) xs")
  have l: "read_phc_loop reads (int (length xs)) 0 (INT64_MAX, offset0, ts0) = (True, b', off', t')"
    using read_phc_loop_foldl [OF assms(1), of 0] f by simp
  have r: "read_phc master sysclk (int (length xs)) reads (offset0, ts0, delay0) =
           ((1, off', t', b'), [])"
    by (simp add: read_phc_def l)
  from foldl_keep_best [OF f] assms(2) have "b' = INT64_MAX \<and> off' = offset0 \<and> t' = ts0"
    by (metis nth_mem)
  then show ?thesis using r by simp
qed




section \<open>Properties of the management rounds\<close>

lemma emit_Inl: "emit tr m = Inl e \<Longrightarrow> m = Inl e"
  by (auto simp: emit_def split: sum.splits)

lemma emit_Inr: "emit tr m = Inr (x, t) \<Longrightarrow> \<exists>t'. m = Inr (x, t') \<and> t = tr @ t'"
  by (auto simp: emit_def split: sum.splits)

lemma run_pmc_body_return:
  "run_pmc_body c timeout s = ((Return r, c'), tr) \<Longrightarrow> r = - 1 \<or> r = 0"
  by (auto simp: run_pmc_body_def Let_def split: if_splits option.splits ds_id.splits)

lemma run_pmc_body_port:
  assumes "pmc_ds_idx c = 0" "run_pmc_body c timeout s = ((ctl, c'), tr)"
  shows "(pmc_ds_idx c' = 1 \<and> port_ds_satisfied s) \<or> (pmc_ds_idx c' = 0 \<and> \<not> port_ds_satisfied s)"
  using assms
  by (auto simp: run_pmc_body_def Let_def ds_ids_def port_ds_satisfied_def port_ds_response_def
           split: if_splits option.splits ds_id.splits port_state.splits)

lemma run_pmc_body_time:
  assumes "pmc_ds_idx c = 1" "run_pmc_body c timeout s = ((ctl, c'), tr)"
  shows "(pmc_ds_idx c' = 2 \<and> time_properties_satisfied s) \<or>
         (pmc_ds_idx c' = 1 \<and> \<not> time_properties_satisfied s)"
  using assms
  by (auto simp: run_pmc_body_def Let_def ds_ids_def time_properties_satisfied_def
           split: if_splits option.splits ds_id.splits)

lemma run_pmc_complete:
  "run_pmc c timeout wait_sync get_utc_offset script = Inr ((1, c'), tr) \<Longrightarrow>
   pmc_ds_idx c' = 0 \<and>
   (wait_sync \<noteq> 0 \<and> pmc_ds_idx c = 0 \<longrightarrow> (\<exists>s \<in> set script. port_ds_satisfied s)) \<and>
   (get_utc_offset \<noteq> 0 \<and> (pmc_ds_idx c = 0 \<or> pmc_ds_idx c = 1) \<longrightarrow>
      (\<exists>s \<in> set script. time_properties_satisfied s))"
proof (induction c timeout wait_sync get_utc_offset script arbitrary: tr
       rule: run_pmc.induct)
  case (1 c timeout wait_sync get_utc_offset script)
  note eq = "1.prems" [unfolded run_pmc.simps [of c timeout wait_sync get_utc_offset script]]
  show ?case
  proof (cases "pmc_ds_idx c <s N_ID")
    case False
    then have "pmc_ds_idx c \<noteq> 0" "pmc_ds_idx c \<noteq> 1"
      by (auto simp: N_ID_def word_sless_alt)
    moreover have "pmc_ds_idx c' = 0" using eq False by auto
    ultimately show ?thesis by simp
  next
    case lt: True
    show ?thesis
    proof (cases "pmc_ds_idx c <s 0")
      case True
      then show ?thesis using eq lt by simp
    next
      case nn: False
      have idx: "pmc_ds_idx c = 0 \<or> pmc_ds_idx c = 1"
        using cint_0_or_1 [OF nn] lt by (simp add: N_ID_def)
      show ?thesis
      proof (cases "(ds_ids ! unat (pmc_ds_idx c) = PORT_DATA_SET \<and> wait_sync = 0) \<or>
                    (ds_ids ! unat (pmc_ds_idx c) = TIME_PROPERTIES_DATA_SET \<and> get_utc_offset = 0)")
        case skip: True
        then have "run_pmc (c\<lparr>pmc_ds_idx := pmc_ds_idx c + 1\<rparr>) timeout wait_sync get_utc_offset script =
                   Inr ((1, c'), tr)"
          using eq lt nn by simp
        note ih = "1.IH"(1) [OF lt nn skip this]
        from idx show ?thesis
        proof
          assume i0: "pmc_ds_idx c = 0"
          then have "wait_sync = 0" using skip by (simp add: ds_ids_def)
          then show ?thesis using ih i0 by simp
        next
          assume i1: "pmc_ds_idx c = 1"
          then have "get_utc_offset = 0" using skip by (simp add: ds_ids_def)
          then show ?thesis using ih i1 by simp
        qed
      next
        case need: False
        show ?thesis
        proof (cases script)
          case Nil
          then show ?thesis using eq lt nn need by simp
        next
          case (Cons s rest)
          obtain ctl c1 tr1 where b: "run_pmc_body c timeout s = ((ctl, c1), tr1)"
            by (metis surj_pair)
          have b': "((ctl, c1), tr1) = run_pmc_body c timeout s"
            using b by simp
          show ?thesis
          proof (cases ctl)
            case (Return r)
            then have "r = 1" using eq lt nn need Cons b by simp
            moreover have "r = - 1 \<or> r = 0"
              using run_pmc_body_return [of c timeout s r c1 tr1] b Return by simp
            ultimately show ?thesis by simp
          next
            case Continue
            then have "emit tr1 (run_pmc c1 timeout wait_sync get_utc_offset rest) = Inr ((1, c'), tr)"
              using eq lt nn need Cons b by simp
            from emit_Inr [OF this] obtain t' where
              r: "run_pmc c1 timeout wait_sync get_utc_offset rest = Inr ((1, c'), t')"
              by auto
            note ih = "1.IH"(2) [OF lt nn need Cons b' refl Continue r]
            from idx show ?thesis
            proof
              assume i0: "pmc_ds_idx c = 0"
              from run_pmc_body_port [OF i0 b] show ?thesis
              proof
                assume "pmc_ds_idx c1 = 1 \<and> port_ds_satisfied s"
                then show ?thesis using ih Cons by simp
              next
                assume "pmc_ds_idx c1 = 0 \<and> \<not> port_ds_satisfied s"
                then show ?thesis using ih Cons by simp
              qed
            next
              assume i1: "pmc_ds_idx c = 1"
              from run_pmc_body_time [OF i1 b] show ?thesis
              proof
                assume "pmc_ds_idx c1 = 2 \<and> time_properties_satisfied s"
                then show ?thesis using ih Cons i1 by simp
              next
                assume "pmc_ds_idx c1 = 1 \<and> \<not> time_properties_satisfied s"
                then show ?thesis using ih Cons i1 by simp
              qed
            qed
          qed
        qed
      qed
    qed
  qed
qed

lemma pmc_frame_refl: "pmc_frame c c"
  by (simp add: pmc_frame_def)

lemma pmc_frame_trans: "pmc_frame c c1 \<Longrightarrow> pmc_frame c1 c2 \<Longrightarrow> pmc_frame c c2"
  by (simp add: pmc_frame_def)

lemma run_pmc_body_frame:
  "run_pmc_body c timeout s = ((ctl, c'), tr) \<Longrightarrow> pmc_frame c c' \<and> (\<forall>a \<in> set tr. pmc_action a)"
  by (auto simp: run_pmc_body_def Let_def pmc_frame_def pmc_action_def
           split: if_splits option.splits ds_id.splits)

lemma run_pmc_frame:
  "run_pmc c timeout wait_sync get_utc_offset script = Inr ((r, c'), tr) \<Longrightarrow>
   pmc_frame c c' \<and> (\<forall>a \<in> set tr. pmc_action a)"
proof (induction c timeout wait_sync get_utc_offset script arbitrary: tr
       rule: run_pmc.induct)
  case (1 c timeout wait_sync get_utc_offset script)
  note eq = "1.prems" [unfolded run_pmc.simps [of c timeout wait_sync get_utc_offset script]]
  show ?case
  proof (cases "pmc_ds_idx c <s N_ID")
    case False
    then show ?thesis using eq by (auto simp: pmc_frame_def)
  next
    case lt: True
    show ?thesis
    proof (cases "pmc_ds_idx c <s 0")
      case True
      then show ?thesis using eq lt by simp
    next
      case nn: False
      show ?thesis
      proof (cases "(ds_ids ! unat (pmc_ds_idx c) = PORT_DATA_SET \<and> wait_sync = 0) \<or>
                    (ds_ids ! unat (pmc_ds_idx c) = TIME_PROPERTIES_DATA_SET \<and> get_utc_offset = 0)")
        case skip: True
        then have "run_pmc (c\<lparr>pmc_ds_idx := pmc_ds_idx c + 1\<rparr>) timeout wait_sync get_utc_offset script =
                   Inr ((r, c'), tr)"
          using eq lt nn by simp
        note ih = "1.IH"(1) [OF lt nn skip this]
        have "pmc_frame c (c\<lparr>pmc_ds_idx := pmc_ds_idx c + 1\<rparr>)"
          by (simp add: pmc_frame_def)
        then show ?thesis using ih pmc_frame_trans by blast
      next
        case need: False
        show ?thesis
        proof (cases script)
          case Nil
          then show ?thesis using eq lt nn need by simp
        next
          case (Cons s rest)
          obtain ctl c1 tr1 where b: "run_pmc_body c timeout s = ((ctl, c1), tr1)"
            by (metis surj_pair)
          have b': "((ctl, c1), tr1) = run_pmc_body c timeout s"
            using b by simp
          note f = run_pmc_body_frame [OF b]
          show ?thesis
          proof (cases ctl)
            case (Return r')
            then have "c' = c1" "tr = tr1" using eq lt nn need Cons b by simp_all
            then show ?thesis using f by simp
          next
            case Continue
            then have "emit tr1 (run_pmc c1 timeout wait_sync get_utc_offset rest) = Inr ((r, c'), tr)"
              using eq lt nn need Cons b by simp
            from emit_Inr [OF this] obtain t' where
              r: "run_pmc c1 timeout wait_sync get_utc_offset rest = Inr ((r, c'), t')"
              and t: "tr = tr1 @ t'"
              by auto
            note ih = "1.IH"(2) [OF lt nn need Cons b' refl Continue r]
            have "pmc_frame c c'" using f ih pmc_frame_trans by blast
            moreover have "\<forall>a \<in> set tr. pmc_action a" using f ih t by auto
            ultimately show ?thesis by simp
          qed
        qed
      qed
    qed
  qed
qed

subsection \<open>The cursor of a round\<close>

text \<open>
  Claim C9. In a management round, with the cursor at \<^verbatim>\<open>PORT_DATA_SET\<close>
  (\<open>pmc_ds_idx = 0\<close>), an iteration that reads a \<^verbatim>\<open>PORT_DATA_SET\<close> response advances the
  cursor if and only if the reported port state is \<^verbatim>\<open>MASTER\<close> or \<^verbatim>\<open>SLAVE\<close>; with any
  other port state the cursor stays where it is and the loop goes on, so the data set is
  polled for again. And a round that returns 1 has reset the cursor to 0, has read a
  \<^verbatim>\<open>MASTER\<close> or \<^verbatim>\<open>SLAVE\<close> port data set if that was needed (\<open>wait_sync\<close>) and the round
  started at it, and has read the time properties if they were needed
  (\<open>get_utc_offset\<close>) and the round started at or before them.
\<close>

theorem run_pmc_port_state_gate:
  "(pmc_ds_idx c = 0 \<and> run_pmc_body c timeout s = ((ctl, c1), tr1) \<and>
    port_ds_response s = Some msg \<longrightarrow>
      (pmc_ds_idx c1 = pmc_ds_idx c + 1 \<longleftrightarrow> portState msg = PS_MASTER \<or> portState msg = PS_SLAVE) \<and>
      (portState msg \<noteq> PS_MASTER \<and> portState msg \<noteq> PS_SLAVE \<longrightarrow>
         pmc_ds_idx c1 = pmc_ds_idx c \<and> ctl = Continue)) \<and>
   (run_pmc c timeout wait_sync get_utc_offset script = Inr ((1, c'), tr) \<longrightarrow>
      pmc_ds_idx c' = 0 \<and>
      (wait_sync \<noteq> 0 \<and> pmc_ds_idx c = 0 \<longrightarrow> (\<exists>s \<in> set script. port_ds_satisfied s)) \<and>
      (get_utc_offset \<noteq> 0 \<and> (pmc_ds_idx c = 0 \<or> pmc_ds_idx c = 1) \<longrightarrow>
         (\<exists>s \<in> set script. time_properties_satisfied s)))"
proof -
  have a: "(pmc_ds_idx c1 = pmc_ds_idx c + 1 \<longleftrightarrow> portState msg = PS_MASTER \<or> portState msg = PS_SLAVE) \<and>
           (portState msg \<noteq> PS_MASTER \<and> portState msg \<noteq> PS_SLAVE \<longrightarrow>
              pmc_ds_idx c1 = pmc_ds_idx c \<and> ctl = Continue)"
    if i: "pmc_ds_idx c = 0" and b: "run_pmc_body c timeout s = ((ctl, c1), tr1)"
      and m: "port_ds_response s = Some msg"
  proof -
    have sat: "port_ds_satisfied s \<longleftrightarrow> portState msg = PS_MASTER \<or> portState msg = PS_SLAVE"
      by (simp add: port_ds_satisfied_def m)
    have ctl: "ctl = Continue"
      using b m
      by (auto simp: run_pmc_body_def Let_def port_ds_response_def
               split: if_splits option.splits ds_id.splits)
    from run_pmc_body_port [OF i b] show ?thesis
      using sat i ctl by auto
  qed
  show ?thesis
    using a run_pmc_complete [of c timeout wait_sync get_utc_offset script c' tr] by blast
qed

text \<open>
  A response with another port state leaves the cursor at 0; a round that reads such a
  response, then one from a \<^verbatim>\<open>SLAVE\<close> port, then the time properties, returns 1 with the
  cursor back at 0.
\<close>

theorem run_pmc_port_state_gate_witness:
  "pmc_ds_idx example_clock = 0 \<and>
   run_pmc_body example_clock 0 (example_response PORT_DATA_SET PS_OTHER) =
     ((Continue, example_clock), ([Poll True 0, Msg_put] :: int action list)) \<and>
   port_ds_response (example_response PORT_DATA_SET PS_OTHER) =
     Some (example_message PORT_DATA_SET PS_OTHER) \<and>
   portState (example_message PORT_DATA_SET PS_OTHER) \<noteq> PS_MASTER \<and>
   portState (example_message PORT_DATA_SET PS_OTHER) \<noteq> PS_SLAVE \<and>
   run_pmc example_clock 1000 1 1
     [example_response PORT_DATA_SET PS_OTHER, example_response PORT_DATA_SET PS_SLAVE,
      example_response TIME_PROPERTIES_DATA_SET PS_OTHER] =
     Inr ((1, example_clock\<lparr>sync_offset := 37\<rparr>),
          ([Poll True 1000, Msg_put, Poll True 1000, Msg_put, Poll True 1000, Msg_put]
            :: int action list)) \<and>
   pmc_ds_idx (example_clock\<lparr>sync_offset := 37\<rparr>) = 0 \<and>
   (\<exists>s \<in> set [example_response PORT_DATA_SET PS_OTHER, example_response PORT_DATA_SET PS_SLAVE,
               example_response TIME_PROPERTIES_DATA_SET PS_OTHER]. port_ds_satisfied s) \<and>
   (\<exists>s \<in> set [example_response PORT_DATA_SET PS_OTHER, example_response PORT_DATA_SET PS_SLAVE,
               example_response TIME_PROPERTIES_DATA_SET PS_OTHER]. time_properties_satisfied s)"
proof -
  have i: "pmc_ds_idx example_clock = 0"
    by (simp add: example_clock_def)
  have b: "run_pmc_body example_clock 0 (example_response PORT_DATA_SET PS_OTHER) =
           ((Continue, example_clock), ([Poll True 0, Msg_put] :: int action list))"
    by (simp add: run_pmc_body_def example_clock_def example_response_def example_message_def
          Let_def ds_ids_def is_msg_mgt_def get_mgt_id_def word_sless_alt)
  have m: "port_ds_response (example_response PORT_DATA_SET PS_OTHER) =
           Some (example_message PORT_DATA_SET PS_OTHER)"
    by (simp add: port_ds_response_def example_response_def example_message_def is_msg_mgt_def
          get_mgt_id_def word_sless_alt)
  have p: "portState (example_message PORT_DATA_SET PS_OTHER) \<noteq> PS_MASTER"
    "portState (example_message PORT_DATA_SET PS_OTHER) \<noteq> PS_SLAVE"
    by (simp_all add: example_message_def)
  have r: "run_pmc example_clock 1000 1 1
     [example_response PORT_DATA_SET PS_OTHER, example_response PORT_DATA_SET PS_SLAVE,
      example_response TIME_PROPERTIES_DATA_SET PS_OTHER] =
     Inr ((1, example_clock\<lparr>sync_offset := 37\<rparr>),
          ([Poll True 1000, Msg_put, Poll True 1000, Msg_put, Poll True 1000, Msg_put]
            :: int action list))"
    by (simp add: run_pmc.simps run_pmc_body_def example_clock_def example_response_def
          example_message_def Let_def ds_ids_def N_ID_def is_msg_mgt_def get_mgt_id_def emit_def
          word_sless_alt)
  show ?thesis
    using i b m p r
      run_pmc_port_state_gate [where c = example_clock and timeout = 0
        and s = "example_response PORT_DATA_SET PS_OTHER" and ctl = Continue
        and ?c1.0 = example_clock and ?tr1.0 = "[Poll True 0, Msg_put]"
        and msg = "example_message PORT_DATA_SET PS_OTHER"]
      run_pmc_port_state_gate [where c = example_clock and timeout = 1000 and wait_sync = 1
        and get_utc_offset = 1
        and script = "[example_response PORT_DATA_SET PS_OTHER,
                       example_response PORT_DATA_SET PS_SLAVE,
                       example_response TIME_PROPERTIES_DATA_SET PS_OTHER]"
        and c' = "example_clock\<lparr>sync_offset := 37\<rparr>"
        and tr = "[Poll True 1000, Msg_put, Poll True 1000, Msg_put, Poll True 1000, Msg_put]"]
    by simp
qed

section \<open>Properties of the leap coordinator\<close>

lemma refresh_frame:
  assumes "update_sync_offset_refresh inp c ts = Inr (c1, tr1)"
  shows "leap_frame c c1 \<and> leap_set c1 = leap_set c \<and>
         (\<forall>a \<in> set tr1. pmc_action a \<or> a = Call_run_pmc)"
proof (cases "pmc c \<and> \<not> (pmc_last_update c < ts \<and> ts - pmc_last_update c < PMC_UPDATE_INTERVAL)")
  case False
  then have "c1 = c" "tr1 = []"
    using assms by (auto simp: update_sync_offset_refresh_def)
  then show ?thesis by (simp add: leap_frame_def)
next
  case True
  then obtain r c' tr where r: "run_pmc c 0 0 1 (pmc_script inp) = Inr ((r, c'), tr)"
    and c1: "c1 = (if 0 <s r then c'\<lparr>pmc_last_update := ts\<rparr> else c')"
    and tr1: "tr1 = Call_run_pmc # tr"
    using assms
    by (auto simp: update_sync_offset_refresh_def bind_f_def split: sum.splits)
  from run_pmc_frame [OF r] show ?thesis
    using c1 tr1 by (auto simp: pmc_frame_def leap_frame_def)
qed

lemma refresh_round:
  assumes "pmc c" "update_sync_offset_refresh inp c ts = Inr (c1, tr1)"
  shows "(Call_run_pmc \<in> set tr1 \<longleftrightarrow> round_due c ts) \<and>
         pmc_last_update c1 =
           (if round_due c ts \<and> round_complete inp c then ts else pmc_last_update c)"
proof (cases "\<not> (pmc_last_update c < ts \<and> ts - pmc_last_update c < PMC_UPDATE_INTERVAL)")
  case False
  then have "c1 = c" "tr1 = []"
    using assms by (auto simp: update_sync_offset_refresh_def)
  moreover have "\<not> round_due c ts"
    using False by (auto simp: round_due_def)
  ultimately show ?thesis by simp
next
  case True
  then obtain r c' tr where r: "run_pmc c 0 0 1 (pmc_script inp) = Inr ((r, c'), tr)"
    and c1: "c1 = (if 0 <s r then c'\<lparr>pmc_last_update := ts\<rparr> else c')"
    and tr1: "tr1 = Call_run_pmc # tr"
    using assms
    by (auto simp: update_sync_offset_refresh_def bind_f_def split: sum.splits)
  have due: "round_due c ts"
    using True by (auto simp: round_due_def)
  have "round_complete inp c \<longleftrightarrow> 0 <s r"
    by (simp add: round_complete_def r)
  moreover have "pmc_last_update c' = pmc_last_update c"
    using run_pmc_frame [OF r] by (simp add: pmc_frame_def)
  ultimately show ?thesis
    using c1 tr1 due by simp
qed

lemma leap_part:
  assumes "update_sync_offset_leap X inp c offset ts = ((r, c1), tr)"
  shows "leap_frame c c1 \<and> pmc_last_update c1 = pmc_last_update c \<and>
         (r = 0 \<or> r = - 1) \<and>
         (r \<noteq> 0 \<longrightarrow> c1 = c \<and> (\<exists>m. tr = [Pr_err m] \<or> tr = [Pr_info m])) \<and>
         (r = 0 \<longrightarrow> tr = (if leap_set c1 \<noteq> leap_set c \<and> clkid c = CLOCK_REALTIME \<and> kernel_leap c \<noteq> 0
                          then [Clockadj_set_leap (clkid c) (leap_set c1)] else []))"
  using assms
  by (auto simp: update_sync_offset_leap_def Let_def leap_frame_def
           split: if_splits option.splits prod.splits)

lemma leap_part_status:
  assumes "update_sync_offset_leap X inp c offset ts = ((r, c1), tr)"
  shows "(r = 0 \<and> (leap c \<noteq> 0 \<or> leap_set c \<noteq> 0) \<longrightarrow>
            (\<exists>ts'. leap_time inp c offset ts = Some ts' \<and> is_utc_ambiguous X ts' = 0 \<and>
               leap_set c1 = fst (leap_second_status X ts' (leap_set c) (leap c) (sync_offset c)))) \<and>
         (\<not> (r = 0 \<and> (leap c \<noteq> 0 \<or> leap_set c \<noteq> 0)) \<longrightarrow> leap_set c1 = leap_set c)"
  using assms
  by (auto simp: update_sync_offset_leap_def leap_time_def Let_def
           split: if_splits option.splits prod.splits)

lemma update_sync_offset_parts:
  assumes "update_sync_offset X inp c offset ts = Inr ((r, c1), tr)"
  shows "\<exists>cm trm trl. update_sync_offset_refresh inp c ts = Inr (cm, trm) \<and>
           update_sync_offset_leap X inp cm offset ts = ((r, c1), trl) \<and> tr = trm @ trl"
  using assms
  by (auto simp: update_sync_offset_def bind_f_def emit_def split: sum.splits prod.splits)

subsection \<open>The latched leap and the kernel\<close>

text \<open>
  Claim C1 says that \<open>leap_set\<close> changes only when the slave is the realtime clock and
  \<open>kernel_leap\<close> is set. The code guards the call of \<^verbatim>\<open>clockadj_set_leap\<close> with that
  condition, not the assignment to \<open>leap_set\<close> (line 506 stands outside the inner
  \<^verbatim>\<open>if\<close>): with a PHC as the slave and \<open>kernel_leap = 0\<close>, a pending insertion that
  \<open>leap_second_status\<close> reports as the status to apply changes \<open>leap_set\<close> from 0 to 1.
\<close>

theorem update_sync_offset_leap_set_phc_slave:
  "update_sync_offset example_extern example_inputs
     (example_clock\<lparr>clkid := FD_TO_CLOCKID 3, leap := 1, kernel_leap := 0\<rparr>) 0 0 =
     Inr ((0, example_clock\<lparr>clkid := FD_TO_CLOCKID 3, leap := 1, kernel_leap := 0, leap_set := 1\<rparr>),
          []) \<and>
   leap_set (example_clock\<lparr>clkid := FD_TO_CLOCKID 3, leap := 1, kernel_leap := 0, leap_set := 1\<rparr>) \<noteq>
   leap_set (example_clock\<lparr>clkid := FD_TO_CLOCKID 3, leap := 1, kernel_leap := 0\<rparr>) \<and>
   clkid (example_clock\<lparr>clkid := FD_TO_CLOCKID 3, leap := 1, kernel_leap := 0\<rparr>) \<noteq> CLOCK_REALTIME \<and>
   kernel_leap (example_clock\<lparr>clkid := FD_TO_CLOCKID 3, leap := 1, kernel_leap := 0\<rparr>) = 0"
  by (simp add: update_sync_offset_def update_sync_offset_refresh_def update_sync_offset_leap_def
        bind_f_def emit_def example_extern_def example_clock_def example_inputs_def Let_def
        NS_PER_SEC_def)

text \<open>
  Claim C1 as amended. For every sample processed by \<open>update_sync_offset\<close>: the kernel
  leap flag is set (\<^verbatim>\<open>clockadj_set_leap\<close>) exactly when \<open>leap_set\<close> changes and the slave is
  the realtime clock and \<open>kernel_leap\<close> is set, and then on the slave and to the new
  \<open>leap_set\<close>; \<open>leap_set\<close> itself changes only on a call that returns 0, and on every call
  that returns 0 with \<open>leap\<close> or \<open>leap_set\<close> nonzero after the management round it is the
  status that \<open>leap_second_status\<close> computes at the time stamp \<open>leap_time\<close>, for every
  slave and also with the kernel leap disabled; on every other call it is unchanged.
\<close>

theorem update_sync_offset_kernel_leap:
  assumes "update_sync_offset X inp c offset ts = Inr ((r, c1), tr)"
  shows "((\<exists>cid v. Clockadj_set_leap cid v \<in> set tr) \<longleftrightarrow>
            leap_set c1 \<noteq> leap_set c \<and> clkid c = CLOCK_REALTIME \<and> kernel_leap c \<noteq> 0) \<and>
         (\<forall>cid v. Clockadj_set_leap cid v \<in> set tr \<longrightarrow> cid = clkid c \<and> v = leap_set c1) \<and>
         (leap_set c1 \<noteq> leap_set c \<longrightarrow> r = 0) \<and>
         (\<exists>cm trm. update_sync_offset_refresh inp c ts = Inr (cm, trm) \<and>
            (r = 0 \<and> (leap cm \<noteq> 0 \<or> leap_set c \<noteq> 0) \<longrightarrow>
               (\<exists>ts'. leap_time inp cm offset ts = Some ts' \<and>
                  leap_set c1 = fst (leap_second_status X ts' (leap_set c) (leap cm) (sync_offset cm)))) \<and>
            (\<not> (r = 0 \<and> (leap cm \<noteq> 0 \<or> leap_set c \<noteq> 0)) \<longrightarrow> leap_set c1 = leap_set c))"
proof -
  from update_sync_offset_parts [OF assms] obtain cm trm trl where
    m: "update_sync_offset_refresh inp c ts = Inr (cm, trm)"
    and l: "update_sync_offset_leap X inp cm offset ts = ((r, c1), trl)"
    and tr: "tr = trm @ trl"
    by blast
  have fm: "leap_frame c cm" "leap_set cm = leap_set c"
    and am: "\<forall>a \<in> set trm. pmc_action a \<or> a = Call_run_pmc"
    using refresh_frame [OF m] by simp_all
  have nm: "Clockadj_set_leap cid v \<notin> set trm" for cid v
    using am by (auto simp: pmc_action_def)
  have k: "clkid cm = clkid c" "kernel_leap cm = kernel_leap c"
    using fm by (simp_all add: leap_frame_def)
  from leap_part [OF l] have
    r: "r = 0 \<or> r = - 1"
    and n: "r \<noteq> 0 \<longrightarrow> c1 = cm \<and> (\<exists>m. trl = [Pr_err m] \<or> trl = [Pr_info m])"
    and z: "r = 0 \<longrightarrow> trl = (if leap_set c1 \<noteq> leap_set cm \<and> clkid cm = CLOCK_REALTIME \<and> kernel_leap cm \<noteq> 0
                          then [Clockadj_set_leap (clkid cm) (leap_set c1)] else [])"
    by simp_all
  have a: "((\<exists>cid v. Clockadj_set_leap cid v \<in> set tr) \<longleftrightarrow>
            leap_set c1 \<noteq> leap_set c \<and> clkid c = CLOCK_REALTIME \<and> kernel_leap c \<noteq> 0) \<and>
         (\<forall>cid v. Clockadj_set_leap cid v \<in> set tr \<longrightarrow> cid = clkid c \<and> v = leap_set c1) \<and>
         (leap_set c1 \<noteq> leap_set c \<longrightarrow> r = 0)"
  proof (cases "r = 0")
    case True
    then show ?thesis using z tr nm k fm(2) by auto
  next
    case False
    then show ?thesis using n tr nm fm(2) by auto
  qed
  have s: "(r = 0 \<and> (leap cm \<noteq> 0 \<or> leap_set c \<noteq> 0) \<longrightarrow>
               (\<exists>ts'. leap_time inp cm offset ts = Some ts' \<and>
                  leap_set c1 = fst (leap_second_status X ts' (leap_set c) (leap cm) (sync_offset cm)))) \<and>
            (\<not> (r = 0 \<and> (leap cm \<noteq> 0 \<or> leap_set c \<noteq> 0)) \<longrightarrow> leap_set c1 = leap_set c)"
    using leap_part_status [OF l] unfolding fm(2) by blast
  from a m s show ?thesis by blast
qed

theorem update_sync_offset_kernel_leap_witness:
  "update_sync_offset example_extern example_inputs (example_clock\<lparr>leap := 1\<rparr>) 0 0 =
     Inr ((0, example_clock\<lparr>leap := 1, leap_set := 1\<rparr>), [Clockadj_set_leap CLOCK_REALTIME 1]) \<and>
   leap_set (example_clock\<lparr>leap := 1, leap_set := 1\<rparr>) \<noteq> leap_set (example_clock\<lparr>leap := 1\<rparr>) \<and>
   clkid (example_clock\<lparr>leap := 1\<rparr>) = CLOCK_REALTIME \<and>
   kernel_leap (example_clock\<lparr>leap := 1\<rparr>) \<noteq> 0 \<and>
   update_sync_offset_refresh example_inputs (example_clock\<lparr>leap := 1\<rparr>) 0 =
     Inr (example_clock\<lparr>leap := 1\<rparr>, []) \<and>
   leap_time example_inputs (example_clock\<lparr>leap := 1\<rparr>) 0 0 = Some 0 \<and>
   leap_set (example_clock\<lparr>leap := 1, leap_set := 1\<rparr>) =
     fst (leap_second_status example_extern 0 0 1 0)"
proof -
  have e: "update_sync_offset example_extern example_inputs (example_clock\<lparr>leap := 1\<rparr>) 0 0 =
     Inr ((0, example_clock\<lparr>leap := 1, leap_set := 1\<rparr>), [Clockadj_set_leap CLOCK_REALTIME 1])"
    by (simp add: update_sync_offset_def update_sync_offset_refresh_def update_sync_offset_leap_def
          bind_f_def emit_def example_extern_def example_clock_def example_inputs_def Let_def
          NS_PER_SEC_def)
  show ?thesis
    using e update_sync_offset_kernel_leap [OF e]
    by (simp add: example_clock_def example_extern_def update_sync_offset_refresh_def
          leap_time_def NS_PER_SEC_def)
qed

subsection \<open>The refresh of the management data\<close>

text \<open>
  Claim C8 says that with a management client a round is run exactly when
  \<open>ts - pmc_last_update\<close> is at least 60 s. The test of line 463 also asks for
  \<open>ts > pmc_last_update\<close>: a sample whose time stamp equals \<open>pmc_last_update\<close>
  (elapsed time 0) runs a round.
\<close>

theorem update_sync_offset_round_at_zero_elapsed:
  "update_sync_offset example_extern example_inputs
     (example_clock\<lparr>pmc := True, pmc_last_update := 1000\<rparr>) 0 1000 =
     Inr ((0, example_clock\<lparr>pmc := True, pmc_last_update := 1000, pmc_ds_idx := 1\<rparr>),
          [Call_run_pmc, Poll True 0]) \<and>
   \<not> PMC_UPDATE_INTERVAL \<le> 1000 - pmc_last_update (example_clock\<lparr>pmc := True, pmc_last_update := 1000\<rparr>)"
proof -
  have r: "run_pmc (example_clock\<lparr>pmc := True, pmc_last_update := 1000\<rparr>) 0 0 1 [example_timeout] =
           Inr ((0, example_clock\<lparr>pmc := True, pmc_last_update := 1000, pmc_ds_idx := 1\<rparr>),
                ([Poll True 0] :: int action list))"
    by (simp add: run_pmc.simps run_pmc_body_def example_clock_def example_timeout_def Let_def
          ds_ids_def N_ID_def emit_def word_sless_alt)
  show ?thesis
    by (simp add: update_sync_offset_def update_sync_offset_refresh_def update_sync_offset_leap_def
          bind_f_def emit_def r example_inputs_def PMC_UPDATE_INTERVAL_def NS_PER_SEC_def
          word_sless_alt)
       (simp add: example_clock_def)
qed

text \<open>
  Claim C8 as amended. For every call of \<open>update_sync_offset\<close> with a management client:
  a round is run exactly when \<open>ts \<le> pmc_last_update\<close> or \<open>ts - pmc_last_update\<close> (on
  unsigned 64-bit words) is at least \<^verbatim>\<open>PMC_UPDATE_INTERVAL\<close>, 60 s; and \<open>pmc_last_update\<close>
  becomes \<open>ts\<close> when a round is run and returns a positive value, and is unchanged
  otherwise.
\<close>

theorem update_sync_offset_round:
  assumes "pmc c" and "update_sync_offset X inp c offset ts = Inr ((r, c1), tr)"
  shows "(Call_run_pmc \<in> set tr \<longleftrightarrow>
            ts \<le> pmc_last_update c \<or> PMC_UPDATE_INTERVAL \<le> ts - pmc_last_update c) \<and>
         pmc_last_update c1 =
           (if Call_run_pmc \<in> set tr \<and> round_complete inp c then ts else pmc_last_update c)"
proof -
  from update_sync_offset_parts [OF assms(2)] obtain cm trm trl where
    m: "update_sync_offset_refresh inp c ts = Inr (cm, trm)"
    and l: "update_sync_offset_leap X inp cm offset ts = ((r, c1), trl)"
    and tr: "tr = trm @ trl"
    by blast
  from leap_part [OF l] have
    n: "r \<noteq> 0 \<longrightarrow> (\<exists>m. trl = [Pr_err m] \<or> trl = [Pr_info m])"
    and z: "r = 0 \<longrightarrow> trl = (if leap_set c1 \<noteq> leap_set cm \<and> clkid cm = CLOCK_REALTIME \<and> kernel_leap cm \<noteq> 0
                          then [Clockadj_set_leap (clkid cm) (leap_set c1)] else [])"
    and u: "pmc_last_update c1 = pmc_last_update cm"
    by simp_all
  have "Call_run_pmc \<notin> set trl"
    using n z by (cases "r = 0") auto
  then have "Call_run_pmc \<in> set tr \<longleftrightarrow> Call_run_pmc \<in> set trm"
    using tr by simp
  then show ?thesis
    using refresh_round [OF assms(1) m] u by (simp add: round_due_def)
qed

theorem update_sync_offset_round_witness:
  "pmc (example_clock\<lparr>pmc := True, pmc_last_update := 1000\<rparr>) \<and>
   update_sync_offset example_extern example_inputs
     (example_clock\<lparr>pmc := True, pmc_last_update := 1000\<rparr>) 0 61000000000 =
     Inr ((0, example_clock\<lparr>pmc := True, pmc_last_update := 1000, pmc_ds_idx := 1\<rparr>),
          [Call_run_pmc, Poll True 0]) \<and>
   PMC_UPDATE_INTERVAL \<le> 61000000000 - pmc_last_update (example_clock\<lparr>pmc := True, pmc_last_update := 1000\<rparr>) \<and>
   \<not> round_complete example_inputs (example_clock\<lparr>pmc := True, pmc_last_update := 1000\<rparr>)"
proof -
  have p: "pmc (example_clock\<lparr>pmc := True, pmc_last_update := 1000\<rparr>)"
    by simp
  have r: "run_pmc (example_clock\<lparr>pmc := True, pmc_last_update := 1000\<rparr>) 0 0 1 [example_timeout] =
           Inr ((0, example_clock\<lparr>pmc := True, pmc_last_update := 1000, pmc_ds_idx := 1\<rparr>),
                ([Poll True 0] :: int action list))"
    by (simp add: run_pmc.simps run_pmc_body_def example_clock_def example_timeout_def Let_def
          ds_ids_def N_ID_def emit_def word_sless_alt)
  have e: "update_sync_offset example_extern example_inputs
     (example_clock\<lparr>pmc := True, pmc_last_update := 1000\<rparr>) 0 61000000000 =
     Inr ((0, example_clock\<lparr>pmc := True, pmc_last_update := 1000, pmc_ds_idx := 1\<rparr>),
          [Call_run_pmc, Poll True 0])"
    by (simp add: update_sync_offset_def update_sync_offset_refresh_def update_sync_offset_leap_def
          bind_f_def emit_def r example_inputs_def PMC_UPDATE_INTERVAL_def NS_PER_SEC_def
          word_sless_alt)
       (simp add: example_clock_def)
  have c: "\<not> round_complete example_inputs (example_clock\<lparr>pmc := True, pmc_last_update := 1000\<rparr>)"
    by (simp add: round_complete_def example_inputs_def r word_sless_alt)
  show ?thesis
    using p e c update_sync_offset_round [OF p e]
    by (simp add: PMC_UPDATE_INTERVAL_def NS_PER_SEC_def)
qed

section \<open>Properties of \<open>update_clock\<close>\<close>

lemma update_sync_offset_frame:
  assumes "update_sync_offset X inp c offset ts = Inr ((r, c1), tr)"
  shows "leap_frame c c1"
proof -
  from update_sync_offset_parts [OF assms] obtain cm trm trl where
    m: "update_sync_offset_refresh inp c ts = Inr (cm, trm)"
    and l: "update_sync_offset_leap X inp cm offset ts = ((r, c1), trl)"
    by blast
  show ?thesis
    using refresh_frame [OF m] leap_part [OF l] by (simp add: leap_frame_def)
qed

lemma update_sync_offset_discard:
  assumes "update_sync_offset X inp c offset ts = Inr ((r, c1), tr)" and "r \<noteq> 0"
  shows "\<forall>a \<in> set tr. \<not> servo_or_adjust a"
proof -
  from update_sync_offset_parts [OF assms(1)] obtain cm trm trl where
    m: "update_sync_offset_refresh inp c ts = Inr (cm, trm)"
    and l: "update_sync_offset_leap X inp cm offset ts = ((r, c1), trl)"
    and tr: "tr = trm @ trl"
    by blast
  have "\<forall>a \<in> set trm. \<not> servo_or_adjust a"
    using refresh_frame [OF m] by (auto simp: pmc_action_def servo_or_adjust_def split: action.splits)
  moreover have "\<forall>a \<in> set trl. \<not> servo_or_adjust a"
    using leap_part [OF l] assms(2) by (auto simp: servo_or_adjust_def)
  ultimately show ?thesis using tr by auto
qed

lemma update_clock_stats_report:
  assumes "update_clock_stats X c offset freq delay = Inr (c2, tr)"
  shows "(\<forall>a \<in> set tr. \<exists>m. a = Pr_info m) \<and> servo c2 = servo c \<and> servo_state c2 = servo_state c \<and>
         (\<exists>xs. offset_stats c = Some xs \<and>
               (offset_stats c2 = Some (xs @ [double_of_int64 X offset]) \<or> offset_stats c2 = Some []))"
  using assms
  by (auto simp: update_clock_stats_def bind_f_def stats_add_value_def stats_get_num_values_def
        stats_get_result_def stats_reset_def
        split: sum.splits option.splits if_splits)

lemma update_clock_discard:
  assumes "update_sync_offset X inp c offset ts = Inr ((r, c1), tr1)" and "r \<noteq> 0"
  shows "update_clock X inp c offset ts delay = Inr (c1, tr1)"
  using assms by (simp add: update_clock_def bind_f_def)

lemma update_clock_consume:
  assumes u: "update_sync_offset X inp c offset ts = Inr ((0, c1), tr1)"
    and sv: "servo c1 = Some sv"
    and s: "servo_sample X sv (corrected_offset c1 offset) ts = (ppb, state, sv')"
  shows "update_clock X inp c offset ts delay =
           (if offset_stats c1 \<noteq> None
            then emit (tr1 @ [Servo_sample (corrected_offset c1 offset) ts] @
                       clock_dispatch (clkid c) state (corrected_offset c1 offset) ppb)
                   (update_clock_stats X (c1\<lparr>servo := Some sv', servo_state := state\<rparr>)
                      (corrected_offset c1 offset) ppb delay)
            else Inr (c1\<lparr>servo := Some sv', servo_state := state\<rparr>,
                      tr1 @ [Servo_sample (corrected_offset c1 offset) ts] @
                      clock_dispatch (clkid c) state (corrected_offset c1 offset) ppb @
                      [Pr_info (if 0 \<le>s delay
                         then ''%s offset %9lld s%d freq %+7.0f delay %6lld''
                         else ''%s offset %9lld s%d freq %+7.0f'')]))"
proof -
  have k: "clkid c1 = clkid c"
    using update_sync_offset_frame [OF u] by (simp add: leap_frame_def)
  show ?thesis
    using s by (simp add: update_clock_def bind_f_def u sv Let_def corrected_offset_def k)
qed

lemma update_clock_needs_servo:
  assumes "update_sync_offset X inp c offset ts = Inr ((0, c1), tr1)"
    and "update_clock X inp c offset ts delay = Inr (c2, tr2)"
  shows "servo c1 \<noteq> None"
  using assms by (cases "servo c1") (simp_all add: update_clock_def bind_f_def Let_def)

subsection \<open>The dispatch on the servo state\<close>

text \<open>
  Claim C5. For every call of \<open>update_clock\<close> in which \<open>update_sync_offset\<close> returns 0
  and that returns, with the corrected offset \<open>o\<close> (lines 178 to 180) and the servo output
  \<open>ppb\<close> and \<open>state\<close>: after the trace of \<open>update_sync_offset\<close> and the call of the
  servo, the clock is not touched in state \<^verbatim>\<open>SERVO_UNLOCKED\<close>; in state \<^verbatim>\<open>SERVO_JUMP\<close> it
  is stepped by \<open>-o\<close> and then its frequency is set to \<open>-ppb\<close>; in state
  \<^verbatim>\<open>SERVO_LOCKED\<close> only its frequency is set to \<open>-ppb\<close>. What follows in the trace is the
  report, made of log lines only. The value given to \<^verbatim>\<open>clockadj_set_freq\<close> is always the
  negation of the servo output.
\<close>

theorem update_clock_dispatch:
  assumes u: "update_sync_offset X inp c offset ts = Inr ((0, c1), tr1)"
    and sv: "servo c1 = Some sv"
    and s: "servo_sample X sv (corrected_offset c1 offset) ts = (ppb, state, sv')"
    and r: "update_clock X inp c offset ts delay = Inr (c2, tr2)"
  shows "\<exists>report.
           tr2 = tr1 @ [Servo_sample (corrected_offset c1 offset) ts] @
                 (case state of
                    SERVO_UNLOCKED \<Rightarrow> []
                  | SERVO_JUMP \<Rightarrow> [Clockadj_step (clkid c) (- corrected_offset c1 offset),
                                  Clockadj_set_freq (clkid c) (- ppb)]
                  | SERVO_LOCKED \<Rightarrow> [Clockadj_set_freq (clkid c) (- ppb)]) @ report \<and>
           (\<forall>a \<in> set report. \<exists>m. a = Pr_info m)"
proof (cases "offset_stats c1 \<noteq> None")
  case False
  then show ?thesis
    using r unfolding update_clock_consume [OF u sv s]
    by (auto simp: clock_dispatch_def)
next
  case True
  then have "emit (tr1 @ [Servo_sample (corrected_offset c1 offset) ts] @
                   clock_dispatch (clkid c) state (corrected_offset c1 offset) ppb)
               (update_clock_stats X (c1\<lparr>servo := Some sv', servo_state := state\<rparr>)
                  (corrected_offset c1 offset) ppb delay) = Inr (c2, tr2)"
    using r unfolding update_clock_consume [OF u sv s] by simp
  from emit_Inr [OF this] obtain t' where
    st: "update_clock_stats X (c1\<lparr>servo := Some sv', servo_state := state\<rparr>)
           (corrected_offset c1 offset) ppb delay = Inr (c2, t')"
    and t: "tr2 = (tr1 @ [Servo_sample (corrected_offset c1 offset) ts] @
                   clock_dispatch (clkid c) state (corrected_offset c1 offset) ppb) @ t'"
    by auto
  have "\<forall>a \<in> set t'. \<exists>m. a = Pr_info m"
    using update_clock_stats_report [OF st] by simp
  then show ?thesis
    using t by (auto simp: clock_dispatch_def)
qed

text \<open>The example servo jumps at its second sample, here with the forced offset of 37 s
  subtracted from the measured 5000 ns.\<close>

theorem update_clock_dispatch_witness:
  "update_sync_offset example_extern example_inputs
     (example_clock\<lparr>servo := Some 1, sync_offset := 37, sync_offset_direction := - 1\<rparr>) 5000 100 =
     Inr ((0, example_clock\<lparr>servo := Some 1, sync_offset := 37, sync_offset_direction := - 1\<rparr>), []) \<and>
   corrected_offset (example_clock\<lparr>servo := Some 1, sync_offset := 37, sync_offset_direction := - 1\<rparr>)
     5000 = - 36999995000 \<and>
   servo_sample example_extern 1 (- 36999995000) 100 = (100, SERVO_JUMP, 2) \<and>
   update_clock example_extern example_inputs
     (example_clock\<lparr>servo := Some 1, sync_offset := 37, sync_offset_direction := - 1\<rparr>) 5000 100 20 =
     Inr (example_clock\<lparr>servo := Some 2, sync_offset := 37, sync_offset_direction := - 1,
                          servo_state := SERVO_JUMP\<rparr>,
          [Servo_sample (- 36999995000) 100, Clockadj_step CLOCK_REALTIME 36999995000,
           Clockadj_set_freq CLOCK_REALTIME (- 100),
           Pr_info ''%s offset %9lld s%d freq %+7.0f delay %6lld''])"
proof -
  let ?c = "example_clock\<lparr>servo := Some 1, sync_offset := 37, sync_offset_direction := - 1\<rparr>"
  have u: "update_sync_offset example_extern example_inputs ?c 5000 100 = Inr ((0, ?c), [])"
    by (simp add: update_sync_offset_def update_sync_offset_refresh_def update_sync_offset_leap_def
          bind_f_def emit_def example_clock_def)
  have sv: "servo ?c = Some 1" by simp
  have o: "corrected_offset ?c 5000 = - 36999995000"
    by (simp add: corrected_offset_def NS_PER_SEC_def)
  have s: "servo_sample example_extern 1 (corrected_offset ?c 5000) 100 = (100, SERVO_JUMP, 2)"
    by (simp add: example_extern_def)
  have r: "update_clock example_extern example_inputs ?c 5000 100 20 =
     Inr (example_clock\<lparr>servo := Some 2, sync_offset := 37, sync_offset_direction := - 1,
                          servo_state := SERVO_JUMP\<rparr>,
          [Servo_sample (- 36999995000) 100, Clockadj_step CLOCK_REALTIME 36999995000,
           Clockadj_set_freq CLOCK_REALTIME (- 100),
           Pr_info ''%s offset %9lld s%d freq %+7.0f delay %6lld''])"
    unfolding update_clock_consume [OF u sv s]
    by (simp add: corrected_offset_def NS_PER_SEC_def clock_dispatch_def example_clock_def
          word_sle_eq)
  show ?thesis
    using u o s r update_clock_dispatch [OF u sv s r] by simp
qed

subsection \<open>A sample is consumed or discarded\<close>

text \<open>
  Claim C7. For every call of \<open>update_clock\<close> in which \<open>update_sync_offset\<close> returns a
  nonzero value, \<open>update_clock\<close> returns with the clock and the trace as
  \<open>update_sync_offset\<close> left them: the servo and its state and the three statistics
  accumulators are as before the call, and the trace has no call of the servo and no
  clock adjustment. When \<open>update_sync_offset\<close> returns 0 and \<open>update_clock\<close> returns,
  the sample is consumed: the servo is sampled with the corrected offset and its new
  state stored, the clock action of that state is issued, and the sample is reported
  (one value more in the offset statistics, or these reset at the end of a window, or a
  log line when there are no statistics).
\<close>

theorem update_clock_all_or_nothing:
  assumes u: "update_sync_offset X inp c offset ts = Inr ((r, c1), tr1)"
  shows "(r \<noteq> 0 \<longrightarrow>
            update_clock X inp c offset ts delay = Inr (c1, tr1) \<and>
            servo c1 = servo c \<and> servo_state c1 = servo_state c \<and>
            offset_stats c1 = offset_stats c \<and> freq_stats c1 = freq_stats c \<and>
            delay_stats c1 = delay_stats c \<and> (\<forall>a \<in> set tr1. \<not> servo_or_adjust a)) \<and>
         (r = 0 \<longrightarrow>
            (\<forall>c2 tr2. update_clock X inp c offset ts delay = Inr (c2, tr2) \<longrightarrow>
               (\<exists>sv ppb state sv' report.
                  servo c1 = Some sv \<and>
                  servo_sample X sv (corrected_offset c1 offset) ts = (ppb, state, sv') \<and>
                  servo c2 = Some sv' \<and> servo_state c2 = state \<and>
                  tr2 = tr1 @ [Servo_sample (corrected_offset c1 offset) ts] @
                        clock_dispatch (clkid c) state (corrected_offset c1 offset) ppb @ report \<and>
                  (case offset_stats c1 of
                     None \<Rightarrow> (\<exists>m. report = [Pr_info m]) \<and> offset_stats c2 = None
                   | Some xs \<Rightarrow>
                       offset_stats c2 = Some (xs @ [double_of_int64 X (corrected_offset c1 offset)]) \<or>
                       offset_stats c2 = Some []))))"
proof (intro conjI impI allI)
  assume n: "r \<noteq> 0"
  show "update_clock X inp c offset ts delay = Inr (c1, tr1)"
    using update_clock_discard [OF u n] .
  show "servo c1 = servo c" "servo_state c1 = servo_state c" "offset_stats c1 = offset_stats c"
    "freq_stats c1 = freq_stats c" "delay_stats c1 = delay_stats c"
    using update_sync_offset_frame [OF u] by (simp_all add: leap_frame_def)
  show "\<forall>a \<in> set tr1. \<not> servo_or_adjust a"
    using update_sync_offset_discard [OF u n] .
next
  fix c2 tr2
  assume z: "r = 0" and r: "update_clock X inp c offset ts delay = Inr (c2, tr2)"
  have u0: "update_sync_offset X inp c offset ts = Inr ((0, c1), tr1)"
    using u z by simp
  obtain sv where sv: "servo c1 = Some sv"
    using update_clock_needs_servo [OF u0 r] by auto
  obtain ppb state sv' where
    s: "servo_sample X sv (corrected_offset c1 offset) ts = (ppb, state, sv')"
    by (metis surj_pair)
  let ?tr = "tr1 @ [Servo_sample (corrected_offset c1 offset) ts] @
             clock_dispatch (clkid c) state (corrected_offset c1 offset) ppb"
  let ?c = "c1\<lparr>servo := Some sv', servo_state := state\<rparr>"
  have "\<exists>report. servo c2 = Some sv' \<and> servo_state c2 = state \<and> tr2 = ?tr @ report \<and>
          (case offset_stats c1 of
             None \<Rightarrow> (\<exists>m. report = [Pr_info m]) \<and> offset_stats c2 = None
           | Some xs \<Rightarrow>
               offset_stats c2 = Some (xs @ [double_of_int64 X (corrected_offset c1 offset)]) \<or>
               offset_stats c2 = Some [])"
  proof (cases "offset_stats c1")
    case None
    then show ?thesis
      using r unfolding update_clock_consume [OF u0 sv s] by auto
  next
    case (Some xs)
    then have "emit ?tr (update_clock_stats X ?c (corrected_offset c1 offset) ppb delay) =
               Inr (c2, tr2)"
      using r unfolding update_clock_consume [OF u0 sv s] by simp
    from emit_Inr [OF this] obtain t' where
      st: "update_clock_stats X ?c (corrected_offset c1 offset) ppb delay = Inr (c2, t')"
      and t: "tr2 = ?tr @ t'"
      by auto
    show ?thesis
      using update_clock_stats_report [OF st] t Some by auto
  qed
  then show "\<exists>sv ppb state sv' report.
       servo c1 = Some sv \<and>
       servo_sample X sv (corrected_offset c1 offset) ts = (ppb, state, sv') \<and>
       servo c2 = Some sv' \<and> servo_state c2 = state \<and>
       tr2 = tr1 @ [Servo_sample (corrected_offset c1 offset) ts] @
             clock_dispatch (clkid c) state (corrected_offset c1 offset) ppb @ report \<and>
       (case offset_stats c1 of
          None \<Rightarrow> (\<exists>m. report = [Pr_info m]) \<and> offset_stats c2 = None
        | Some xs \<Rightarrow>
            offset_stats c2 = Some (xs @ [double_of_int64 X (corrected_offset c1 offset)]) \<or>
            offset_stats c2 = Some [])"
    using sv s by auto
qed

text \<open>
  A sample in the ambiguous second with a leap pending is discarded; a sample with no leap
  pending is consumed: the servo (at its second sample) jumps, the clock is stepped and
  its frequency set, and the sample is logged.
\<close>

theorem update_clock_all_or_nothing_witness:
  "update_sync_offset example_extern example_inputs (example_clock\<lparr>leap := 1\<rparr>) 0 86399500000000 =
     Inr ((- 1, example_clock\<lparr>leap := 1\<rparr>),
          [Pr_info ''clock update suspended due to leap second'']) \<and>
   update_clock example_extern example_inputs (example_clock\<lparr>leap := 1\<rparr>) 0 86399500000000 20 =
     Inr (example_clock\<lparr>leap := 1\<rparr>, [Pr_info ''clock update suspended due to leap second'']) \<and>
   \<not> servo_or_adjust (Pr_info ''clock update suspended due to leap second'' :: int action) \<and>
   update_sync_offset example_extern example_inputs (example_clock\<lparr>servo := Some 1\<rparr>) 5000 100 =
     Inr ((0, example_clock\<lparr>servo := Some 1\<rparr>), []) \<and>
   update_clock example_extern example_inputs (example_clock\<lparr>servo := Some 1\<rparr>) 5000 100 20 =
     Inr (example_clock\<lparr>servo := Some 2, servo_state := SERVO_JUMP\<rparr>,
          [Servo_sample 5000 100, Clockadj_step CLOCK_REALTIME (- 5000),
           Clockadj_set_freq CLOCK_REALTIME (- 100),
           Pr_info ''%s offset %9lld s%d freq %+7.0f delay %6lld''])"
proof -
  have u: "update_sync_offset example_extern example_inputs (example_clock\<lparr>leap := 1\<rparr>) 0
             86399500000000 =
           Inr ((- 1, example_clock\<lparr>leap := 1\<rparr>),
                [Pr_info ''clock update suspended due to leap second''])"
    by (simp add: update_sync_offset_def update_sync_offset_refresh_def update_sync_offset_leap_def
          bind_f_def emit_def example_extern_def example_clock_def example_inputs_def Let_def
          NS_PER_SEC_def)
  let ?c = "example_clock\<lparr>servo := Some 1\<rparr>"
  have u2: "update_sync_offset example_extern example_inputs ?c 5000 100 = Inr ((0, ?c), [])"
    by (simp add: update_sync_offset_def update_sync_offset_refresh_def update_sync_offset_leap_def
          bind_f_def emit_def example_clock_def)
  have sv: "servo ?c = Some 1" by simp
  have s: "servo_sample example_extern 1 (corrected_offset ?c 5000) 100 = (100, SERVO_JUMP, 2)"
    by (simp add: example_extern_def)
  have r: "update_clock example_extern example_inputs ?c 5000 100 20 =
     Inr (example_clock\<lparr>servo := Some 2, servo_state := SERVO_JUMP\<rparr>,
          [Servo_sample 5000 100, Clockadj_step CLOCK_REALTIME (- 5000),
           Clockadj_set_freq CLOCK_REALTIME (- 100),
           Pr_info ''%s offset %9lld s%d freq %+7.0f delay %6lld''])"
    unfolding update_clock_consume [OF u2 sv s]
    by (simp add: corrected_offset_def clock_dispatch_def example_clock_def word_sle_eq)
  show ?thesis
    using u r u2 update_clock_all_or_nothing [OF u, of 20]
      update_clock_all_or_nothing [OF u2, of 20]
    by simp
qed

section \<open>Properties of the sampling loops\<close>

lemma read_phc_result:
  assumes "read_phc master sysclk n reads outs = ((r, outs'), tr)"
  shows "(r = 0 \<and> tr = [Pr_err ''failed to read clock: %m'']) \<or> (r = 1 \<and> tr = [])"
  using assms
  by (auto simp: read_phc_def split: prod.splits bool.splits)

lemma word_floor_NS:
  "uint ((x :: 64 word) div 1000000000 * 1000000000) = uint x div 1000000000 * 1000000000"
proof -
  have a: "uint (x div 1000000000) = uint x div 1000000000"
    by (simp add: uint_div)
  have "uint x div 1000000000 * 1000000000 = uint x - uint x mod 1000000000"
    by (simp add: minus_mod_eq_div_mult)
  also have "\<dots> \<le> uint x"
    by simp
  also have "uint x < 2 ^ 64"
    using uint_lt2p [of x] by simp
  finally have b: "uint x div 1000000000 * 1000000000 < 2 ^ 64" .
  have c: "0 \<le> uint x div 1000000000 * 1000000000"
    by (simp add: pos_imp_zdiv_nonneg_iff)
  have "uint (x div 1000000000 * 1000000000) =
        (uint (x div 1000000000) * uint (1000000000 :: 64 word)) mod 2 ^ 64"
    by (simp add: uint_word_ariths)
  also have "\<dots> = (uint x div 1000000000 * 1000000000) mod 2 ^ 64"
    by (simp add: a)
  also have "\<dots> = uint x div 1000000000 * 1000000000"
    using b c by (simp only: mod_pos_pos_trivial)
  finally show ?thesis .
qed

lemma read_phc_example:
  "read_phc (FD_TO_CLOCKID 3) CLOCK_REALTIME 1 (example_reads nsec) (0, 0, 0) =
     ((1, - 37000000000 - nsec + 5, 100000000010, 10), ([] :: 'd action list))"
  by (simp add: read_phc_def read_phc_loop.simps example_reads_def INT64_MAX_def NS_PER_SEC_def
        Let_def sdiv64_def signed_divide_int_def)

lemma read_phc_failing:
  "read_phc (FD_TO_CLOCKID 3) CLOCK_REALTIME 1 failing_reads (0, 0, 0) =
     ((0, 0, 0, 0), ([Pr_err ''failed to read clock: %m''] :: 'd action list))"
  by (simp add: read_phc_def read_phc_loop.simps failing_reads_def)

lemma update_clock_example:
  "update_clock example_extern inp example_clock offset ts (- 1) =
     Inr (example_clock\<lparr>servo := Some 1\<rparr>,
          [Servo_sample offset ts, Pr_info ''%s offset %9lld s%d freq %+7.0f''])"
proof -
  have u: "update_sync_offset example_extern inp example_clock offset ts =
           Inr ((0, example_clock), [])"
    by (simp add: update_sync_offset_def update_sync_offset_refresh_def update_sync_offset_leap_def
          bind_f_def emit_def example_clock_def)
  have sv: "servo example_clock = Some 0"
    by (simp add: example_clock_def)
  have s: "servo_sample example_extern 0 (corrected_offset example_clock offset) ts =
           (100, SERVO_UNLOCKED, 1)"
    by (simp add: example_extern_def)
  show ?thesis
    unfolding update_clock_consume [OF u sv s]
    by (simp add: corrected_offset_def clock_dispatch_def example_clock_def word_sle_eq)
qed

subsection \<open>The hybrid PPS and PHC sample\<close>

text \<open>
  Claim C4. In an iteration of \<open>do_pps_loop\<close> with a PHC as the master, a PPS time stamp
  \<open>pps_ts\<close> and a successful cross-sample \<open>(phc_offset, phc_ts)\<close>, let
  \<open>phc_ts_in_phc = phc_ts - phc_offset\<close>. If \<open>phc_ts_in_phc mod 10\<^sup>9\<close> is above
  \<open>10\<^sup>7\<close>, the iteration only emits the warning: the clock is unchanged and neither
  \<open>update_clock\<close> nor the servo is called. Otherwise the iteration is the call of
  \<open>update_clock\<close> with the offset \<open>pps_ts - phc_ts_in_phc div 10\<^sup>9 * 10\<^sup>9\<close>, the time
  stamp \<open>pps_ts\<close> and the delay \<open>-1\<close>; the subtracted word is the whole number of
  seconds of \<open>phc_ts_in_phc\<close> as an unsigned number. A residue of \<open>10\<^sup>7 - 1\<close> is accepted
  and one of \<open>10\<^sup>7 + 1\<close> is skipped.
\<close>

theorem do_pps_body_hybrid:
  fixes X :: "('s, 'd::uminus) extern" and tr' :: "'d action list"
  assumes m: "master \<noteq> CLOCK_INVALID"
    and p: "pps_fetch inp = Some (sec, nsec)"
    and r: "read_phc master (clkid c) n_readings (phc_reads inp) phc =
              ((1, phc_offset, phc_ts, phc_delay), tr')"
    and x: "phc_ts_in_phc = phc_ts - phc_offset"
    and t: "pps_ts = sec * NS_PER_SEC + scast nsec"
  shows "(PHC_PPS_OFFSET_LIMIT < phc_ts_in_phc mod NS_PER_SEC \<longrightarrow>
            do_pps_body X c master n_readings phc inp =
              Inr ((Continue, c, phc_offset, phc_ts_in_phc, phc_delay),
                   [Pr_warning ''PPS is not in sync with PHC (0.%09lld)''])) \<and>
         (\<not> PHC_PPS_OFFSET_LIMIT < phc_ts_in_phc mod NS_PER_SEC \<longrightarrow>
            do_pps_body X c master n_readings phc inp =
              bind_f (update_clock X inp c
                        (pps_ts - phc_ts_in_phc div NS_PER_SEC * NS_PER_SEC) pps_ts (- 1))
                (\<lambda>(c1, tr1). Inr ((Continue, c1, phc_offset,
                                    phc_ts_in_phc div NS_PER_SEC * NS_PER_SEC, phc_delay), tr1))) \<and>
         uint (phc_ts_in_phc div NS_PER_SEC * NS_PER_SEC) =
           uint phc_ts_in_phc div 1000000000 * 1000000000 \<and>
         (uint (phc_ts_in_phc mod NS_PER_SEC) = 10000000 - 1 \<longrightarrow>
            \<not> PHC_PPS_OFFSET_LIMIT < phc_ts_in_phc mod NS_PER_SEC) \<and>
         (uint (phc_ts_in_phc mod NS_PER_SEC) = 10000000 + 1 \<longrightarrow>
            PHC_PPS_OFFSET_LIMIT < phc_ts_in_phc mod NS_PER_SEC)"
proof -
  have tr': "tr' = []"
    using read_phc_result [OF r] by simp
  have pps: "read_pps (pps_fetch inp) (0, 0) =
             ((1, (if sdiv64 NS_PER_SEC 2 <s pps_ts mod NS_PER_SEC
                   then pps_ts mod NS_PER_SEC - NS_PER_SEC else pps_ts mod NS_PER_SEC), pps_ts),
              ([] :: 'd action list))"
    by (simp add: read_pps_def p t Let_def)
  have skip: "do_pps_body X c master n_readings phc inp =
              Inr ((Continue, c, phc_offset, phc_ts_in_phc, phc_delay),
                   [Pr_warning ''PPS is not in sync with PHC (0.%09lld)''])"
    if "PHC_PPS_OFFSET_LIMIT < phc_ts_in_phc mod NS_PER_SEC"
    using that m by (simp add: do_pps_body_def pps r tr' x Let_def)
  have feed: "do_pps_body X c master n_readings phc inp =
              bind_f (update_clock X inp c
                        (pps_ts - phc_ts_in_phc div NS_PER_SEC * NS_PER_SEC) pps_ts (- 1))
                (\<lambda>(c1, tr1). Inr ((Continue, c1, phc_offset,
                                    phc_ts_in_phc div NS_PER_SEC * NS_PER_SEC, phc_delay), tr1))"
    if "\<not> PHC_PPS_OFFSET_LIMIT < phc_ts_in_phc mod NS_PER_SEC"
    using that m by (simp add: do_pps_body_def pps r tr' x Let_def)
  have fl: "uint (phc_ts_in_phc div NS_PER_SEC * NS_PER_SEC) =
            uint phc_ts_in_phc div 1000000000 * 1000000000"
    by (simp add: NS_PER_SEC_def word_floor_NS)
  have lo: "\<not> PHC_PPS_OFFSET_LIMIT < phc_ts_in_phc mod NS_PER_SEC"
    if "uint (phc_ts_in_phc mod NS_PER_SEC) = 10000000 - 1"
    using that by (simp add: word_less_def PHC_PPS_OFFSET_LIMIT_def)
  have hi: "PHC_PPS_OFFSET_LIMIT < phc_ts_in_phc mod NS_PER_SEC"
    if "uint (phc_ts_in_phc mod NS_PER_SEC) = 10000000 + 1"
    using that by (simp add: word_less_def PHC_PPS_OFFSET_LIMIT_def)
  show ?thesis
    using skip feed fl lo hi by blast
qed

text \<open>
  The master reads 137.009999994 s between two slave readings 10 ns apart: the residue is
  \<open>10\<^sup>7 - 1\<close> ns and the servo is fed the offset of the PPS edge from 137 s. With the
  master 2 ns later the residue is \<open>10\<^sup>7 + 1\<close> ns and the sample is skipped.
\<close>

theorem do_pps_body_hybrid_witness:
  "FD_TO_CLOCKID 3 \<noteq> CLOCK_INVALID \<and>
   pps_fetch (example_inputs\<lparr>phc_reads := example_reads 9999994\<rparr>) = Some (100, 3) \<and>
   read_phc (FD_TO_CLOCKID 3) (clkid example_clock) 1
     (phc_reads (example_inputs\<lparr>phc_reads := example_reads 9999994\<rparr>)) (0, 0, 0) =
     ((1, - 37009999989, 100000000010, 10), ([] :: int action list)) \<and>
   (100000000010 - (- 37009999989 :: 64 word)) mod NS_PER_SEC = 9999999 \<and>
   do_pps_body example_extern example_clock (FD_TO_CLOCKID 3) 1 (0, 0, 0)
     (example_inputs\<lparr>phc_reads := example_reads 9999994\<rparr>) =
     Inr ((Continue, example_clock\<lparr>servo := Some 1\<rparr>, - 37009999989, 137000000000, 10),
          [Servo_sample (- 36999999997) 100000000003, Pr_info ''%s offset %9lld s%d freq %+7.0f'']) \<and>
   read_phc (FD_TO_CLOCKID 3) (clkid example_clock) 1
     (phc_reads (example_inputs\<lparr>phc_reads := example_reads 9999996\<rparr>)) (0, 0, 0) =
     ((1, - 37009999991, 100000000010, 10), ([] :: int action list)) \<and>
   (100000000010 - (- 37009999991 :: 64 word)) mod NS_PER_SEC = 10000001 \<and>
   do_pps_body example_extern example_clock (FD_TO_CLOCKID 3) 1 (0, 0, 0)
     (example_inputs\<lparr>phc_reads := example_reads 9999996\<rparr>) =
     Inr ((Continue, example_clock, - 37009999991, 137010000001, 10),
          [Pr_warning ''PPS is not in sync with PHC (0.%09lld)''])"
proof -
  let ?lo = "example_inputs\<lparr>phc_reads := example_reads 9999994\<rparr>"
  let ?hi = "example_inputs\<lparr>phc_reads := example_reads 9999996\<rparr>"
  have m: "FD_TO_CLOCKID 3 \<noteq> CLOCK_INVALID" by simp
  have k: "clkid example_clock = CLOCK_REALTIME" by (simp add: example_clock_def)
  have plo: "pps_fetch ?lo = Some (100, 3)" and phi: "pps_fetch ?hi = Some (100, 3)"
    by (simp_all add: example_inputs_def)
  have rlo: "read_phc (FD_TO_CLOCKID 3) (clkid example_clock) 1 (phc_reads ?lo) (0, 0, 0) =
             ((1, - 37009999989, 100000000010, 10), ([] :: int action list))"
    by (simp add: k read_phc_example)
  have rhi: "read_phc (FD_TO_CLOCKID 3) (clkid example_clock) 1 (phc_reads ?hi) (0, 0, 0) =
             ((1, - 37009999991, 100000000010, 10), ([] :: int action list))"
    by (simp add: k read_phc_example)
  have xlo: "(137009999999 :: 64 word) = 100000000010 - (- 37009999989)" by simp
  have xhi: "(137010000001 :: 64 word) = 100000000010 - (- 37009999991)" by simp
  have t: "(100000000003 :: 64 word) = 100 * NS_PER_SEC + scast (3 :: 32 word)"
    by (simp add: NS_PER_SEC_def)
  note lo = do_pps_body_hybrid [OF m plo rlo xlo t, of example_extern]
  note hi = do_pps_body_hybrid [OF m phi rhi xhi t, of example_extern]
  have "\<not> PHC_PPS_OFFSET_LIMIT < (137009999999 :: 64 word) mod NS_PER_SEC"
    by (simp add: PHC_PPS_OFFSET_LIMIT_def NS_PER_SEC_def)
  then have a: "do_pps_body example_extern example_clock (FD_TO_CLOCKID 3) 1 (0, 0, 0) ?lo =
     Inr ((Continue, example_clock\<lparr>servo := Some 1\<rparr>, - 37009999989, 137000000000, 10),
          [Servo_sample (- 36999999997) 100000000003, Pr_info ''%s offset %9lld s%d freq %+7.0f''])"
    using lo by (simp add: NS_PER_SEC_def update_clock_example bind_f_def)
  have "PHC_PPS_OFFSET_LIMIT < (137010000001 :: 64 word) mod NS_PER_SEC"
    by (simp add: PHC_PPS_OFFSET_LIMIT_def NS_PER_SEC_def)
  then have b: "do_pps_body example_extern example_clock (FD_TO_CLOCKID 3) 1 (0, 0, 0) ?hi =
     Inr ((Continue, example_clock, - 37009999991, 137010000001, 10),
          [Pr_warning ''PPS is not in sync with PHC (0.%09lld)''])"
    using hi by simp
  show ?thesis
    using m plo rlo rhi a b by (simp add: NS_PER_SEC_def)
qed

subsection \<open>A failed read in a sampling loop\<close>

text \<open>
  Claim C6 says that in the PPS, the hybrid and the PHC loop a failed clock read or PPS
  fetch is logged and skipped, and the loop retries. In the hybrid loop a failed
  \<open>read_phc\<close> is followed by \<^verbatim>\<open>return -1\<close> (line 254): with a PPS edge fetched, the PHC
  read failing and a good sample waiting as the next input, \<open>do_pps_loop\<close> returns
  \<open>-1\<close> after the log line and never reads the next input.
\<close>

theorem do_pps_loop_phc_failure_ends_loop:
  "do_pps_loop example_extern example_clock 4 (FD_TO_CLOCKID 3) 1 (0, 0, 0)
     [example_inputs\<lparr>phc_reads := failing_reads\<rparr>, example_inputs] =
     Inr ((Returned (- 1), example_clock\<lparr>source_label := ''pps''\<rparr>),
          [Pr_err ''failed to read clock: %m'']) \<and>
   pps_fetch (example_inputs\<lparr>phc_reads := failing_reads\<rparr>) = Some (100, 3)"
proof -
  have k: "clkid (example_clock\<lparr>source_label := ''pps''\<rparr>) = CLOCK_REALTIME"
    by (simp add: example_clock_def)
  show ?thesis
    by (simp add: do_pps_loop_def Let_def do_pps_body_def read_pps_def k read_phc_failing
          example_inputs_def)
qed

text \<open>
  Claim C6 as amended. A failed PPS fetch in \<open>do_pps_loop\<close> (pure or hybrid) and a
  failed clock read in \<open>do_phc_loop\<close> are not fatal: the iteration logs the error, leaves
  the clock structure as it is and calls neither \<open>update_clock\<close> nor the servo, and the
  loop goes on with the next iteration (the run on the remaining inputs, from the same
  clock). A failed clock read of the PHC in the hybrid loop ends \<open>do_pps_loop\<close> with
  \<open>-1\<close>, after the log line and without a call of the servo.
\<close>

theorem sampling_loops_failed_read:
  fixes X :: "('s, 'd::uminus) extern" and tr' tr'' :: "'d action list"
  shows
    "(pps_fetch inp = None \<longrightarrow>
        do_pps_loop X c fd master n_readings phc (inp # rest) =
          emit [Pr_err ''failed to fetch PPS: %m'']
            (do_pps_loop X c fd master n_readings phc rest)) \<and>
     (rate \<noteq> 0 \<and>
      read_phc master (clkid c) n_readings (phc_reads inp) outs = ((0, outs'), tr') \<longrightarrow>
        do_phc_loop X c master rate n_readings outs (inp # rest) =
          emit [Usleep (word_of_int (1000000 sdiv sint rate)), Pr_err ''failed to read clock: %m'']
            (do_phc_loop X c master rate n_readings outs' rest)) \<and>
     (master \<noteq> CLOCK_INVALID \<and> pps_fetch inp \<noteq> None \<and>
      read_phc master (clkid c) n_readings (phc_reads inp) phc = ((0, phc'), tr'') \<longrightarrow>
        do_pps_loop X c fd master n_readings phc (inp # rest) =
          Inr ((Returned (- 1), c\<lparr>source_label := ''pps''\<rparr>),
               [Pr_err ''failed to read clock: %m'']))"
proof (intro conjI impI)
  assume p: "pps_fetch inp = None"
  have b: "do_pps_body X c' master n_readings phc inp =
           Inr ((Continue, c', phc), [Pr_err ''failed to fetch PPS: %m''])" for c' :: "('s, 'd) clock"
    by (simp add: do_pps_body_def read_pps_def p)
  show "do_pps_loop X c fd master n_readings phc (inp # rest) =
          emit [Pr_err ''failed to fetch PPS: %m'']
            (do_pps_loop X c fd master n_readings phc rest)"
    by (simp add: do_pps_loop_def Let_def b)
next
  assume a: "rate \<noteq> 0 \<and>
      read_phc master (clkid c) n_readings (phc_reads inp) outs = ((0, outs'), tr')"
  then have r: "read_phc master (clkid c) n_readings (phc_reads inp) outs = ((0, outs'), tr')"
    and rate: "rate \<noteq> 0"
    by simp_all
  have tr': "tr' = [Pr_err ''failed to read clock: %m'']"
    using read_phc_result [OF r] by simp
  obtain offset ts delay where o: "outs' = (offset, ts, delay)"
    by (cases outs')
  have b: "do_phc_body X (c\<lparr>source_label := ''phc''\<rparr>) master rate n_readings outs inp =
           Inr ((Continue, c\<lparr>source_label := ''phc''\<rparr>, outs'),
                [Usleep (word_of_int (1000000 sdiv sint rate)), Pr_err ''failed to read clock: %m''])"
    using r rate by (simp add: do_phc_body_def usleep_rate_def bind_f_def o tr')
  show "do_phc_loop X c master rate n_readings outs (inp # rest) =
          emit [Usleep (word_of_int (1000000 sdiv sint rate)), Pr_err ''failed to read clock: %m'']
            (do_phc_loop X c master rate n_readings outs' rest)"
    by (simp add: do_phc_loop_def b)
next
  assume a: "master \<noteq> CLOCK_INVALID \<and> pps_fetch inp \<noteq> None \<and>
      read_phc master (clkid c) n_readings (phc_reads inp) phc = ((0, phc'), tr'')"
  then have m: "master \<noteq> CLOCK_INVALID"
    and r: "read_phc master (clkid c) n_readings (phc_reads inp) phc = ((0, phc'), tr'')"
    by simp_all
  obtain sec nsec where p: "pps_fetch inp = Some (sec, nsec)"
    using a by auto
  have tr'': "tr'' = [Pr_err ''failed to read clock: %m'']"
    using read_phc_result [OF r] by simp
  obtain offset ts delay where o: "phc' = (offset, ts, delay)"
    by (cases phc')
  have b: "do_pps_body X (c\<lparr>source_label := ''pps''\<rparr>) master n_readings phc inp =
           Inr ((Return (- 1), c\<lparr>source_label := ''pps''\<rparr>, phc'),
                [Pr_err ''failed to read clock: %m''])"
    using r m by (simp add: do_pps_body_def read_pps_def p Let_def o tr'')
  show "do_pps_loop X c fd master n_readings phc (inp # rest) =
          Inr ((Returned (- 1), c\<lparr>source_label := ''pps''\<rparr>),
               [Pr_err ''failed to read clock: %m''])"
    using m by (simp add: do_pps_loop_def Let_def b)
qed

text \<open>
  A pure PPS loop whose first fetch fails takes the next sample; a PHC loop whose read
  fails is still running; a hybrid loop whose PHC read fails has returned \<open>-1\<close>.
\<close>

theorem sampling_loops_failed_read_witness:
  "pps_fetch (example_inputs\<lparr>pps_fetch := None\<rparr>) = None \<and>
   do_pps_loop example_extern example_clock 4 CLOCK_INVALID 1 (0, 0, 0)
     [example_inputs\<lparr>pps_fetch := None\<rparr>, example_inputs] =
     Inr ((Running, example_clock\<lparr>source_label := ''pps'', servo := Some 1\<rparr>),
          [Pr_err ''failed to fetch PPS: %m'', Servo_sample 3 100000000003,
           Pr_info ''%s offset %9lld s%d freq %+7.0f'']) \<and>
   (1 :: cint) \<noteq> 0 \<and>
   read_phc (FD_TO_CLOCKID 3) (clkid example_clock) 1
     (phc_reads (example_inputs\<lparr>phc_reads := failing_reads\<rparr>)) (0, 0, 0) =
     ((0, 0, 0, 0), ([Pr_err ''failed to read clock: %m''] :: int action list)) \<and>
   do_phc_loop example_extern example_clock (FD_TO_CLOCKID 3) 1 1 (0, 0, 0)
     [example_inputs\<lparr>phc_reads := failing_reads\<rparr>] =
     Inr ((Running, example_clock\<lparr>source_label := ''phc''\<rparr>),
          [Usleep 1000000, Pr_err ''failed to read clock: %m'']) \<and>
   FD_TO_CLOCKID 3 \<noteq> CLOCK_INVALID \<and>
   pps_fetch (example_inputs\<lparr>phc_reads := failing_reads\<rparr>) \<noteq> None \<and>
   do_pps_loop example_extern example_clock 4 (FD_TO_CLOCKID 3) 1 (0, 0, 0)
     [example_inputs\<lparr>phc_reads := failing_reads\<rparr>] =
     Inr ((Returned (- 1), example_clock\<lparr>source_label := ''pps''\<rparr>),
          [Pr_err ''failed to read clock: %m''])"
proof -
  let ?nopps = "example_inputs\<lparr>pps_fetch := None\<rparr>"
  let ?nophc = "example_inputs\<lparr>phc_reads := failing_reads\<rparr>"
  have p: "pps_fetch ?nopps = None" by simp
  have q: "pps_fetch ?nophc \<noteq> None" by (simp add: example_inputs_def)
  have k: "clkid example_clock = CLOCK_REALTIME" by (simp add: example_clock_def)
  have r: "read_phc (FD_TO_CLOCKID 3) (clkid example_clock) 1 (phc_reads ?nophc) (0, 0, 0) =
           ((0, 0, 0, 0), ([Pr_err ''failed to read clock: %m''] :: int action list))"
    by (simp add: k read_phc_failing)
  have m: "FD_TO_CLOCKID 3 \<noteq> CLOCK_INVALID" by simp
  have one: "(1 :: cint) \<noteq> 0" by simp
  have c0: "example_clock\<lparr>source_label := ''pps'', sync_offset_direction := 0\<rparr> =
            example_clock\<lparr>source_label := ''pps''\<rparr>"
    by (simp add: example_clock_def)
  have u: "update_clock example_extern example_inputs (example_clock\<lparr>source_label := ''pps''\<rparr>)
             3 100000000003 (- 1) =
           Inr (example_clock\<lparr>source_label := ''pps'', servo := Some 1\<rparr>,
                [Servo_sample 3 100000000003, Pr_info ''%s offset %9lld s%d freq %+7.0f''])"
  proof -
    let ?c = "example_clock\<lparr>source_label := ''pps''\<rparr>"
    have us: "update_sync_offset example_extern example_inputs ?c 3 100000000003 = Inr ((0, ?c), [])"
      by (simp add: update_sync_offset_def update_sync_offset_refresh_def
            update_sync_offset_leap_def bind_f_def emit_def example_clock_def)
    have sv: "servo ?c = Some 0" by (simp add: example_clock_def)
    have s: "servo_sample example_extern 0 (corrected_offset ?c 3) 100000000003 =
             (100, SERVO_UNLOCKED, 1)"
      by (simp add: example_extern_def)
    show ?thesis
      unfolding update_clock_consume [OF us sv s]
      by (simp add: corrected_offset_def clock_dispatch_def example_clock_def word_sle_eq)
  qed
  have good: "do_pps_loop example_extern example_clock 4 CLOCK_INVALID 1 (0, 0, 0) [example_inputs] =
              Inr ((Running, example_clock\<lparr>source_label := ''pps'', servo := Some 1\<rparr>),
                   [Servo_sample 3 100000000003, Pr_info ''%s offset %9lld s%d freq %+7.0f''])"
    by (simp add: do_pps_loop_def Let_def c0 do_pps_body_def read_pps_def example_inputs_def
          NS_PER_SEC_def sdiv64_NS_2 u [unfolded example_inputs_def] bind_f_def emit_def)
  have none: "do_phc_loop example_extern example_clock (FD_TO_CLOCKID 3) 1 1 (0, 0, 0) [] =
              Inr ((Running, example_clock\<lparr>source_label := ''phc''\<rparr>), [])"
    by (simp add: do_phc_loop_def)
  have us: "(word_of_int (1000000 sdiv sint (1 :: cint)) :: cint) = 1000000"
    by (simp add: signed_divide_int_def)
  note t = sampling_loops_failed_read [where X = example_extern and c = example_clock
      and fd = 4 and n_readings = 1 and phc = "(0, 0, 0)" and outs = "(0, 0, 0)" and rate = 1]
  note t1 = t [where inp = ?nopps and master = CLOCK_INVALID and rest = "[example_inputs]",
      THEN conjunct1, rule_format, OF p]
  note t2 = t [where inp = ?nophc and master = "FD_TO_CLOCKID 3" and rest = "[]"
      and outs' = "(0, 0, 0)" and tr' = "[Pr_err ''failed to read clock: %m'']",
      THEN conjunct2, THEN conjunct1, rule_format, OF conjI [OF one r]]
  note t3 = t [where inp = ?nophc and master = "FD_TO_CLOCKID 3" and rest = "[]"
      and phc' = "(0, 0, 0)" and tr'' = "[Pr_err ''failed to read clock: %m'']",
      THEN conjunct2, THEN conjunct2, rule_format, OF conjI [OF m conjI [OF q r]]]
  show ?thesis
    using p q r m t1 t2 t3 by (simp add: good none us emit_def)
qed

section \<open>Properties of \<open>main\<close>\<close>

subsection \<open>The options and the startup\<close>

lemma main_option_unsynchronised:
  "main_option E st c optarg = (Inr st1, tr) \<Longrightarrow> unsynchronised (m_dst_clock st) \<Longrightarrow>
   unsynchronised (m_dst_clock st1)"
  by (auto simp: main_option_def unsynchronised_def Let_def split: if_splits prod.splits)

lemma main_option_O:
  "main_option E st (CHR ''O'') optarg = (Inr st1, tr) \<Longrightarrow>
   m_forced_sync_offset st1 = 1 \<and> sync_offset_direction (m_dst_clock st1) = - 1 \<and>
   sync_offset (m_dst_clock st1) = atoi E optarg"
  by (auto simp: main_option_def)

lemma main_option_other:
  "main_option E st c optarg = (Inr st1, tr) \<Longrightarrow> c \<noteq> CHR ''O'' \<Longrightarrow>
   m_forced_sync_offset st1 = m_forced_sync_offset st \<and>
   sync_offset_direction (m_dst_clock st1) = sync_offset_direction (m_dst_clock st) \<and>
   sync_offset (m_dst_clock st1) = sync_offset (m_dst_clock st)"
  by (auto simp: main_option_def Let_def split: if_splits prod.splits)

lemma main_getopt_unsynchronised:
  "main_getopt E st opts = (Inr st1, tr) \<Longrightarrow> unsynchronised (m_dst_clock st) \<Longrightarrow>
   unsynchronised (m_dst_clock st1)"
proof (induction opts arbitrary: st tr)
  case Nil
  then show ?case by simp
next
  case (Cons x opts)
  obtain c optarg where x: "x = (c, optarg)" by (cases x)
  obtain y t where o: "main_option E st c optarg = (y, t)" by (cases "main_option E st c optarg")
  show ?case
  proof (cases y)
    case (Inl r)
    then show ?thesis using Cons.prems o x by simp
  next
    case (Inr st')
    obtain z t' where g: "main_getopt E st' opts = (z, t')" by (cases "main_getopt E st' opts")
    have "z = Inr st1" using Cons.prems o x Inr g by simp
    then show ?thesis
      using Cons.IH [of st' t'] g main_option_unsynchronised [of E st c optarg st' t] o Inr
        Cons.prems(2)
      by simp
  qed
qed

lemma main_getopt_forced:
  "main_getopt E st opts = (Inr st1, tr) \<Longrightarrow>
   (case forced_offset_arg opts of
      Some a \<Rightarrow> m_forced_sync_offset st1 = 1 \<and> sync_offset_direction (m_dst_clock st1) = - 1 \<and>
                sync_offset (m_dst_clock st1) = atoi E a
    | None \<Rightarrow> m_forced_sync_offset st1 = m_forced_sync_offset st \<and>
              sync_offset_direction (m_dst_clock st1) = sync_offset_direction (m_dst_clock st) \<and>
              sync_offset (m_dst_clock st1) = sync_offset (m_dst_clock st))"
proof (induction opts arbitrary: st tr)
  case Nil
  then show ?case by simp
next
  case (Cons x opts)
  obtain c optarg where x: "x = (c, optarg)" by (cases x)
  obtain y t where o: "main_option E st c optarg = (y, t)" by (cases "main_option E st c optarg")
  show ?case
  proof (cases y)
    case (Inl r)
    then show ?thesis using Cons.prems o x by simp
  next
    case (Inr st')
    obtain z t' where g: "main_getopt E st' opts = (z, t')" by (cases "main_getopt E st' opts")
    have z: "z = Inr st1" using Cons.prems o x Inr g by simp
    note ih = Cons.IH [of st' t', unfolded g z, OF refl]
    have o': "main_option E st c optarg = (Inr st', t)" using o Inr by simp
    show ?thesis
    proof (cases "forced_offset_arg opts")
      case (Some a)
      then show ?thesis using ih x by simp
    next
      case None
      show ?thesis
      proof (cases "c = CHR ''O''")
        case True
        then show ?thesis
          using ih None x main_option_O [of E st optarg st' t] o' by simp
      next
        case False
        then show ?thesis
          using ih None x main_option_other [OF o' False] by simp
      qed
    qed
  qed
qed

lemma run_pmc_body_port_only:
  "pmc_ds_idx c = 0 \<Longrightarrow> run_pmc_body c timeout s = ((ctl, c'), tr) \<Longrightarrow>
   sync_offset c' = sync_offset c \<and> leap c' = leap c"
  by (auto simp: run_pmc_body_def Let_def ds_ids_def split: if_splits option.splits ds_id.splits)

lemma run_pmc_no_utc_offset:
  "run_pmc c timeout wait_sync get_utc_offset script = Inr ((r, c'), tr) \<Longrightarrow>
   get_utc_offset = 0 \<Longrightarrow> sync_offset c' = sync_offset c \<and> leap c' = leap c"
proof (induction c timeout wait_sync get_utc_offset script arbitrary: tr
       rule: run_pmc.induct)
  case (1 c timeout wait_sync get_utc_offset script)
  note eq = "1.prems"(1) [unfolded run_pmc.simps [of c timeout wait_sync get_utc_offset script]]
  note g = "1.prems"(2)
  show ?case
  proof (cases "pmc_ds_idx c <s N_ID")
    case False
    then show ?thesis using eq by auto
  next
    case lt: True
    show ?thesis
    proof (cases "pmc_ds_idx c <s 0")
      case True
      then show ?thesis using eq lt by simp
    next
      case nn: False
      have idx: "pmc_ds_idx c = 0 \<or> pmc_ds_idx c = 1"
        using cint_0_or_1 [OF nn] lt by (simp add: N_ID_def)
      show ?thesis
      proof (cases "(ds_ids ! unat (pmc_ds_idx c) = PORT_DATA_SET \<and> wait_sync = 0) \<or>
                    (ds_ids ! unat (pmc_ds_idx c) = TIME_PROPERTIES_DATA_SET \<and> get_utc_offset = 0)")
        case skip: True
        then have "run_pmc (c\<lparr>pmc_ds_idx := pmc_ds_idx c + 1\<rparr>) timeout wait_sync get_utc_offset script =
                   Inr ((r, c'), tr)"
          using eq lt nn by simp
        from "1.IH"(1) [OF lt nn skip this g] show ?thesis by simp
      next
        case need: False
        have i0: "pmc_ds_idx c = 0"
          using idx need g by (auto simp: ds_ids_def)
        show ?thesis
        proof (cases script)
          case Nil
          then show ?thesis using eq lt nn need by simp
        next
          case (Cons s rest)
          obtain ctl c1 tr1 where b: "run_pmc_body c timeout s = ((ctl, c1), tr1)"
            by (metis surj_pair)
          have b': "((ctl, c1), tr1) = run_pmc_body c timeout s"
            using b by simp
          note f = run_pmc_body_port_only [OF i0 b]
          show ?thesis
          proof (cases ctl)
            case (Return r')
            then have "c' = c1" using eq lt nn need Cons b by simp
            then show ?thesis using f by simp
          next
            case Continue
            then have "emit tr1 (run_pmc c1 timeout wait_sync get_utc_offset rest) = Inr ((r, c'), tr)"
              using eq lt nn need Cons b by simp
            from emit_Inr [OF this] obtain t' where
              r: "run_pmc c1 timeout wait_sync get_utc_offset rest = Inr ((r, c'), t')"
              by auto
            from "1.IH"(2) [OF lt nn need Cons b' refl Continue r g] f show ?thesis by simp
          qed
        qed
      qed
    qed
  qed
qed

lemma main_wait_forced:
  "main_wait c wait_sync forced scripts = Inr ((w, c'), tr) \<Longrightarrow> forced \<noteq> 0 \<Longrightarrow>
   pmc_frame c c' \<and> sync_offset c' = sync_offset c \<and> leap c' = leap c"
proof (induction scripts arbitrary: c tr)
  case Nil
  then show ?case by (simp add: pmc_frame_refl)
next
  case (Cons script rest)
  have z: "(if forced = 0 then 1 else 0) = (0 :: cint)"
    using Cons.prems(2) by simp
  show ?case
  proof (cases "run_pmc c 1000 wait_sync 0 script")
    case (Inl e)
    then show ?thesis using Cons.prems by (simp add: z)
  next
    case (Inr x)
    obtain r c1 t1 where x: "x = ((r, c1), t1)" by (metis surj_pair)
    have rp: "run_pmc c 1000 wait_sync 0 script = Inr ((r, c1), t1)"
      using Inr x by simp
    have f: "pmc_frame c c1" "sync_offset c1 = sync_offset c" "leap c1 = leap c"
      using run_pmc_frame [OF rp] run_pmc_no_utc_offset [OF rp] by simp_all
    show ?thesis
    proof (cases "r <s 0 \<or> 0 <s r")
      case True
      then have "c' = c1" using Cons.prems(1) rp by (auto simp: z split: if_splits)
      then show ?thesis using f by simp
    next
      case False
      then have "emit (t1 @ [Pr_notice ''Waiting for ptp4l...''])
                   (main_wait c1 wait_sync forced rest) = Inr ((w, c'), tr)"
        using Cons.prems(1) rp by (simp add: z)
      from emit_Inr [OF this] obtain t' where
        "main_wait c1 wait_sync forced rest = Inr ((w, c'), t')"
        by auto
      from Cons.IH [OF this Cons.prems(2)] f show ?thesis
        using pmc_frame_trans by auto
    qed
  qed
qed

lemma main_discover_state:
  "main_discover E st = Inr (Inr st', tr) \<Longrightarrow> st' = st \<or> (\<exists>cid. st' = st\<lparr>m_src := cid\<rparr>)"
  by (auto simp: main_discover_def split: option.splits prod.splits if_splits)

lemma main_stats_clock:
  "main_stats E c = Some c2 \<Longrightarrow>
   c2 = c \<or> c2 = c\<lparr>offset_stats := Some [], freq_stats := Some [], delay_stats := Some []\<rparr>"
  by (auto simp: main_stats_def split: if_splits prod.splits bool.splits)

lemma main_sync_forced:
  assumes "main_sync E st c scripts = Inr ((Inr u, c5), tr)"
    and f: "m_forced_sync_offset st \<noteq> 0" and np: "\<not> pmc c"
  shows "pmc_frame c c5 \<and> sync_offset c5 = sync_offset c \<and> leap c5 = leap c"
proof (cases "m_wait_sync st \<noteq> 0")
  case False
  then show ?thesis using assms by (simp add: main_sync_def pmc_frame_refl)
next
  case True
  then obtain w c3 tr1 where
    mw: "main_wait (c\<lparr>pmc := True\<rparr>) (m_wait_sync st) (m_forced_sync_offset st) scripts =
         Inr ((w, c3), tr1)"
    and c5: "c5 = c3\<lparr>pmc := False\<rparr>"
    using assms unfolding main_sync_def bind_f_def
    by (auto simp: Let_def split: if_splits sum.splits prod.splits)
  from main_wait_forced [OF mw f] show ?thesis
    using c5 np by (simp add: pmc_frame_def)
qed

lemma main_startup_forced:
  fixes E :: "('s, 'd::uminus) main_extern"
  assumes s: "main_startup E st scripts = Inr (Inr st1, tr)"
    and f: "m_forced_sync_offset st \<noteq> 0"
    and u: "unsynchronised (m_dst_clock st)"
  shows "sync_offset_direction (m_dst_clock st1) = sync_offset_direction (m_dst_clock st) \<and>
         sync_offset (m_dst_clock st1) = sync_offset (m_dst_clock st) \<and>
         unsynchronised (m_dst_clock st1) \<and>
         clkid (m_dst_clock st1) = clkid (m_dst_clock st) \<and>
         m_pps_fd st1 = m_pps_fd st \<and> \<not> main_invalid st1"
proof -
  from s obtain x tr0 where a: "main_discover E st = Inr (x, tr0)"
    unfolding main_startup_def bind_f_def by (auto split: sum.splits)
  from s a obtain st' where x: "x = Inr st'"
    unfolding main_startup_def bind_f_def by (cases x) auto
  from main_discover_state [of E st st' tr0] a x
  have st': "st' = st \<or> (\<exists>cid. st' = st\<lparr>m_src := cid\<rparr>)" by simp
  then have d: "m_dst_clock st' = m_dst_clock st" "m_forced_sync_offset st' = m_forced_sync_offset st"
    "m_pps_fd st' = m_pps_fd st"
    by auto
  note rest = s [unfolded main_startup_def a bind_f_def x, simplified]
  have valid: "\<not> main_invalid st'"
    using rest by (auto split: if_splits)
  from rest valid obtain c2 where c2: "main_stats E (m_dst_clock st') = Some c2"
    by (auto split: option.splits)
  from rest valid c2 obtain c5 tr2 where
    b: "main_sync E st' c2 scripts = Inr ((Inr (), c5), tr2)"
    and st1: "st1 = st'\<lparr>m_dst_clock := fst (main_servo E st' c5)\<rparr>"
    by (auto split: sum.splits prod.splits)
  have np: "\<not> pmc c2"
    using main_stats_clock [OF c2] u d by (auto simp: unsynchronised_def)
  have f': "m_forced_sync_offset st' \<noteq> 0" using f d by simp
  note k = main_sync_forced [OF b f' np]
  have sv: "fst (main_servo E st' c5) = c5\<lparr>servo := servo (fst (main_servo E st' c5))\<rparr>"
    by (simp add: main_servo_def Let_def)
  have inv: "main_invalid st1 = main_invalid st'"
    using st1 k main_stats_clock [OF c2]
    by (auto simp: main_invalid_def main_servo_def Let_def pmc_frame_def)
  have "sync_offset_direction (m_dst_clock st1) = sync_offset_direction (m_dst_clock st)"
    "sync_offset (m_dst_clock st1) = sync_offset (m_dst_clock st)"
    "unsynchronised (m_dst_clock st1)" "clkid (m_dst_clock st1) = clkid (m_dst_clock st)"
    using st1 k main_stats_clock [OF c2] d u np
    by (auto simp: main_servo_def Let_def pmc_frame_def unsynchronised_def)
  then show ?thesis using inv valid st1 d by simp
qed

subsection \<open>The sampling loops without a management client\<close>

lemma update_clock_stats_frame:
  assumes "update_clock_stats X c offset freq delay = Inr (c2, tr)"
  shows "sync_offset_direction c2 = sync_offset_direction c \<and> sync_offset c2 = sync_offset c \<and>
         pmc c2 = pmc c \<and> leap c2 = leap c \<and> leap_set c2 = leap_set c \<and> clkid c2 = clkid c"
  using assms
  by (auto simp: update_clock_stats_def bind_f_def stats_add_value_def stats_get_num_values_def
        stats_get_result_def stats_reset_def
        split: sum.splits option.splits if_splits)

lemma update_sync_offset_idle:
  assumes "\<not> pmc c" "leap c = 0" "leap_set c = 0"
  shows "update_sync_offset X inp c offset ts = Inr ((0, c), [])"
  using assms
  by (simp add: update_sync_offset_def update_sync_offset_refresh_def update_sync_offset_leap_def
        bind_f_def emit_def)

lemma update_clock_idle:
  assumes i: "\<not> pmc c" "leap c = 0" "leap_set c = 0"
    and r: "update_clock X inp c offset ts delay = Inr (c2, tr2)"
  shows "sync_offset_direction c2 = sync_offset_direction c \<and> sync_offset c2 = sync_offset c \<and>
         \<not> pmc c2 \<and> leap c2 = 0 \<and> leap_set c2 = 0 \<and> clkid c2 = clkid c \<and>
         (\<exists>rest. tr2 = Servo_sample (corrected_offset c offset) ts # rest)"
proof -
  note u = update_sync_offset_idle [OF i, of X inp offset ts]
  obtain sv where sv: "servo c = Some sv"
    using update_clock_needs_servo [OF u r] by auto
  obtain ppb state sv' where
    s: "servo_sample X sv (corrected_offset c offset) ts = (ppb, state, sv')"
    by (metis surj_pair)
  show ?thesis
  proof (cases "offset_stats c")
    case None
    then show ?thesis
      using r i unfolding update_clock_consume [OF u sv s] by auto
  next
    case (Some xs)
    then have "emit ([] @ [Servo_sample (corrected_offset c offset) ts] @
                     clock_dispatch (clkid c) state (corrected_offset c offset) ppb)
                 (update_clock_stats X (c\<lparr>servo := Some sv', servo_state := state\<rparr>)
                    (corrected_offset c offset) ppb delay) = Inr (c2, tr2)"
      using r unfolding update_clock_consume [OF u sv s] by simp
    from emit_Inr [OF this] obtain t' where
      st: "update_clock_stats X (c\<lparr>servo := Some sv', servo_state := state\<rparr>)
             (corrected_offset c offset) ppb delay = Inr (c2, t')"
      and t: "tr2 = ([] @ [Servo_sample (corrected_offset c offset) ts] @
                     clock_dispatch (clkid c) state (corrected_offset c offset) ppb) @ t'"
      by auto
    show ?thesis
      using update_clock_stats_frame [OF st] t i by simp
  qed
qed

lemma update_clock_settled:
  assumes f: "settled c d v" and r: "update_clock X inp c offset ts delay = Inr (c2, tr2)"
  shows "settled c2 d v"
proof -
  have i: "\<not> pmc c" "leap c = 0" "leap_set c = 0"
    using f by (simp_all add: settled_def)
  from update_clock_idle [OF i r] show ?thesis
    using f by (simp add: settled_def)
qed

lemma do_pps_body_settled:
  assumes "do_pps_body X c master n_readings phc inp = Inr ((ctl, c1, phc1), tr)" and "settled c d v"
  shows "settled c1 d v"
proof -
  have "c1 = c \<or> (\<exists>offset ts delay t. update_clock X inp c offset ts delay = Inr (c1, t))"
    using assms(1)
    by (auto simp: do_pps_body_def Let_def bind_f_def split: prod.splits if_splits sum.splits)
  then show ?thesis using assms(2) update_clock_settled by blast
qed

lemma do_phc_body_settled:
  assumes "do_phc_body X c master rate n_readings outs inp = Inr ((ctl, c1, outs1), tr)"
    and "settled c d v"
  shows "settled c1 d v"
proof -
  have "c1 = c \<or> (\<exists>offset ts delay t. update_clock X inp c offset ts delay = Inr (c1, t))"
    using assms(1)
    by (auto simp: do_phc_body_def usleep_rate_def Let_def bind_f_def
             split: prod.splits if_splits sum.splits)
  then show ?thesis using assms(2) update_clock_settled by blast
qed

lemma do_sysoff_body_settled:
  assumes "do_sysoff_body X c rate inp = Inr ((ctl, c1), tr)" and "settled c d v"
  shows "settled c1 d v"
proof -
  have "c1 = c \<or> (\<exists>offset ts delay t. update_clock X inp c offset ts delay = Inr (c1, t))"
    using assms(1)
    by (auto simp: do_sysoff_body_def usleep_rate_def Let_def bind_f_def
             split: prod.splits if_splits sum.splits option.splits)
  then show ?thesis using assms(2) update_clock_settled by blast
qed

lemma do_pps_while_settled:
  "do_pps_while X c master n_readings phc ins = Inr ((e, c'), tr) \<Longrightarrow> settled c d v \<Longrightarrow>
   settled c' d v"
proof (induction ins arbitrary: c phc tr)
  case Nil
  then show ?case by simp
next
  case (Cons inp rest)
  show ?case
  proof (cases "do_pps_body X c master n_readings phc inp")
    case (Inl x)
    then show ?thesis using Cons.prems by simp
  next
    case (Inr y)
    obtain ctl c1 phc1 t where y: "y = ((ctl, c1, phc1), t)" by (metis surj_pair)
    have b: "do_pps_body X c master n_readings phc inp = Inr ((ctl, c1, phc1), t)"
      using Inr y by simp
    note s1 = do_pps_body_settled [OF b Cons.prems(2)]
    show ?thesis
    proof (cases ctl)
      case (Return r)
      then show ?thesis using Cons.prems(1) b s1 by simp
    next
      case Continue
      then have "emit t (do_pps_while X c1 master n_readings phc1 rest) = Inr ((e, c'), tr)"
        using Cons.prems(1) b by simp
      from emit_Inr [OF this] obtain t' where
        "do_pps_while X c1 master n_readings phc1 rest = Inr ((e, c'), t')" by auto
      from Cons.IH [OF this s1] show ?thesis .
    qed
  qed
qed

lemma do_phc_while_settled:
  "do_phc_while X c master rate n_readings outs ins = Inr ((e, c'), tr) \<Longrightarrow> settled c d v \<Longrightarrow>
   settled c' d v"
proof (induction ins arbitrary: c outs tr)
  case Nil
  then show ?case by simp
next
  case (Cons inp rest)
  show ?case
  proof (cases "do_phc_body X c master rate n_readings outs inp")
    case (Inl x)
    then show ?thesis using Cons.prems by simp
  next
    case (Inr y)
    obtain ctl c1 outs1 t where y: "y = ((ctl, c1, outs1), t)" by (metis surj_pair)
    have b: "do_phc_body X c master rate n_readings outs inp = Inr ((ctl, c1, outs1), t)"
      using Inr y by simp
    note s1 = do_phc_body_settled [OF b Cons.prems(2)]
    show ?thesis
    proof (cases ctl)
      case (Return r)
      then show ?thesis using Cons.prems(1) b s1 by simp
    next
      case Continue
      then have "emit t (do_phc_while X c1 master rate n_readings outs1 rest) = Inr ((e, c'), tr)"
        using Cons.prems(1) b by simp
      from emit_Inr [OF this] obtain t' where
        "do_phc_while X c1 master rate n_readings outs1 rest = Inr ((e, c'), t')" by auto
      from Cons.IH [OF this s1] show ?thesis .
    qed
  qed
qed

lemma do_sysoff_while_settled:
  "do_sysoff_while X c rate ins = Inr ((e, c'), tr) \<Longrightarrow> settled c d v \<Longrightarrow> settled c' d v"
proof (induction ins arbitrary: c tr)
  case Nil
  then show ?case by simp
next
  case (Cons inp rest)
  show ?case
  proof (cases "do_sysoff_body X c rate inp")
    case (Inl x)
    then show ?thesis using Cons.prems by simp
  next
    case (Inr y)
    obtain ctl c1 t where y: "y = ((ctl, c1), t)" by (metis surj_pair)
    have b: "do_sysoff_body X c rate inp = Inr ((ctl, c1), t)"
      using Inr y by simp
    note s1 = do_sysoff_body_settled [OF b Cons.prems(2)]
    show ?thesis
    proof (cases ctl)
      case (Return r)
      then show ?thesis using Cons.prems(1) b s1 by simp
    next
      case Continue
      then have "emit t (do_sysoff_while X c1 rate rest) = Inr ((e, c'), tr)"
        using Cons.prems(1) b by simp
      from emit_Inr [OF this] obtain t' where
        "do_sysoff_while X c1 rate rest = Inr ((e, c'), t')" by auto
      from Cons.IH [OF this s1] show ?thesis .
    qed
  qed
qed

lemma main_loop_settled:
  assumes l: "main_loop E X st outs ins = Inr ((e, c'), tr)"
    and f: "settled (m_dst_clock st) d v"
  shows "settled c' (if 0 \<le>s m_pps_fd st \<and> m_src st = CLOCK_INVALID then 0 else d) v"
proof (cases "0 \<le>s m_pps_fd st")
  case True
  show ?thesis
  proof (cases "m_src st = CLOCK_INVALID")
    case inv: True
    have "settled ((m_dst_clock st)\<lparr>source_label := ''pps'', sync_offset_direction := 0\<rparr>) 0 v"
      using f by (simp add: settled_def)
    moreover have "do_pps_while X ((m_dst_clock st)\<lparr>source_label := ''pps'', sync_offset_direction := 0\<rparr>)
                     (m_src st) (sint (m_phc_readings st)) outs ins = Inr ((e, c'), tr)"
      using l True inv by (simp add: main_loop_def do_pps_loop_def Let_def)
    ultimately show ?thesis
      using do_pps_while_settled True inv by fastforce
  next
    case ok: False
    have "settled ((m_dst_clock st)\<lparr>source_label := ''pps''\<rparr>) d v"
      using f by (simp add: settled_def)
    moreover have "do_pps_while X ((m_dst_clock st)\<lparr>source_label := ''pps''\<rparr>)
                     (m_src st) (sint (m_phc_readings st)) outs ins = Inr ((e, c'), tr)"
      using l True ok by (simp add: main_loop_def do_pps_loop_def Let_def)
    ultimately show ?thesis
      using do_pps_while_settled True ok by fastforce
  qed
next
  case False
  show ?thesis
  proof (cases "clkid (m_dst_clock st) = CLOCK_REALTIME \<and>
                sysoff_probe_supported E (CLOCKID_TO_FD (m_src st)) (m_phc_readings st)")
    case True
    have "settled ((m_dst_clock st)\<lparr>source_label := ''sys''\<rparr>) d v"
      using f by (simp add: settled_def)
    moreover have "do_sysoff_while X ((m_dst_clock st)\<lparr>source_label := ''sys''\<rparr>) (m_phc_rate st) ins =
                   Inr ((e, c'), tr)"
      using l False True by (simp add: main_loop_def do_sysoff_loop_def)
    ultimately show ?thesis
      using do_sysoff_while_settled False by fastforce
  next
    case phc: False
    have "settled ((m_dst_clock st)\<lparr>source_label := ''phc''\<rparr>) d v"
      using f by (simp add: settled_def)
    moreover have "do_phc_while X ((m_dst_clock st)\<lparr>source_label := ''phc''\<rparr>) (m_src st)
                     (m_phc_rate st) (sint (m_phc_readings st)) outs ins = Inr ((e, c'), tr)"
      using l False phc by (simp add: main_loop_def do_phc_loop_def)
    ultimately show ?thesis
      using do_phc_while_settled False by fastforce
  qed
qed

subsection \<open>An invocation with a forced offset\<close>

lemma example_atoi_37: "example_atoi ''37'' = 37"
  by (simp add: example_atoi_def)

lemma example_forced_clock_eq:
  "example_forced_clock =
     example_clock\<lparr>servo := None, source_label := [], sync_offset := 37,
                   sync_offset_direction := - 1\<rparr>"
  by (simp add: example_forced_clock_def main_init_def example_clock_def)

lemma getopt_example_pps:
  "main_getopt example_main_extern (main_init example_main_extern)
     [(CHR ''d'', ''/dev/pps0''), (CHR ''O'', ''37'')] =
   (Inr ((main_init example_main_extern)
           \<lparr>m_dst_clock := example_forced_clock, m_pps_fd := 4, m_forced_sync_offset := 1\<rparr>), [])"
  by (simp add: main_option_def example_main_extern_def example_atoi_37 example_forced_clock_def
        main_init_def Let_def word_sless_alt)

lemma getopt_example_phc:
  "main_getopt example_main_extern (main_init example_main_extern)
     [(CHR ''s'', ''/dev/ptp0''), (CHR ''O'', ''37'')] =
   (Inr ((main_init example_main_extern)
           \<lparr>m_dst_clock := example_forced_clock, m_src := FD_TO_CLOCKID 3,
            m_forced_sync_offset := 1\<rparr>), [])"
  by (simp add: main_option_def clock_open_def example_main_extern_def example_atoi_37
        example_forced_clock_def main_init_def Let_def word_sless_alt)

lemma startup_example_pps:
  "main_startup example_main_extern
     ((main_init example_main_extern)
        \<lparr>m_dst_clock := example_forced_clock, m_pps_fd := 4, m_forced_sync_offset := 1\<rparr>) [] =
   Inr (Inr ((main_init example_main_extern)
               \<lparr>m_dst_clock := example_forced_clock\<lparr>servo := Some 0\<rparr>, m_pps_fd := 4,
                m_forced_sync_offset := 1\<rparr>),
        [Clockadj_set_freq CLOCK_REALTIME 0, Clockadj_set_leap CLOCK_REALTIME 0])"
  by (simp add: main_startup_def main_discover_def main_invalid_def main_stats_def main_sync_def
        main_servo_def bind_f_def Let_def main_init_def example_forced_clock_eq example_clock_def
        example_main_extern_def word_sle_eq)

lemma startup_example_phc:
  "main_startup example_main_extern
     ((main_init example_main_extern)
        \<lparr>m_dst_clock := example_forced_clock, m_src := FD_TO_CLOCKID 3,
         m_forced_sync_offset := 1\<rparr>) [] =
   Inr (Inr ((main_init example_main_extern)
               \<lparr>m_dst_clock := example_forced_clock\<lparr>servo := Some 0\<rparr>, m_src := FD_TO_CLOCKID 3,
                m_forced_sync_offset := 1\<rparr>),
        [Clockadj_set_freq CLOCK_REALTIME 0, Clockadj_set_leap CLOCK_REALTIME 0])"
  by (simp add: main_startup_def main_discover_def main_invalid_def main_stats_def main_sync_def
        main_servo_def bind_f_def Let_def main_init_def example_forced_clock_eq example_clock_def
        example_main_extern_def word_sle_eq)

lemma read_phc_example_5:
  "read_phc (FD_TO_CLOCKID 3) CLOCK_REALTIME 5 (example_reads 5) (0, 0, 0) =
     ((1, - 37000000000, 100000000010, 10), ([] :: int action list))"
  by (simp add: read_phc_def read_phc_loop.simps example_reads_def INT64_MAX_def NS_PER_SEC_def
        Let_def sdiv64_def signed_divide_int_def)

lemma update_clock_unlocked_example:
  assumes i: "\<not> pmc c" "leap c = 0" "leap_set c = 0"
    and sv: "servo c = Some 0"
    and st: "offset_stats c = None" "servo_state c = SERVO_UNLOCKED"
  shows "update_clock example_extern inp c offset ts delay =
     Inr (c\<lparr>servo := Some 1\<rparr>,
          [Servo_sample (corrected_offset c offset) ts,
           Pr_info (if 0 \<le>s delay then ''%s offset %9lld s%d freq %+7.0f delay %6lld''
                    else ''%s offset %9lld s%d freq %+7.0f'')])"
proof -
  note u = update_sync_offset_idle [OF i, of example_extern inp offset ts]
  have s: "servo_sample example_extern 0 (corrected_offset c offset) ts = (100, SERVO_UNLOCKED, 1)"
    by (simp add: example_extern_def)
  have e: "c\<lparr>servo := Some 1, servo_state := SERVO_UNLOCKED\<rparr> = c\<lparr>servo := Some 1\<rparr>"
    using st(2) [symmetric] by simp
  show ?thesis
    unfolding update_clock_consume [OF u sv s]
    by (simp add: st clock_dispatch_def e)
qed

lemma main_loop_example_phc:
  "main_loop example_main_extern example_extern
     ((main_init example_main_extern)
        \<lparr>m_dst_clock := example_forced_clock\<lparr>servo := Some 0\<rparr>, m_src := FD_TO_CLOCKID 3,
         m_forced_sync_offset := 1\<rparr>) (0, 0, 0) [example_inputs] =
     Inr ((Running, example_forced_clock\<lparr>servo := Some 1, source_label := ''phc''\<rparr>),
          [Usleep 1000000, Servo_sample (- 74000000000) 100000000010,
           Pr_info ''%s offset %9lld s%d freq %+7.0f delay %6lld''])"
proof -
  let ?c = "example_forced_clock\<lparr>servo := Some 0, source_label := ''phc''\<rparr>"
  have k: "clkid example_forced_clock = CLOCK_REALTIME"
    by (simp add: example_forced_clock_eq example_clock_def)
  have co: "corrected_offset ?c (- 37000000000) = - 74000000000"
    by (simp add: corrected_offset_def example_forced_clock_eq example_clock_def NS_PER_SEC_def)
  have p: "\<not> pmc ?c" "leap ?c = 0" "leap_set ?c = 0" "servo ?c = Some 0"
    "offset_stats ?c = None" "servo_state ?c = SERVO_UNLOCKED"
    by (simp_all add: example_forced_clock_eq example_clock_def)
  have u: "update_clock example_extern example_inputs ?c (- 37000000000) 100000000010 10 =
           Inr (example_forced_clock\<lparr>servo := Some 1, source_label := ''phc''\<rparr>,
                [Servo_sample (- 74000000000) 100000000010,
                 Pr_info ''%s offset %9lld s%d freq %+7.0f delay %6lld''])"
    unfolding update_clock_unlocked_example [OF p] co
    by (simp add: word_sle_eq)
  have r: "phc_reads example_inputs = example_reads 5"
    by (simp add: example_inputs_def)
  have us: "(word_of_int (1000000 sdiv sint (1 :: cint)) :: cint) = 1000000"
    by (simp add: signed_divide_int_def)
  have b: "do_phc_body example_extern ?c (FD_TO_CLOCKID 3) 1 5 (0, 0, 0) example_inputs =
           Inr ((Continue, example_forced_clock\<lparr>servo := Some 1, source_label := ''phc''\<rparr>,
                 - 37000000000, 100000000010, 10),
                [Usleep 1000000, Servo_sample (- 74000000000) 100000000010,
                 Pr_info ''%s offset %9lld s%d freq %+7.0f delay %6lld''])"
    by (simp add: do_phc_body_def usleep_rate_def bind_f_def k r read_phc_example_5 u us)
  have f: "m_pps_fd (main_init example_main_extern) = - 1"
    "m_phc_rate (main_init example_main_extern) = 1"
    "m_phc_readings (main_init example_main_extern) = 5"
    by (simp_all add: main_init_def)
  have n: "\<not> sysoff_probe_supported example_main_extern x y" for x y
    by (simp add: example_main_extern_def)
  show ?thesis
    by (simp add: main_loop_def f n word_sle_eq do_phc_loop_def b emit_def)
qed

lemma main_loop_example_pps:
  "main_loop example_main_extern example_extern
     ((main_init example_main_extern)
        \<lparr>m_dst_clock := example_forced_clock\<lparr>servo := Some 0\<rparr>, m_pps_fd := 4,
         m_forced_sync_offset := 1\<rparr>) (0, 0, 0) [example_inputs] =
     Inr ((Running, example_forced_clock\<lparr>servo := Some 1, source_label := ''pps'',
                                         sync_offset_direction := 0\<rparr>),
          [Servo_sample 3 100000000003, Pr_info ''%s offset %9lld s%d freq %+7.0f''])"
proof -
  let ?c = "example_forced_clock\<lparr>servo := Some 0, source_label := ''pps'',
                                  sync_offset_direction := 0\<rparr>"
  have co: "corrected_offset ?c 3 = 3"
    by (simp add: corrected_offset_def)
  have p: "\<not> pmc ?c" "leap ?c = 0" "leap_set ?c = 0" "servo ?c = Some 0"
    "offset_stats ?c = None" "servo_state ?c = SERVO_UNLOCKED"
    by (simp_all add: example_forced_clock_eq example_clock_def)
  have u: "update_clock example_extern example_inputs ?c 3 100000000003 (- 1) =
           Inr (example_forced_clock\<lparr>servo := Some 1, source_label := ''pps'',
                                      sync_offset_direction := 0\<rparr>,
                [Servo_sample 3 100000000003, Pr_info ''%s offset %9lld s%d freq %+7.0f''])"
    unfolding update_clock_unlocked_example [OF p] co
    by (simp add: word_sle_eq)
  have pf: "read_pps (pps_fetch example_inputs) (0, 0) =
            ((1, 3, 100000000003), ([] :: int action list))"
    by (simp add: read_pps_def example_inputs_def NS_PER_SEC_def sdiv64_NS_2 Let_def
          word_sless_alt)
  have b: "do_pps_body example_extern ?c CLOCK_INVALID 5 (0, 0, 0) example_inputs =
           Inr ((Continue, example_forced_clock\<lparr>servo := Some 1, source_label := ''pps'',
                                                sync_offset_direction := 0\<rparr>, 0, 0, 0),
                [Servo_sample 3 100000000003, Pr_info ''%s offset %9lld s%d freq %+7.0f''])"
    by (simp add: do_pps_body_def pf u bind_f_def)
  have f: "m_src (main_init example_main_extern) = CLOCK_INVALID"
    "m_phc_readings (main_init example_main_extern) = 5"
    by (simp_all add: main_init_def)
  show ?thesis
    by (simp add: main_loop_def f word_sle_eq do_pps_loop_def Let_def b emit_def)
qed

subsection \<open>The forced offset\<close>

text \<open>
  Claim C10 says that with the option \<^verbatim>\<open>-O\<close> the forced offset is always subtracted from
  the raw measured offset, whatever the master and the slave are. With a PPS device and
  no master clock (\<^verbatim>\<open>-d /dev/pps0 -O 37\<close>), \<open>do_pps_loop\<close> sets
  \<open>sync_offset_direction\<close> to 0 before its loop (lines 240 to 243, under the comment
  that the sync offset cannot be applied with PPS alone): the PPS offset of 3 ns is
  handed to the servo as it is, not as \<open>3 - 37\<cdot>10\<^sup>9\<close>.
\<close>

theorem forced_offset_not_applied_pure_pps:
  "main example_main_extern example_extern [(CHR ''d'', ''/dev/pps0''), (CHR ''O'', ''37'')] []
     (0, 0, 0) [example_inputs] =
     Inr ((Running, example_forced_clock\<lparr>servo := Some 1, source_label := ''pps'',
                                         sync_offset_direction := 0\<rparr>),
          [Clockadj_set_freq CLOCK_REALTIME 0, Clockadj_set_leap CLOCK_REALTIME 0,
           Servo_sample 3 100000000003, Pr_info ''%s offset %9lld s%d freq %+7.0f'']) \<and>
   read_pps (pps_fetch example_inputs) (0, 0) = ((1, 3, 100000000003), ([] :: int action list)) \<and>
   sync_offset (example_forced_clock\<lparr>servo := Some 1, source_label := ''pps'',
                                      sync_offset_direction := 0\<rparr>) = 37 \<and>
   (3 :: 64 word) \<noteq> 3 - scast (37 :: cint) * NS_PER_SEC"
proof -
  have pf: "read_pps (pps_fetch example_inputs) (0, 0) =
            ((1, 3, 100000000003), ([] :: int action list))"
    by (simp add: read_pps_def example_inputs_def NS_PER_SEC_def sdiv64_NS_2 Let_def
          word_sless_alt)
  have m: "main example_main_extern example_extern
             [(CHR ''d'', ''/dev/pps0''), (CHR ''O'', ''37'')] [] (0, 0, 0) [example_inputs] =
           Inr ((Running, example_forced_clock\<lparr>servo := Some 1, source_label := ''pps'',
                                               sync_offset_direction := 0\<rparr>),
                [Clockadj_set_freq CLOCK_REALTIME 0, Clockadj_set_leap CLOCK_REALTIME 0,
                 Servo_sample 3 100000000003, Pr_info ''%s offset %9lld s%d freq %+7.0f''])"
    unfolding main_def getopt_example_pps
    by (simp add: startup_example_pps main_loop_example_pps emit_def)
  have v: "sync_offset (example_forced_clock\<lparr>servo := Some 1, source_label := ''pps'',
                                      sync_offset_direction := 0\<rparr>) = 37"
    by (simp add: example_forced_clock_eq)
  have ns: "(3 :: 64 word) \<noteq> 3 - scast (37 :: cint) * NS_PER_SEC"
    by (simp add: NS_PER_SEC_def)
  show ?thesis
    using pf m v ns by (intro conjI)
qed

text \<open>
  Claim C10 as amended. For every invocation that supplies \<^verbatim>\<open>-O\<close>, the option loop of
  \<open>main\<close> leaves \<open>forced_sync_offset\<close> at 1, \<open>sync_offset_direction\<close> at \<open>-1\<close> and
  \<open>sync_offset\<close> at \<^verbatim>\<open>atoi\<close> of the last \<^verbatim>\<open>-O\<close> argument. The startup leaves the two
  fields so, with no management client and no leap second. Every sampling loop keeps
  them so, but for \<open>do_pps_loop\<close> without a master clock, which sets the direction to 0.
  On a clock in that state \<open>update_clock\<close> hands the servo the raw offset minus
  \<open>sync_offset\<cdot>10\<^sup>9\<close> when the direction is \<open>-1\<close>, whatever the master and the slave are,
  and the raw offset itself when the direction is 0.
\<close>

theorem forced_offset_subtracted:
  fixes E :: "('s, 'd::uminus) main_extern" and X :: "('s, 'd) extern"
  assumes g: "main_getopt E (main_init E) opts = (Inr st, tr)"
    and o: "forced_offset_arg opts = Some a"
  shows "m_forced_sync_offset st = 1 \<and> sync_offset_direction (m_dst_clock st) = - 1 \<and>
         sync_offset (m_dst_clock st) = atoi E a \<and>
         (\<forall>scripts st1 tr1. main_startup E st scripts = Inr (Inr st1, tr1) \<longrightarrow>
            settled (m_dst_clock st1) (- 1) (atoi E a) \<and>
            (\<forall>outs ins e c' tr2. main_loop E X st1 outs ins = Inr ((e, c'), tr2) \<longrightarrow>
               settled c' (if 0 \<le>s m_pps_fd st1 \<and> m_src st1 = CLOCK_INVALID then 0 else - 1)
                 (atoi E a))) \<and>
         (\<forall>c inp offset ts delay c2 tr2.
            settled c (- 1) (atoi E a) \<and> update_clock X inp c offset ts delay = Inr (c2, tr2) \<longrightarrow>
            hd tr2 = Servo_sample (offset - scast (atoi E a) * NS_PER_SEC) ts) \<and>
         (\<forall>c inp offset ts delay c2 tr2.
            settled c 0 (atoi E a) \<and> update_clock X inp c offset ts delay = Inr (c2, tr2) \<longrightarrow>
            hd tr2 = Servo_sample offset ts)"
proof -
  have u0: "unsynchronised (m_dst_clock (main_init E))"
    by (simp add: main_init_def unsynchronised_def)
  have f: "m_forced_sync_offset st = 1" "sync_offset_direction (m_dst_clock st) = - 1"
    "sync_offset (m_dst_clock st) = atoi E a"
    using main_getopt_forced [OF g] o by simp_all
  have u: "unsynchronised (m_dst_clock st)"
    using main_getopt_unsynchronised [OF g u0] .
  have s: "settled (m_dst_clock st1) (- 1) (atoi E a) \<and>
           (\<forall>outs ins e c' tr2. main_loop E X st1 outs ins = Inr ((e, c'), tr2) \<longrightarrow>
              settled c' (if 0 \<le>s m_pps_fd st1 \<and> m_src st1 = CLOCK_INVALID then 0 else - 1)
                (atoi E a))"
    if "main_startup E st scripts = Inr (Inr st1, tr1)" for scripts st1 tr1
  proof -
    have nz: "m_forced_sync_offset st \<noteq> 0" using f(1) by simp
    from main_startup_forced [OF that nz u] f
    have k: "settled (m_dst_clock st1) (- 1) (atoi E a)"
      by (simp add: settled_def unsynchronised_def)
    then show ?thesis using main_loop_settled by blast
  qed
  have m: "hd tr2 = Servo_sample (offset - scast (atoi E a) * NS_PER_SEC) ts"
    if "settled c (- 1) (atoi E a) \<and> update_clock X inp c offset ts delay = Inr (c2, tr2)"
    for c :: "('s, 'd) clock" and inp offset ts delay c2 tr2
  proof -
    have i: "\<not> pmc c" "leap c = 0" "leap_set c = 0"
      using that by (simp_all add: settled_def)
    have "corrected_offset c offset = offset - scast (atoi E a) * NS_PER_SEC"
      using that by (simp add: settled_def corrected_offset_def)
    then show ?thesis
      using update_clock_idle [OF i, of X inp offset ts delay c2 tr2] that by auto
  qed
  have z: "hd tr2 = Servo_sample offset ts"
    if "settled c 0 (atoi E a) \<and> update_clock X inp c offset ts delay = Inr (c2, tr2)"
    for c :: "('s, 'd) clock" and inp offset ts delay c2 tr2
  proof -
    have i: "\<not> pmc c" "leap c = 0" "leap_set c = 0"
      using that by (simp_all add: settled_def)
    have "corrected_offset c offset = offset"
      using that by (simp add: settled_def corrected_offset_def)
    then show ?thesis
      using update_clock_idle [OF i, of X inp offset ts delay c2 tr2] that by auto
  qed
  show ?thesis
    using f s m z by blast
qed

text \<open>
  The invocation \<^verbatim>\<open>-s /dev/ptp0 -O 37\<close>: the PHC is read 37 s ahead of the system clock,
  and the servo is handed \<open>-37\<cdot>10\<^sup>9 - 37\<cdot>10\<^sup>9\<close>.
\<close>

theorem forced_offset_subtracted_witness:
  "main_getopt example_main_extern (main_init example_main_extern)
     [(CHR ''s'', ''/dev/ptp0''), (CHR ''O'', ''37'')] =
     (Inr ((main_init example_main_extern)
             \<lparr>m_dst_clock := example_forced_clock, m_src := FD_TO_CLOCKID 3,
              m_forced_sync_offset := 1\<rparr>), []) \<and>
   forced_offset_arg [(CHR ''s'', ''/dev/ptp0''), (CHR ''O'', ''37'')] = Some ''37'' \<and>
   atoi example_main_extern ''37'' = 37 \<and>
   sync_offset example_forced_clock = 37 \<and> sync_offset_direction example_forced_clock = - 1 \<and>
   main_startup example_main_extern
     ((main_init example_main_extern)
        \<lparr>m_dst_clock := example_forced_clock, m_src := FD_TO_CLOCKID 3,
         m_forced_sync_offset := 1\<rparr>) [] =
     Inr (Inr ((main_init example_main_extern)
                 \<lparr>m_dst_clock := example_forced_clock\<lparr>servo := Some 0\<rparr>, m_src := FD_TO_CLOCKID 3,
                  m_forced_sync_offset := 1\<rparr>),
          [Clockadj_set_freq CLOCK_REALTIME 0, Clockadj_set_leap CLOCK_REALTIME 0]) \<and>
   settled (example_forced_clock\<lparr>servo := Some 0\<rparr>) (- 1) 37 \<and>
   main_loop example_main_extern example_extern
     ((main_init example_main_extern)
        \<lparr>m_dst_clock := example_forced_clock\<lparr>servo := Some 0\<rparr>, m_src := FD_TO_CLOCKID 3,
         m_forced_sync_offset := 1\<rparr>) (0, 0, 0) [example_inputs] =
     Inr ((Running, example_forced_clock\<lparr>servo := Some 1, source_label := ''phc''\<rparr>),
          [Usleep 1000000, Servo_sample (- 74000000000) 100000000010,
           Pr_info ''%s offset %9lld s%d freq %+7.0f delay %6lld'']) \<and>
   settled (example_forced_clock\<lparr>servo := Some 1, source_label := ''phc''\<rparr>) (- 1) 37 \<and>
   (- 74000000000 :: 64 word) = - 37000000000 - scast (37 :: cint) * NS_PER_SEC"
proof -
  let ?st = "(main_init example_main_extern)
        \<lparr>m_dst_clock := example_forced_clock, m_src := FD_TO_CLOCKID 3,
         m_forced_sync_offset := 1\<rparr>"
  let ?st1 = "(main_init example_main_extern)
        \<lparr>m_dst_clock := example_forced_clock\<lparr>servo := Some 0\<rparr>, m_src := FD_TO_CLOCKID 3,
         m_forced_sync_offset := 1\<rparr>"
  have o: "forced_offset_arg [(CHR ''s'', ''/dev/ptp0''), (CHR ''O'', ''37'')] = Some ''37''"
    by simp
  have a: "atoi example_main_extern ''37'' = 37"
    by (simp add: example_main_extern_def example_atoi_37)
  note t = forced_offset_subtracted [OF getopt_example_phc o, of example_extern, unfolded a]
  have d: "sync_offset_direction (m_dst_clock ?st) = - 1"
    using t by (rule conjunct1 [OF conjunct2])
  have v: "sync_offset (m_dst_clock ?st) = 37"
    using t by (rule conjunct1 [OF conjunct2 [OF conjunct2]])
  note t4 = t [THEN conjunct2, THEN conjunct2, THEN conjunct2, THEN conjunct1, rule_format,
      OF startup_example_phc]
  have s1: "settled (m_dst_clock ?st1) (- 1) 37"
    using t4 by (rule conjunct1)
  have s2: "settled (example_forced_clock\<lparr>servo := Some 1, source_label := ''phc''\<rparr>)
              (if 0 \<le>s m_pps_fd ?st1 \<and> m_src ?st1 = CLOCK_INVALID then 0 else - 1) 37"
    using t4 [THEN conjunct2, rule_format, OF main_loop_example_phc] .
  have m: "m_src ?st1 \<noteq> CLOCK_INVALID" by simp
  have ns: "(- 74000000000 :: 64 word) = - 37000000000 - scast (37 :: cint) * NS_PER_SEC"
    by (simp add: NS_PER_SEC_def)
  show ?thesis
    using d v s1 s2 m
    by (simp add: getopt_example_phc startup_example_phc main_loop_example_phc a NS_PER_SEC_def
          del: main_getopt.simps)
qed

end
